(* ===== verification/Prelude.thy ===== *)
theory Prelude
  imports Main "HOL-Library.Word" "HOL-Library.AList"
begin

text \<open>
  Shared vocabulary of the FluxenDB development.

  \<^item> C++ failures as values: an exception thrown by the standard library, or a step
    whose behaviour the language leaves undefined, is the left injection of a sum
    type; \<open>rbind\<close> sequences such computations.
  \<^item> Machine integers: \<open>int\<close> is 32 bits wide, \<open>size_t\<close> and \<open>long long\<close> are 64 bits
    wide (the LP64 targets the build files name).  Signed values are HOL integers
    together with the conversions \<open>to_int32\<close> and \<open>size_of_int\<close>; \<open>size_t\<close> values are
    natural numbers reduced by \<open>szt\<close>.
  \<^item> Vector access: \<open>vec_at\<close> is \<open>v[i]\<close>, undefined out of range.
\<close>

named_theorems res_simps \<open>rewriting of the result monad\<close>
named_theorems size_simps \<open>conversions between machine integers in range\<close>

subsection \<open>Failures\<close>

datatype cpp_error =
    Invalid_Argument        \<comment> \<open>\<open>std::invalid_argument\<close>\<close>
  | Out_Of_Range            \<comment> \<open>\<open>std::out_of_range\<close>\<close>
  | Undefined_Behaviour     \<comment> \<open>no behaviour is defined by the language\<close>

type_synonym 'a res = "cpp_error + 'a"

abbreviation throw :: "cpp_error \<Rightarrow> 'a res" where
  "throw e \<equiv> Inl e"

abbreviation ok :: "'a \<Rightarrow> 'a res" where
  "ok x \<equiv> Inr x"

fun rbind :: "'a res \<Rightarrow> ('a \<Rightarrow> 'b res) \<Rightarrow> 'b res" where
  "rbind (Inl e) f = Inl e"
| "rbind (Inr x) f = f x"

lemma rbind_ok_right [simp]: "rbind m Inr = m"
  by (cases m) simp_all

lemma rbind_assoc [res_simps]: "rbind (rbind m f) g = rbind m (\<lambda>x. rbind (f x) g)"
  by (cases m) simp_all

lemma rbind_eq_ok [res_simps]: "rbind m f = Inr y \<longleftrightarrow> (\<exists>x. m = Inr x \<and> f x = Inr y)"
  by (cases m) simp_all

lemma rbind_eq_throw [res_simps]:
  "rbind m f = Inl e \<longleftrightarrow> m = Inl e \<or> (\<exists>x. m = Inr x \<and> f x = Inl e)"
  by (cases m) simp_all

lemma rbind_okE [elim!]:
  assumes "rbind m f = Inr y"
  obtains x where "m = Inr x" and "f x = Inr y"
  using assms by (cases m) simp_all

lemma rbind_cong [fundef_cong]:
  "m = m' \<Longrightarrow> (\<And>x. m' = Inr x \<Longrightarrow> f x = g x) \<Longrightarrow> rbind m f = rbind m' g"
  by (cases m') simp_all

text \<open>A property of the result, when there is one.\<close>

definition on_ok :: "('a \<Rightarrow> bool) \<Rightarrow> 'a res \<Rightarrow> bool" where
  "on_ok P m \<longleftrightarrow> (\<forall>x. m = Inr x \<longrightarrow> P x)"

lemma on_ok_simps [simp, res_simps]:
  "on_ok P (Inr x) \<longleftrightarrow> P x" "on_ok P (Inl e)"
  "on_ok P (rbind m f) \<longleftrightarrow> on_ok (\<lambda>x. on_ok P (f x)) m"
  by (auto simp: on_ok_def rbind_eq_ok)

lemma on_okD: "on_ok P m \<Longrightarrow> m = Inr x \<Longrightarrow> P x"
  by (simp add: on_ok_def)

lemma on_okI: "(\<And>x. m = Inr x \<Longrightarrow> P x) \<Longrightarrow> on_ok P m"
  by (simp add: on_ok_def)

subsection \<open>Vectors\<close>

definition vec_at :: "'a list \<Rightarrow> nat \<Rightarrow> 'a res" where
  "vec_at v i = (if i < length v then Inr (v ! i) else Inl Undefined_Behaviour)"

lemma vec_at_ok [simp]: "i < length v \<Longrightarrow> vec_at v i = Inr (v ! i)"
  by (simp add: vec_at_def)

lemma vec_at_bad [simp]: "length v \<le> i \<Longrightarrow> vec_at v i = Inl Undefined_Behaviour"
  by (simp add: vec_at_def)

lemma vec_at_eq_ok: "vec_at v i = Inr x \<longleftrightarrow> i < length v \<and> x = v ! i"
  by (auto simp: vec_at_def)

subsection \<open>Machine integers\<close>

definition INT_MAX :: int where "INT_MAX = 2147483647"
definition INT_MIN :: int where "INT_MIN = - 2147483648"
definition LLONG_MAX :: int where "LLONG_MAX = 9223372036854775807"
definition LLONG_MIN :: int where "LLONG_MIN = - 9223372036854775808"

definition npos :: nat where "npos = 18446744073709551615"

text \<open>Reduction of a \<open>size_t\<close> result, the conversion of an \<open>int\<close> to \<open>size_t\<close>, and the
  conversion of a \<open>size_t\<close> to \<open>int\<close> (two's complement, as the compilers of the build do).\<close>

definition szt :: "nat \<Rightarrow> nat" where
  "szt n = n mod 18446744073709551616"

definition size_of_int :: "int \<Rightarrow> nat" where
  "size_of_int i = nat (i mod 18446744073709551616)"

definition sz_sub :: "nat \<Rightarrow> nat \<Rightarrow> nat" where
  "sz_sub a b = size_of_int (int a - int b)"

definition to_int32 :: "int \<Rightarrow> int" where
  "to_int32 i = (i + 2147483648) mod 4294967296 - 2147483648"

lemma szt_id [simp, size_simps]: "n < 18446744073709551616 \<Longrightarrow> szt n = n"
  by (simp add: szt_def)

lemma size_of_int_id [simp, size_simps]:
  "0 \<le> i \<Longrightarrow> i < 18446744073709551616 \<Longrightarrow> size_of_int i = nat i"
  by (simp add: size_of_int_def)

lemma size_of_int_neg [size_simps]:
  "i < 0 \<Longrightarrow> - 18446744073709551616 \<le> i \<Longrightarrow> size_of_int i = nat (i + 18446744073709551616)"
proof -
  assume "i < 0" "- 18446744073709551616 \<le> i"
  then have "i mod 18446744073709551616 = i + 18446744073709551616"
    by (subst mod_add_self2 [symmetric], subst mod_pos_pos_trivial) auto
  then show ?thesis by (simp add: size_of_int_def)
qed

lemma sz_sub_id [simp, size_simps]:
  "b \<le> a \<Longrightarrow> a < 18446744073709551616 \<Longrightarrow> sz_sub a b = a - b"
  by (simp add: sz_sub_def nat_diff_distrib)

lemma to_int32_id [simp, size_simps]:
  "- 2147483648 \<le> i \<Longrightarrow> i < 2147483648 \<Longrightarrow> to_int32 i = i"
  by (simp add: to_int32_def)

lemma to_int32_range: "INT_MIN \<le> to_int32 i \<and> to_int32 i \<le> INT_MAX"
proof -
  have "0 \<le> (i + 2147483648) mod 4294967296" "(i + 2147483648) mod 4294967296 < 4294967296"
    by (rule pos_mod_sign, simp, rule pos_mod_bound, simp)
  then show ?thesis by (simp add: to_int32_def INT_MIN_def INT_MAX_def)
qed

lemma size_of_int_less: "size_of_int i < 18446744073709551616"
proof -
  have "i mod 18446744073709551616 < 18446744073709551616"
    by (rule pos_mod_bound) simp
  then show ?thesis by (simp add: size_of_int_def nat_less_iff)
qed

subsection \<open>Lists\<close>

lemma takeWhile_append_stop:
  "\<forall>x \<in> set xs. P x \<Longrightarrow> ys = [] \<or> \<not> P (hd ys) \<Longrightarrow> takeWhile P (xs @ ys) = xs"
  by (cases ys) (auto simp: takeWhile_tail)

lemma dropWhile_append_stop:
  "\<forall>x \<in> set xs. P x \<Longrightarrow> ys = [] \<or> \<not> P (hd ys) \<Longrightarrow> dropWhile P (xs @ ys) = ys"
  by (cases ys) auto

lemma dropWhile_stop: "xs = [] \<or> \<not> P (hd xs) \<Longrightarrow> dropWhile P xs = xs"
  by (cases xs) auto

end
