(* ===== verification/Cpp_String.thy ===== *)
theory Cpp_String
  imports Prelude
begin

text \<open>
  The part of the C++ string library the sources use, on byte strings
  (\<open>std::string\<close> is a char list, one char per byte): character classes of the C
  locale, \<open>substr\<close>, \<open>find\<close>, \<open>std::to_string\<close>, \<open>std::stoi\<close> and \<open>std::stoll\<close>,
  whitespace-delimited extraction from a stream, and \<open>std::getline\<close>.
\<close>

subsection \<open>Characters\<close>

definition LF :: char where "LF = CHR 0x0A"
definition CR :: char where "CR = CHR 0x0D"
definition CRLF :: string where "CRLF = [CHR 0x0D, CHR 0x0A]"

definition isspace :: "char \<Rightarrow> bool" where
  "isspace c \<longleftrightarrow> c = CHR '' '' \<or> c = CHR 0x09 \<or> c = CHR 0x0A \<or> c = CHR 0x0B
     \<or> c = CHR 0x0C \<or> c = CHR 0x0D"

definition isdigit :: "char \<Rightarrow> bool" where
  "isdigit c \<longleftrightarrow> 48 \<le> (of_char c :: nat) \<and> (of_char c :: nat) \<le> 57"

definition digit_val :: "char \<Rightarrow> nat" where
  "digit_val c = of_char c - 48"

definition digit_chr :: "nat \<Rightarrow> char" where
  "digit_chr d = char_of (48 + d)"

definition toupper :: "char \<Rightarrow> char" where
  "toupper c = (let n = (of_char c :: nat) in
     if 97 \<le> n \<and> n \<le> 122 then char_of (n - 32) else c)"

lemma LF_space [simp]: "isspace LF"
  by (simp add: isspace_def LF_def)

lemma of_char_digit_chr [simp]: "d < 10 \<Longrightarrow> (of_char (digit_chr d) :: nat) = 48 + d"
  by (simp add: digit_chr_def)

lemma isdigit_digit_chr [simp]: "d < 10 \<Longrightarrow> isdigit (digit_chr d)"
  by (simp add: isdigit_def)

lemma digit_val_digit_chr [simp]: "d < 10 \<Longrightarrow> digit_val (digit_chr d) = d"
  by (simp add: digit_val_def)

lemma isdigit_not_space: "isdigit c \<Longrightarrow> \<not> isspace c"
  by (auto simp: isdigit_def isspace_def)

lemma isdigit_not_sign: "isdigit c \<Longrightarrow> c \<noteq> CHR ''-'' \<and> c \<noteq> CHR ''+''"
  by (auto simp: isdigit_def)

lemma not_isdigit_CR: "\<not> isdigit (CHR 0x0D)"
  by (simp add: isdigit_def)

lemma toupper_idem: "toupper (toupper c) = toupper c"
proof (cases "97 \<le> (of_char c :: nat) \<and> (of_char c :: nat) \<le> 122")
  case True
  then have "(of_char (char_of ((of_char c :: nat) - 32)) :: nat) = of_char c - 32"
    by (auto intro!: mod_less)
  with True show ?thesis by (auto simp: toupper_def Let_def)
qed (auto simp: toupper_def Let_def)

subsection \<open>\<open>substr\<close> and \<open>find\<close>\<close>

definition substr :: "string \<Rightarrow> nat \<Rightarrow> nat \<Rightarrow> string res" where
  "substr s pos n = (if length s < pos then Inl Out_Of_Range else Inr (take n (drop pos s)))"

fun index_of :: "string \<Rightarrow> string \<Rightarrow> nat option" where
  "index_of pat [] = (if pat = [] then Some 0 else None)"
| "index_of pat (c # cs) =
     (if take (length pat) (c # cs) = pat then Some 0 else map_option Suc (index_of pat cs))"

definition str_find :: "string \<Rightarrow> string \<Rightarrow> nat \<Rightarrow> nat" where
  "str_find s pat pos =
     (if length s < pos then npos
      else case index_of pat (drop pos s) of None \<Rightarrow> npos | Some i \<Rightarrow> pos + i)"

lemma substr_ok [simp]: "pos \<le> length s \<Longrightarrow> substr s pos n = Inr (take n (drop pos s))"
  by (simp add: substr_def)

lemma index_of_bound: "index_of pat s = Some i \<Longrightarrow> i + length pat \<le> length s"
proof (induction s arbitrary: i)
  case (Cons c cs)
  then show ?case
  proof (cases "take (length pat) (c # cs) = pat")
    case True
    then have "length pat \<le> length (c # cs)"
      by (metis length_take min.cobounded1)
    with True Cons.prems show ?thesis by simp
  qed auto
qed (auto split: if_splits)

lemma index_of_match: "index_of pat s = Some i \<Longrightarrow> take (length pat) (drop i s) = pat"
  by (induction s arbitrary: i) (auto split: if_splits)

lemma index_of_crlf:
  "CHR 0x0D \<notin> set xs \<Longrightarrow> index_of CRLF (xs @ CRLF @ ys) = Some (length xs)"
  by (induction xs) (auto simp: CRLF_def)

lemma index_of_singleton:
  "c \<notin> set xs \<Longrightarrow> index_of [c] (xs @ c # ys) = Some (length xs)"
  by (induction xs) auto

lemma index_of_singleton_None: "c \<notin> set xs \<Longrightarrow> index_of [c] xs = None"
  by (induction xs) auto

lemma str_find_crlf:
  assumes "CHR 0x0D \<notin> set xs"
  shows "str_find (pre @ xs @ CRLF @ ys) CRLF (length pre) = length pre + length xs"
  using assms by (simp add: str_find_def index_of_crlf)

lemma str_find_bound:
  "str_find s pat pos \<noteq> npos \<Longrightarrow>
     pos \<le> str_find s pat pos \<and> str_find s pat pos + length pat \<le> length s"
  by (auto simp: str_find_def dest!: index_of_bound split: option.splits if_splits)

subsection \<open>Decimal rendering and reading\<close>

fun show_nat :: "nat \<Rightarrow> string" where
  "show_nat n = (if n < 10 then [digit_chr n] else show_nat (n div 10) @ [digit_chr (n mod 10)])"

declare show_nat.simps [simp del]

definition show_int :: "int \<Rightarrow> string" where
  "show_int i = (if i < 0 then CHR ''-'' # show_nat (nat (- i)) else show_nat (nat i))"

fun read_digits :: "nat \<Rightarrow> string \<Rightarrow> nat" where
  "read_digits acc [] = acc"
| "read_digits acc (c # cs) = read_digits (10 * acc + digit_val c) cs"

lemma read_digits_append: "read_digits acc (xs @ ys) = read_digits (read_digits acc xs) ys"
  by (induction xs arbitrary: acc) auto

lemma show_nat_digits: "\<forall>c \<in> set (show_nat n). isdigit c"
proof (induction n rule: show_nat.induct)
  case (1 n)
  then show ?case by (subst show_nat.simps) auto
qed

lemma show_nat_nonempty [simp]: "show_nat n \<noteq> []"
  by (subst show_nat.simps) simp

lemma read_show_nat: "read_digits 0 (show_nat n) = n"
proof (induction n rule: show_nat.induct)
  case (1 n)
  then show ?case by (subst show_nat.simps) (auto simp: read_digits_append)
qed

lemma show_nat_no_CR: "CHR 0x0D \<notin> set (show_nat n)"
  using show_nat_digits not_isdigit_CR by blast

lemma show_nat_hd: "isdigit (hd (show_nat n))"
  using show_nat_digits [of n] by (meson hd_in_set show_nat_nonempty)

text \<open>\<open>strtol\<close> with base 10: leading white space, an optional sign, digits; trailing
  characters are ignored.  \<open>None\<close> when no digit was read.\<close>

definition strtol :: "string \<Rightarrow> int option" where
  "strtol s =
     (let t = dropWhile isspace s;
          neg = (t \<noteq> [] \<and> hd t = CHR ''-'');
          u = (if t \<noteq> [] \<and> (hd t = CHR ''-'' \<or> hd t = CHR ''+'') then tl t else t);
          ds = takeWhile isdigit u
      in if ds = [] then None
         else Some (if neg then - int (read_digits 0 ds) else int (read_digits 0 ds)))"

definition stoi :: "string \<Rightarrow> int res" where
  "stoi s = (case strtol s of
      None \<Rightarrow> Inl Invalid_Argument
    | Some v \<Rightarrow> if v < INT_MIN \<or> INT_MAX < v then Inl Out_Of_Range else Inr v)"

definition stoll :: "string \<Rightarrow> int res" where
  "stoll s = (case strtol s of
      None \<Rightarrow> Inl Invalid_Argument
    | Some v \<Rightarrow> if v < LLONG_MIN \<or> LLONG_MAX < v then Inl Out_Of_Range else Inr v)"

lemma strtol_show_nat:
  assumes "rest = [] \<or> \<not> isdigit (hd rest)"
  shows "strtol (show_nat n @ rest) = Some (int n)"
proof -
  have ds: "takeWhile isdigit (show_nat n @ rest) = show_nat n"
    using assms show_nat_digits by (intro takeWhile_append_stop) auto
  have hd: "hd (show_nat n @ rest) = hd (show_nat n)" by simp
  have sp: "dropWhile isspace (show_nat n @ rest) = show_nat n @ rest"
    using isdigit_not_space [OF show_nat_hd] by (intro dropWhile_stop) simp
  show ?thesis
    using isdigit_not_sign [OF show_nat_hd, of n] by (simp add: strtol_def sp ds hd read_show_nat)
qed

lemma strtol_show_int:
  assumes "rest = [] \<or> \<not> isdigit (hd rest)"
  shows "strtol (show_int i @ rest) = Some i"
proof (cases "i < 0")
  case True
  have ds: "takeWhile isdigit (show_nat (nat (- i)) @ rest) = show_nat (nat (- i))"
    using assms show_nat_digits by (intro takeWhile_append_stop) auto
  have sp: "\<not> isspace (CHR ''-'')" by (simp add: isspace_def)
  show ?thesis using True by (simp add: show_int_def strtol_def sp ds read_show_nat)
next
  case False
  then show ?thesis using strtol_show_nat [OF assms, of "nat i"] by (simp add: show_int_def)
qed

lemma stoi_show_int:
  "INT_MIN \<le> i \<Longrightarrow> i \<le> INT_MAX \<Longrightarrow> stoi (show_int i) = Inr i"
  using strtol_show_int [of "[]" i] by (simp add: stoi_def)

lemma stoi_show_nat: "int n \<le> INT_MAX \<Longrightarrow> stoi (show_nat n) = Inr (int n)"
  using strtol_show_nat [of "[]" n] by (simp add: stoi_def INT_MIN_def)

lemma stoi_range: "stoi s = Inr i \<Longrightarrow> INT_MIN \<le> i \<and> i \<le> INT_MAX"
  by (auto simp: stoi_def split: option.splits if_splits)

lemma stoll_range: "stoll s = Inr i \<Longrightarrow> LLONG_MIN \<le> i \<and> i \<le> LLONG_MAX"
  by (auto simp: stoll_def split: option.splits if_splits)

lemma stoi_never_undefined: "stoi s \<noteq> Inl Undefined_Behaviour"
  by (auto simp: stoi_def split: option.splits)

subsection \<open>Formatted extraction\<close>

text \<open>\<open>is >> token\<close>: skip white space, take the following non-space characters.
  \<open>None\<close> when the stream holds no further token.\<close>

definition next_token :: "string \<Rightarrow> (string \<times> string) option" where
  "next_token s =
     (let t = dropWhile isspace s
      in if t = [] then None
         else Some (takeWhile (\<lambda>c. \<not> isspace c) t, dropWhile (\<lambda>c. \<not> isspace c) t))"

lemma next_token_shorter: "next_token s = Some (t, r) \<Longrightarrow> length r < length s"
proof -
  assume a: "next_token s = Some (t, r)"
  let ?u = "dropWhile isspace s"
  from a have u: "?u \<noteq> []" and r: "r = dropWhile (\<lambda>c. \<not> isspace c) ?u"
    by (auto simp: next_token_def Let_def split: if_splits)
  from u have "\<not> isspace (hd ?u)" by (rule hd_dropWhile)
  with u have "length r < length ?u"
    by (cases ?u) (auto simp: r intro: le_imp_less_Suc length_dropWhile_le)
  also have "\<dots> \<le> length s" by (rule length_dropWhile_le)
  finally show ?thesis .
qed

text \<open>\<open>while (is >> token) v.push_back(token)\<close>.\<close>

function tokens_of :: "string \<Rightarrow> string list" where
  "tokens_of s = (case next_token s of None \<Rightarrow> [] | Some (t, r) \<Rightarrow> t # tokens_of r)"
  by pat_completeness auto
termination
  by (relation "measure length") (auto dest: next_token_shorter)

declare tokens_of.simps [simp del]

definition no_space :: "string \<Rightarrow> bool" where
  "no_space s \<longleftrightarrow> list_all (\<lambda>c. \<not> isspace c) s"

definition is_token :: "string \<Rightarrow> bool" where
  "is_token s \<longleftrightarrow> s \<noteq> [] \<and> no_space s"

lemma next_token_Nil [simp]: "next_token [] = None"
  by (simp add: next_token_def)

lemma next_token_space [simp]: "isspace c \<Longrightarrow> next_token (c # s) = next_token s"
  by (simp add: next_token_def)

lemma next_token_word:
  assumes "is_token w" and "rest = [] \<or> isspace (hd rest)"
  shows "next_token (w @ rest) = Some (w, rest)"
proof -
  have w: "\<forall>c \<in> set w. \<not> isspace c" "w \<noteq> []"
    using assms(1) by (auto simp: is_token_def no_space_def list_all_iff)
  then have "dropWhile isspace (w @ rest) = w @ rest"
    by (intro dropWhile_stop) (cases w, auto)
  moreover have "takeWhile (\<lambda>c. \<not> isspace c) (w @ rest) = w"
    using w assms(2) by (intro takeWhile_append_stop) auto
  moreover have "dropWhile (\<lambda>c. \<not> isspace c) (w @ rest) = rest"
    using w assms(2) by (intro dropWhile_append_stop) auto
  ultimately show ?thesis using w by (simp add: next_token_def)
qed

lemma tokens_of_Nil [simp]: "tokens_of [] = []"
  by (simp add: tokens_of.simps)

lemma tokens_of_space [simp]: "isspace c \<Longrightarrow> tokens_of (c # s) = tokens_of s"
  by (simp add: tokens_of.simps [of "c # s"] tokens_of.simps [of s])

lemma tokens_of_word:
  "is_token w \<Longrightarrow> rest = [] \<or> isspace (hd rest) \<Longrightarrow> tokens_of (w @ rest) = w # tokens_of rest"
  by (simp add: tokens_of.simps [of "w @ rest"] next_token_word)

lemma tokens_are_tokens: "t \<in> set (tokens_of s) \<Longrightarrow> is_token t"
proof (induction s rule: tokens_of.induct)
  case (1 s)
  show ?case
  proof (cases "next_token s")
    case (Some p)
    obtain w r where p: "p = (w, r)" by (cases p)
    with Some have u: "dropWhile isspace s \<noteq> []"
      and w: "w = takeWhile (\<lambda>c. \<not> isspace c) (dropWhile isspace s)"
      by (auto simp: next_token_def Let_def split: if_splits)
    from u have "\<not> isspace (hd (dropWhile isspace s))" by (rule hd_dropWhile)
    with u w have "is_token w"
      by (cases "dropWhile isspace s")
        (auto simp: is_token_def no_space_def list_all_iff dest: set_takeWhileD)
    with "1.IH" [OF Some [unfolded p] refl] "1.prems" Some p show ?thesis
      by (auto simp: tokens_of.simps [of s])
  next
    case None
    with "1.prems" show ?thesis by (simp add: tokens_of.simps [of s])
  qed
qed

subsection \<open>\<open>getline\<close>\<close>

text \<open>The lines \<open>while (std::getline(f, line))\<close> reads: split at line feeds; what
  follows the last line feed is a line only when it is not empty.\<close>

fun getlines_acc :: "string \<Rightarrow> string \<Rightarrow> string list" where
  "getlines_acc acc [] = (if acc = [] then [] else [rev acc])"
| "getlines_acc acc (c # cs) =
     (if c = LF then rev acc # getlines_acc [] cs else getlines_acc (c # acc) cs)"

definition getlines :: "string \<Rightarrow> string list" where
  "getlines s = getlines_acc [] s"

lemma getlines_acc_line:
  "LF \<notin> set l \<Longrightarrow> getlines_acc acc (l @ LF # s) = (rev acc @ l) # getlines_acc [] s"
  by (induction l arbitrary: acc) auto

lemma getlines_Nil [simp]: "getlines [] = []"
  by (simp add: getlines_def)

lemma getlines_line: "LF \<notin> set l \<Longrightarrow> getlines (l @ LF # s) = l # getlines s"
  by (simp add: getlines_def getlines_acc_line)

lemma getlines_concat:
  "\<forall>l \<in> set ls. LF \<notin> set l \<Longrightarrow> getlines (concat (map (\<lambda>l. l @ [LF]) ls) @ s) = ls @ getlines s"
  by (induction ls) (auto simp: getlines_line)

lemma no_space_no_LF: "no_space s \<Longrightarrow> LF \<notin> set s"
  by (auto simp: no_space_def list_all_iff)

end
