(* ===== verification/Unordered_Map.thy ===== *)
theory Unordered_Map
  imports Cpp_String
begin

text \<open>
  \<open>std::unordered_map<std::string, T>\<close> as the list of its nodes in iteration order.
  The C++ standard leaves the iteration order unspecified; the order of this list stands
  for one admissible order, and no property of the development depends on which one it
  is: what is shown of an enumeration holds up to permutation.  Keys are unique
  (\<open>um_ok\<close>), which every operation keeps.
\<close>

type_synonym 'v umap = "(string \<times> 'v) list"

definition um_find :: "'v umap \<Rightarrow> string \<Rightarrow> 'v option" where
  "um_find m k = map_of m k"

definition um_set :: "string \<Rightarrow> 'v \<Rightarrow> 'v umap \<Rightarrow> 'v umap" where
  "um_set k v m = AList.update k v m"

definition um_erase :: "string \<Rightarrow> 'v umap \<Rightarrow> 'v umap" where
  "um_erase k m = AList.delete k m"

text \<open>\<open>m[k]\<close> used as an expression: a missing key is inserted with the value \<open>d\<close> of the
  mapped type's default constructor, and the reference then denotes that value.\<close>

definition um_index :: "'v \<Rightarrow> string \<Rightarrow> 'v umap \<Rightarrow> 'v \<times> 'v umap" where
  "um_index d k m = (case um_find m k of Some v \<Rightarrow> (v, m) | None \<Rightarrow> (d, um_set k d m))"

definition um_has :: "'v umap \<Rightarrow> string \<Rightarrow> bool" where
  "um_has m k \<longleftrightarrow> um_find m k \<noteq> None"

definition um_keys :: "'v umap \<Rightarrow> string list" where
  "um_keys m = map fst m"

definition um_vals :: "'v umap \<Rightarrow> 'v list" where
  "um_vals m = map snd m"

definition um_ok :: "'v umap \<Rightarrow> bool" where
  "um_ok m \<longleftrightarrow> distinct (map fst m)"

subsection \<open>The container's contract\<close>

text \<open>
  What the code relies on: lookups after an assignment and after an erase, and the
  unique-keys invariant with its link to the enumeration.  The lemmas of the locale are
  the ones the stores of the database use.
\<close>

locale keyed_store =
  fixes find :: "'m \<Rightarrow> string \<Rightarrow> 'v option"
    and put :: "string \<Rightarrow> 'v \<Rightarrow> 'm \<Rightarrow> 'm"
    and erase :: "string \<Rightarrow> 'm \<Rightarrow> 'm"
    and empty :: "'m"
    and keys :: "'m \<Rightarrow> string list"
    and inv :: "'m \<Rightarrow> bool"
  assumes find_empty: "find empty k = None"
    and find_put: "find (put k v m) = (find m)(k \<mapsto> v)"
    and find_erase: "find (erase k m) = (find m)(k := None)"
    and keys_dom: "set (keys m) = dom (find m)"
    and inv_empty: "inv empty"
    and inv_put: "inv m \<Longrightarrow> inv (put k v m)"
    and inv_erase: "inv m \<Longrightarrow> inv (erase k m)"
    and inv_keys: "inv m \<Longrightarrow> distinct (keys m)"
begin

lemma find_put_same: "find (put k v m) k = Some v"
  by (simp add: find_put)

lemma find_put_other: "k' \<noteq> k \<Longrightarrow> find (put k v m) k' = find m k'"
  by (simp add: find_put)

lemma put_put_find: "find (put k v (put k w m)) = find (put k v m)"
  by (simp add: find_put)

lemma put_commute_find:
  "k \<noteq> l \<Longrightarrow> find (put k v (put l w m)) = find (put l w (put k v m))"
  by (simp add: find_put fun_upd_twist)

lemma erase_put_find: "find (erase k (put k v m)) = find (erase k m)"
  by (simp add: find_put find_erase)

lemma find_move:
  "find m k = Some v \<Longrightarrow> find (erase k (put l v m)) = (find m)(l \<mapsto> v, k := None)"
  by (simp add: find_put find_erase)

lemma keys_card: "inv m \<Longrightarrow> length (keys m) = card (dom (find m))"
  by (metis distinct_card inv_keys keys_dom)

lemma keys_put_new:
  assumes "inv m" "find m k = None"
  shows "length (keys (put k v m)) = Suc (length (keys m))"
proof -
  have fin: "finite (dom (find m))" by (metis finite_set keys_dom)
  have "dom (find (put k v m)) = insert k (dom (find m))" by (simp add: find_put)
  with fin assms show ?thesis by (simp add: keys_card inv_put domIff)
qed

lemma keys_put_old:
  "inv m \<Longrightarrow> find m k = Some w \<Longrightarrow> length (keys (put k v m)) = length (keys m)"
  by (simp add: keys_card inv_put find_put insert_absorb domI)

lemma put_fold_find:
  "find (foldl (\<lambda>m (k, v). put k v m) m kvs) = foldl (\<lambda>f (k, v). f(k \<mapsto> v)) (find m) kvs"
  by (induction kvs arbitrary: m) (auto simp: find_put split: prod.split)

lemma put_fold_inv: "inv m \<Longrightarrow> inv (foldl (\<lambda>m (k, v). put k v m) m kvs)"
  by (induction kvs arbitrary: m) (auto simp: inv_put)

end

subsection \<open>The node list satisfies the contract\<close>

lemma um_find_map_of: "um_find m = map_of m"
  by (rule ext) (simp add: um_find_def)

lemma um_find_set: "um_find (um_set k v m) = (um_find m)(k \<mapsto> v)"
  by (auto simp: um_find_def um_set_def update_conv')

lemma um_find_erase: "um_find (um_erase k m) = (um_find m)(k := None)"
  by (auto simp: um_find_def um_erase_def delete_conv')

lemma um_keys_dom: "set (um_keys m) = dom (um_find m)"
  by (simp add: um_keys_def um_find_map_of dom_map_of_conv_image_fst)

lemma um_ok_set: "um_ok m \<Longrightarrow> um_ok (um_set k v m)"
  by (simp add: um_ok_def um_set_def distinct_update)

lemma um_ok_erase: "um_ok m \<Longrightarrow> um_ok (um_erase k m)"
  by (simp add: um_ok_def um_erase_def distinct_delete)

lemma um_ok_distinct: "um_ok m \<Longrightarrow> distinct (um_keys m)"
  by (simp add: um_ok_def um_keys_def)

lemma um_ok_empty: "um_ok []"
  by (simp add: um_ok_def)

interpretation um: keyed_store um_find um_set um_erase "[]" um_keys um_ok
  by unfold_locales
    (simp_all add: um_find_set um_find_erase um_keys_dom um_ok_set um_ok_erase um_ok_distinct
      um_find_def um_ok_empty)

subsection \<open>Further facts of the node list\<close>

lemma um_find_Nil [simp]: "um_find [] k = None"
  by (simp add: um_find_def)

lemma um_find_set_same [simp]: "um_find (um_set k v m) k = Some v"
  by (rule um.find_put_same)

lemma um_find_set_other [simp]: "k' \<noteq> k \<Longrightarrow> um_find (um_set k v m) k' = um_find m k'"
  by (rule um.find_put_other)

lemma um_find_erase_same [simp]: "um_find (um_erase k m) k = None"
  by (simp add: um_find_erase)

lemma um_find_erase_other [simp]: "k' \<noteq> k \<Longrightarrow> um_find (um_erase k m) k' = um_find m k'"
  by (simp add: um_find_erase)

lemma um_has_set: "um_has (um_set k v m) l \<longleftrightarrow> l = k \<or> um_has m l"
  by (simp add: um_has_def um_find_set)

lemma um_has_erase: "um_has (um_erase k m) l \<longleftrightarrow> l \<noteq> k \<and> um_has m l"
  by (simp add: um_has_def um_find_erase)

lemma um_index_snd:
  "um_index d k m = (v, m') \<Longrightarrow> um_find m' k = Some v \<and> (um_ok m \<longrightarrow> um_ok m')"
  by (auto simp: um_index_def um_ok_set split: option.splits)

lemma fst_um_index: "fst (um_index d k m) = (case um_find m k of Some v \<Rightarrow> v | None \<Rightarrow> d)"
  by (simp add: um_index_def split: option.splits)

lemma um_find_index:
  "um_find (snd (um_index d k m)) = (case um_find m k of Some v \<Rightarrow> um_find m | None \<Rightarrow> (um_find m)(k \<mapsto> d))"
  by (simp add: um_index_def um_find_set split: option.splits)

lemma um_ok_index: "um_ok m \<Longrightarrow> um_ok (snd (um_index d k m))"
  by (simp add: um_index_def um_ok_set split: option.splits)

lemma um_ok_Nil [simp]: "um_ok []"
  by (rule um.inv_empty)

lemma um_find_in: "um_ok m \<Longrightarrow> (k, v) \<in> set m \<longleftrightarrow> um_find m k = Some v"
  by (simp add: um_ok_def um_find_def)

lemma length_um_vals [simp]: "length (um_vals m) = length m"
  by (simp add: um_vals_def)

lemma length_um_keys [simp]: "length (um_keys m) = length m"
  by (simp add: um_keys_def)

text \<open>Two node lists with the same lookups have the same entries, up to order.\<close>

lemma um_find_eq_set:
  assumes "um_ok m" "um_ok n" "um_find m = um_find n"
  shows "set m = set n"
proof -
  have "(k, v) \<in> set m \<longleftrightarrow> (k, v) \<in> set n" for k v
    using assms by (simp add: um_find_in)
  then show ?thesis by auto
qed

lemma um_set_fold_map:
  "um_ok (m @ kvs) \<Longrightarrow> foldl (\<lambda>m (k, v). um_set k v m) m kvs = m @ kvs"
proof (induction kvs arbitrary: m)
  case (Cons kv kvs)
  obtain k v where kv: "kv = (k, v)" by (cases kv)
  have notin: "k \<notin> fst ` set m" using Cons.prems by (auto simp: um_ok_def kv)
  then have "um_set k v m = m @ [(k, v)]"
    unfolding um_set_def by (induction m) auto
  with Cons show ?case by (simp add: kv)
qed simp

lemmas um_simps = um_find_set um_find_erase um_has_set um_has_erase um_ok_set um_ok_erase

end
