(* ===== verification/Database.thy ===== *)
theory Database
  imports Unordered_Map
begin

text \<open>
  The in-memory database of \<open>include/Database.h\<close> and \<open>src/server/Database.cpp\<close>: its
  state and the operations that are not specific to lists or hashes.  An operation
  takes the state and returns its result with the new state; a C++ reference into a
  store is a read followed by a write back under the same key.
\<close>

subsection \<open>State\<close>

text \<open>The four members of the class.  A \<open>steady_clock::time_point\<close> is its count of
  nanoseconds, a signed 64-bit number.  The mutex member is never locked by the code
  and has no counterpart.\<close>

record database =
  kv_store :: "string umap"
  list_store :: "string list umap"
  hash_store :: "string umap umap"
  expirey_map :: "int umap"

definition empty_db :: database where
  "empty_db = \<lparr>kv_store = [], list_store = [], hash_store = [], expirey_map = []\<rparr>"

definition db_ok :: "database \<Rightarrow> bool" where
  "db_ok d \<longleftrightarrow> um_ok (kv_store d) \<and> um_ok (list_store d) \<and> um_ok (hash_store d)
     \<and> um_ok (expirey_map d) \<and> (\<forall>k h. um_find (hash_store d) k = Some h \<longrightarrow> um_ok h)"

subsection \<open>Common commands\<close>

definition flushAll :: "database \<Rightarrow> bool \<times> database" where
  "flushAll d = (True, d\<lparr>kv_store := [], list_store := [], hash_store := []\<rparr>)"

definition db_set :: "string \<Rightarrow> string \<Rightarrow> database \<Rightarrow> database" where
  "db_set key val d = d\<lparr>kv_store := um_set key val (kv_store d)\<rparr>"

text \<open>\<open>get\<close> writes its out parameter only when the key is present; the parameter's value
  before the call is an argument.\<close>

definition db_get :: "string \<Rightarrow> string \<Rightarrow> database \<Rightarrow> bool \<times> string" where
  "db_get key value0 d =
     (case um_find (kv_store d) key of Some v \<Rightarrow> (True, v) | None \<Rightarrow> (False, value0))"

text \<open>The three loops of \<open>keys\<close>, in the order of the source.\<close>

definition db_keys :: "database \<Rightarrow> string list" where
  "db_keys d = um_keys (kv_store d) @ um_keys (list_store d) @ um_keys (kv_store d)"

definition db_type :: "string \<Rightarrow> database \<Rightarrow> string" where
  "db_type key d =
     (if um_has (kv_store d) key then ''string''
      else if um_has (list_store d) key then ''list''
      else if um_has (hash_store d) key then ''hash''
      else ''none'')"

definition del :: "string \<Rightarrow> database \<Rightarrow> bool \<times> database" where
  "del key d =
     (um_has (kv_store d) key \<or> um_has (list_store d) key \<or> um_has (hash_store d) key,
      d\<lparr>kv_store := um_erase key (kv_store d), list_store := um_erase key (list_store d),
        hash_store := um_erase key (hash_store d)\<rparr>)"

text \<open>\<open>now\<close> is the reading of the steady clock.  The conversion of the seconds to
  nanoseconds and the sum are signed 64-bit operations, undefined on overflow.\<close>

definition in_llong :: "int \<Rightarrow> bool" where
  "in_llong i \<longleftrightarrow> LLONG_MIN \<le> i \<and> i \<le> LLONG_MAX"

definition time_add_seconds :: "int \<Rightarrow> int \<Rightarrow> int res" where
  "time_add_seconds now secs =
     (if in_llong (secs * 1000000000) \<and> in_llong (now + secs * 1000000000)
      then Inr (now + secs * 1000000000) else Inl Undefined_Behaviour)"

definition db_exists :: "string \<Rightarrow> database \<Rightarrow> bool" where
  "db_exists key d \<longleftrightarrow>
     um_has (kv_store d) key \<or> um_has (list_store d) key \<or> um_has (hash_store d) key"

definition expire :: "int \<Rightarrow> string \<Rightarrow> string \<Rightarrow> database \<Rightarrow> (bool \<times> database) res" where
  "expire now key secs d =
     (if \<not> db_exists key d then Inr (False, d)
      else rbind (stoll secs) (\<lambda>s. rbind (time_add_seconds now s) (\<lambda>t.
        Inr (True, d\<lparr>expirey_map := um_set key t (expirey_map d)\<rparr>))))"

text \<open>One block of \<open>rename\<close>: \<open>store[newKey] = it->second; store.erase(it)\<close>.  The iterator
  denotes the node of the old key, so renaming a key to itself erases it.\<close>

definition move_key :: "string \<Rightarrow> string \<Rightarrow> 'v umap \<Rightarrow> bool \<times> 'v umap" where
  "move_key oldKey newKey m =
     (case um_find m oldKey of
        None \<Rightarrow> (False, m)
      | Some v \<Rightarrow> (True, um_erase oldKey (um_set newKey v m)))"

definition rename :: "string \<Rightarrow> string \<Rightarrow> database \<Rightarrow> bool \<times> database" where
  "rename oldKey newKey d =
     (let (f1, kv) = move_key oldKey newKey (kv_store d);
          (f2, ls) = move_key oldKey newKey (list_store d);
          (f3, hs) = move_key oldKey newKey (hash_store d);
          (f4, ex) = move_key oldKey newKey (expirey_map d)
      in (f1 \<or> f2 \<or> f3 \<or> f4,
          d\<lparr>kv_store := kv, list_store := ls, hash_store := hs, expirey_map := ex\<rparr>))"

subsection \<open>The invariant\<close>

lemma db_ok_empty: "db_ok empty_db"
  by (simp add: db_ok_def empty_db_def)

lemma db_ok_kv: "db_ok d \<Longrightarrow> um_ok m \<Longrightarrow> db_ok (d\<lparr>kv_store := m\<rparr>)"
  by (simp add: db_ok_def)

lemma db_ok_list: "db_ok d \<Longrightarrow> um_ok m \<Longrightarrow> db_ok (d\<lparr>list_store := m\<rparr>)"
  by (simp add: db_ok_def)

lemma db_ok_expirey: "db_ok d \<Longrightarrow> um_ok m \<Longrightarrow> db_ok (d\<lparr>expirey_map := m\<rparr>)"
  by (simp add: db_ok_def)

lemma db_ok_hash:
  "db_ok d \<Longrightarrow> um_ok m \<Longrightarrow> (\<And>k h. um_find m k = Some h \<Longrightarrow> um_ok h) \<Longrightarrow>
     db_ok (d\<lparr>hash_store := m\<rparr>)"
  by (simp add: db_ok_def)

lemmas db_ok_updates = db_ok_kv db_ok_list db_ok_expirey db_ok_hash

lemma db_okD:
  assumes "db_ok d"
  shows "um_ok (kv_store d)" "um_ok (list_store d)" "um_ok (hash_store d)"
    "um_ok (expirey_map d)" "um_find (hash_store d) k = Some h \<Longrightarrow> um_ok h"
  using assms by (auto simp: db_ok_def)

lemma db_ok_flushAll: "db_ok d \<Longrightarrow> db_ok (snd (flushAll d))"
  by (simp add: flushAll_def db_ok_def)

lemma db_ok_set: "db_ok d \<Longrightarrow> db_ok (db_set k v d)"
  by (simp add: db_set_def db_ok_kv um_ok_set db_okD)

lemma db_ok_del: "db_ok d \<Longrightarrow> db_ok (snd (del k d))"
  by (auto simp: del_def db_ok_def um_simps split: if_splits)

lemma db_ok_expire: "db_ok d \<Longrightarrow> expire now k s d = Inr (b, d') \<Longrightarrow> db_ok d'"
  by (auto simp: expire_def db_ok_expirey um_ok_set db_okD split: if_splits)

lemma move_key_ok: "um_ok m \<Longrightarrow> um_ok (snd (move_key k l m))"
  by (simp add: move_key_def um_simps split: option.splits)

lemma move_key_find:
  "um_find (snd (move_key k l m)) =
     (case um_find m k of None \<Rightarrow> um_find m | Some v \<Rightarrow> (um_find m)(l \<mapsto> v, k := None))"
  by (simp add: move_key_def um_simps split: option.splits)

lemma move_key_found: "fst (move_key k l m) \<longleftrightarrow> um_has m k"
  by (simp add: move_key_def um_has_def split: option.splits)

lemma move_key_preserves:
  "(\<And>k v. um_find m k = Some v \<Longrightarrow> P v) \<Longrightarrow> um_find (snd (move_key a b m)) k = Some v \<Longrightarrow> P v"
  by (auto simp: move_key_find split: option.splits if_splits)

lemma db_ok_rename: "db_ok d \<Longrightarrow> db_ok (snd (rename a b d))"
  by (auto simp: rename_def db_ok_def move_key_ok split: prod.splits
      dest: move_key_ok [of _ a b] intro: move_key_preserves)
     (metis move_key_ok move_key_preserves snd_conv)+

subsection \<open>Functional behaviour\<close>

lemma get_set: "db_get k' v0 (db_set k v d) = (if k' = k then (True, v) else db_get k' v0 d)"
  by (simp add: db_get_def db_set_def um_simps)

lemma set_frame [simp]:
  "list_store (db_set k v d) = list_store d" "hash_store (db_set k v d) = hash_store d"
  "expirey_map (db_set k v d) = expirey_map d"
  by (simp_all add: db_set_def)

lemma type_set: "db_type k (db_set k v d) = ''string''"
  by (simp add: db_type_def db_set_def um_simps)

lemma type_none_iff: "db_type k d = ''none'' \<longleftrightarrow> \<not> db_exists k d"
  by (simp add: db_type_def db_exists_def)

lemma del_result: "fst (del k d) \<longleftrightarrow> db_exists k d"
  by (simp add: del_def db_exists_def)

lemma del_gone: "\<not> db_exists k (snd (del k d))"
  by (simp add: del_def db_exists_def um_simps)

lemma del_other: "k' \<noteq> k \<Longrightarrow> db_exists k' (snd (del k d)) = db_exists k' d"
  by (simp add: del_def db_exists_def um_simps)

lemma del_idem: "snd (del k (snd (del k d))) = snd (del k d)"
  by (simp add: del_def um_erase_def delete_idem)

end
