(* ===== verification/Db_Lists.thy ===== *)
theory Db_Lists
  imports Database
begin

text \<open>
  The list operations of \<open>src/server/Database.cpp\<close>.  Each begins with
  \<open>list_store[key]\<close>, which creates an empty list under a missing key; only \<open>lrem\<close>
  looks the key up first.  A result of type \<open>int\<close> is the size converted by
  \<open>to_int32\<close>; a position is an \<open>int\<close>, compared with \<open>size()\<close> once it is known not to be
  negative.
\<close>

subsection \<open>Operations\<close>

definition list_ref :: "string \<Rightarrow> database \<Rightarrow> string list \<times> database" where
  "list_ref key d =
     (let (list, ls) = um_index [] key (list_store d) in (list, d\<lparr>list_store := ls\<rparr>))"

definition list_write :: "string \<Rightarrow> string list \<Rightarrow> database \<Rightarrow> database" where
  "list_write key list d = d\<lparr>list_store := um_set key list (list_store d)\<rparr>"

definition lset :: "string \<Rightarrow> int \<Rightarrow> string \<Rightarrow> database \<Rightarrow> bool \<times> database" where
  "lset key index val d =
     (let (list, d1) = list_ref key d in
      if index < 0 \<or> length list \<le> size_of_int index then (False, d1)
      else (True, list_write key (list[size_of_int index := val]) d1))"

definition lget :: "string \<Rightarrow> database \<Rightarrow> string list \<times> database" where
  "lget key d = list_ref key d"

definition llen :: "string \<Rightarrow> database \<Rightarrow> nat \<times> database" where
  "llen key d = (let (list, d1) = list_ref key d in (length list, d1))"

text \<open>\<open>for (value : values) list.insert(list.begin(), value)\<close>, and at \<open>list.end()\<close>.\<close>

fun insert_front :: "string list \<Rightarrow> string list \<Rightarrow> string list" where
  "insert_front list [] = list"
| "insert_front list (v # vs) = insert_front (v # list) vs"

fun insert_back :: "string list \<Rightarrow> string list \<Rightarrow> string list" where
  "insert_back list [] = list"
| "insert_back list (v # vs) = insert_back (list @ [v]) vs"

definition lpush :: "string \<Rightarrow> string list \<Rightarrow> database \<Rightarrow> int \<times> database" where
  "lpush key vals d =
     (let (list, d1) = list_ref key d; list' = insert_front list vals
      in (to_int32 (int (length list')), list_write key list' d1))"

definition rpush :: "string \<Rightarrow> string list \<Rightarrow> database \<Rightarrow> int \<times> database" where
  "rpush key vals d =
     (let (list, d1) = list_ref key d; list' = insert_back list vals
      in (to_int32 (int (length list')), list_write key list' d1))"

definition lpop :: "string \<Rightarrow> database \<Rightarrow> string \<times> database" where
  "lpop key d =
     (let (list, d1) = list_ref key d in
      case list of [] \<Rightarrow> ([], d1) | v # vs \<Rightarrow> (v, list_write key vs d1))"

definition rpop :: "string \<Rightarrow> database \<Rightarrow> string \<times> database" where
  "rpop key d =
     (let (list, d1) = list_ref key d in
      if list \<noteq> [] then (last list, list_write key (butlast list) d1) else ([], d1))"

text \<open>The iterator loop of \<open>lrem\<close> for a positive count: the argument is the part of the
  vector from the iterator on.\<close>

fun lrem_fwd :: "string \<Rightarrow> string list \<Rightarrow> int \<Rightarrow> string list \<times> int" where
  "lrem_fwd val [] count = ([], 0)"
| "lrem_fwd val (x # xs) count =
     (if 0 < count then
        if x = val then (case lrem_fwd val xs (count - 1) of (ys, removed) \<Rightarrow> (ys, removed + 1))
        else (case lrem_fwd val xs count of (ys, removed) \<Rightarrow> (x # ys, removed))
      else (x # xs, 0))"

text \<open>The index loop for a negative count; the first argument is \<open>i + 1\<close>.\<close>

definition erase_at :: "nat \<Rightarrow> 'a list \<Rightarrow> 'a list" where
  "erase_at i xs = take i xs @ drop (Suc i) xs"

fun lrem_bwd :: "nat \<Rightarrow> string \<Rightarrow> string list \<Rightarrow> int \<Rightarrow> int \<Rightarrow> string list \<times> int" where
  "lrem_bwd 0 val list count removed = (list, removed)"
| "lrem_bwd (Suc i) val list count removed =
     (if 0 < count then
        if list ! i = val then lrem_bwd i val (erase_at i list) (count - 1) (removed + 1)
        else lrem_bwd i val list count removed
      else (list, removed))"

text \<open>The whole operation.  For a count of zero the erasing statement is commented out in
  the source.  \<open>count = -count\<close> overflows for the least \<open>int\<close>.\<close>

definition lrem :: "string \<Rightarrow> int \<Rightarrow> string \<Rightarrow> database \<Rightarrow> (int \<times> database) res" where
  "lrem key count val d =
     (case um_find (list_store d) key of
        None \<Rightarrow> Inr (0, d)
      | Some list \<Rightarrow>
          if count = 0 then
            Inr (to_int32 (to_int32 (int (length list)) - int (length list)), d)
          else if 0 < count then
            (case lrem_fwd val list count of (list', removed) \<Rightarrow>
               Inr (removed, list_write key list' d))
          else if count = INT_MIN then Inl Undefined_Behaviour
          else
            (case lrem_bwd (nat (to_int32 (int (length list) - 1) + 1)) val list (- count) 0 of
               (list', removed) \<Rightarrow> Inr (removed, list_write key list' d)))"

definition lindex :: "string \<Rightarrow> int \<Rightarrow> database \<Rightarrow> string \<times> database" where
  "lindex key index d =
     (let (list, d1) = list_ref key d in
      if index < 0 \<or> length list \<le> size_of_int index then ([], d1)
      else (list ! size_of_int index, d1))"

subsection \<open>References into the list store\<close>

text \<open>The list a key denotes: the stored one, or the empty list.\<close>

definition list_at :: "string \<Rightarrow> database \<Rightarrow> string list" where
  "list_at key d = (case um_find (list_store d) key of Some l \<Rightarrow> l | None \<Rightarrow> [])"

lemma list_ref_fst: "fst (list_ref k d) = list_at k d"
  by (simp add: list_ref_def list_at_def um_index_def split: option.splits)

lemma list_ref_snd: "snd (list_ref k d) = d\<lparr>list_store := snd (um_index [] k (list_store d))\<rparr>"
  by (simp add: list_ref_def split: prod.splits)

lemma list_ref_eq:
  "list_ref k d = (list_at k d, d\<lparr>list_store := snd (um_index [] k (list_store d))\<rparr>)"
  by (metis list_ref_fst list_ref_snd surjective_pairing)

lemma list_at_ref [simp]: "list_at k' (snd (list_ref k d)) = list_at k' d"
  by (simp add: list_at_def list_ref_snd um_find_index split: option.splits)

lemma list_at_write [simp]:
  "list_at k' (list_write k l d) = (if k' = k then l else list_at k' d)"
  by (simp add: list_at_def list_write_def um_find_set)

lemma list_at_index [simp]:
  "list_at k' (d\<lparr>list_store := snd (um_index [] k (list_store d))\<rparr>) = list_at k' d"
  by (simp add: list_at_def um_find_index split: option.splits)

lemma list_write_frame [simp]:
  "kv_store (list_write k l d) = kv_store d" "hash_store (list_write k l d) = hash_store d"
  "expirey_map (list_write k l d) = expirey_map d"
  by (simp_all add: list_write_def)

lemma db_ok_list_ref: "db_ok d \<Longrightarrow> db_ok (snd (list_ref k d))"
  by (simp add: list_ref_snd db_ok_list um_ok_index db_okD)

lemma db_ok_list_write: "db_ok d \<Longrightarrow> db_ok (list_write k l d)"
  by (simp add: list_write_def db_ok_list um_ok_set db_okD)

lemmas list_op_defs = lset_def lget_def llen_def lpush_def rpush_def lpop_def rpop_def lindex_def

lemma db_ok_list_ops:
  assumes "db_ok d"
  shows "db_ok (snd (lset k i v d))" "db_ok (snd (lget k d))" "db_ok (snd (llen k d))"
    "db_ok (snd (lpush k vs d))" "db_ok (snd (rpush k vs d))" "db_ok (snd (lpop k d))"
    "db_ok (snd (rpop k d))" "db_ok (snd (lindex k i d))"
proof -
  have r: "db_ok d1" if "list_ref k d = (l, d1)" for l d1
    using db_ok_list_ref [OF assms, of k] that by simp
  show "db_ok (snd (lset k i v d))" "db_ok (snd (lget k d))" "db_ok (snd (llen k d))"
    "db_ok (snd (lpush k vs d))" "db_ok (snd (rpush k vs d))" "db_ok (snd (lpop k d))"
    "db_ok (snd (rpop k d))" "db_ok (snd (lindex k i d))"
    by (auto simp: list_op_defs Let_def db_ok_list_ref [OF assms] split: prod.splits list.splits
        intro: r db_ok_list_write dest: r)
qed

lemma db_ok_lrem: "db_ok d \<Longrightarrow> lrem k c v d = Inr (n, d') \<Longrightarrow> db_ok d'"
  by (auto simp: lrem_def db_ok_list_write split: option.splits if_splits prod.splits)

subsection \<open>Pushing and popping\<close>

lemma insert_front_eq: "insert_front l vs = rev vs @ l"
  by (induction vs arbitrary: l) auto

lemma insert_back_eq: "insert_back l vs = l @ vs"
  by (induction vs arbitrary: l) auto

lemma lpush_list_at:
  "list_at k' (snd (lpush k vs d)) = (if k' = k then rev vs @ list_at k d else list_at k' d)"
  by (simp add: lpush_def list_ref_eq insert_front_eq)

lemma rpush_list_at:
  "list_at k' (snd (rpush k vs d)) = (if k' = k then list_at k d @ vs else list_at k' d)"
  by (simp add: rpush_def list_ref_eq insert_back_eq)

lemma push_result:
  "fst (lpush k vs d) = to_int32 (int (length (list_at k d) + length vs))"
  "fst (rpush k vs d) = to_int32 (int (length (list_at k d) + length vs))"
  by (simp_all add: lpush_def rpush_def list_ref_eq insert_front_eq insert_back_eq add.commute)

lemma lpop_list_at:
  "list_at k' (snd (lpop k d)) = (if k' = k then tl (list_at k d) else list_at k' d)"
  by (simp add: lpop_def list_ref_eq split: list.splits)

lemma lpop_result: "fst (lpop k d) = (if list_at k d = [] then [] else hd (list_at k d))"
  by (simp add: lpop_def list_ref_eq split: list.splits)

lemma rpop_list_at:
  "list_at k' (snd (rpop k d)) = (if k' = k then butlast (list_at k d) else list_at k' d)"
  by (simp add: rpop_def list_ref_eq)

lemma rpop_result: "fst (rpop k d) = (if list_at k d = [] then [] else last (list_at k d))"
  by (simp add: rpop_def list_ref_eq)

lemma lget_result: "fst (lget k d) = list_at k d"
  by (simp add: lget_def list_ref_fst)

lemma lget_list_at: "list_at k' (snd (lget k d)) = list_at k' d"
  by (simp add: lget_def)

text \<open>A double ended sequence: what a client of the four push and pop operations relies
  on.  Pops report the empty string on an empty sequence.\<close>

locale deque =
  fixes contents :: "'s \<Rightarrow> string list"
    and push_front :: "string list \<Rightarrow> 's \<Rightarrow> 's"
    and push_back :: "string list \<Rightarrow> 's \<Rightarrow> 's"
    and pop_front :: "'s \<Rightarrow> string \<times> 's"
    and pop_back :: "'s \<Rightarrow> string \<times> 's"
  assumes contents_push_front: "contents (push_front vs s) = rev vs @ contents s"
    and contents_push_back: "contents (push_back vs s) = contents s @ vs"
    and pop_front_val: "fst (pop_front s) = (if contents s = [] then [] else hd (contents s))"
    and pop_front_rest: "contents (snd (pop_front s)) = tl (contents s)"
    and pop_back_val: "fst (pop_back s) = (if contents s = [] then [] else last (contents s))"
    and pop_back_rest: "contents (snd (pop_back s)) = butlast (contents s)"
begin

lemma stack_front:
  "fst (pop_front (push_front [v] s)) = v \<and> contents (snd (pop_front (push_front [v] s))) = contents s"
  by (simp add: contents_push_front pop_front_val pop_front_rest)

lemma stack_back:
  "fst (pop_back (push_back [v] s)) = v \<and> contents (snd (pop_back (push_back [v] s))) = contents s"
  by (simp add: contents_push_back pop_back_val pop_back_rest)

text \<open>Draining from the front: the values come out in the order of the contents.\<close>

fun drain :: "nat \<Rightarrow> 's \<Rightarrow> string list" where
  "drain 0 s = []"
| "drain (Suc n) s = (case pop_front s of (v, s') \<Rightarrow> v # drain n s')"

lemma drain_contents: "n \<le> length (contents s) \<Longrightarrow> drain n s = take n (contents s)"
proof (induction n arbitrary: s)
  case (Suc n)
  obtain v s' where p: "pop_front s = (v, s')" by (cases "pop_front s")
  from Suc.prems obtain x xs where c: "contents s = x # xs" by (cases "contents s") auto
  have "v = x" "contents s' = xs"
    using pop_front_val [of s] pop_front_rest [of s] p c by auto
  with Suc p c show ?case by simp
qed simp

text \<open>First in, first out: values pushed at the back of an empty sequence leave from the
  front in the order they were pushed.\<close>

lemma fifo: "contents s = [] \<Longrightarrow> drain (length vs) (push_back vs s) = vs"
  by (simp add: drain_contents contents_push_back)

lemma lifo: "contents s = [] \<Longrightarrow> drain (length vs) (push_front vs s) = rev vs"
  by (simp add: drain_contents contents_push_front)

end

interpretation key_deque:
  deque "list_at k" "\<lambda>vs d. snd (lpush k vs d)" "\<lambda>vs d. snd (rpush k vs d)" "lpop k" "rpop k" for k
  by unfold_locales
    (simp_all add: lpush_list_at rpush_list_at lpop_list_at lpop_result rpop_list_at rpop_result)

subsection \<open>Indexed access\<close>

lemma int_index_check:
  "i \<le> INT_MAX \<Longrightarrow> i < 0 \<or> n \<le> size_of_int i \<longleftrightarrow> \<not> (0 \<le> i \<and> i < int n)"
  by (cases "i < 0") (auto simp: INT_MAX_def nat_less_iff le_nat_iff)

lemma lset_list_at:
  assumes "i \<le> INT_MAX"
  shows "lset k i v d = (if 0 \<le> i \<and> i < int (length (list_at k d))
      then (True, list_write k ((list_at k d)[nat i := v]) (snd (list_ref k d)))
      else (False, snd (list_ref k d)))"
proof -
  have "0 \<le> i \<Longrightarrow> size_of_int i = nat i" using assms by (simp add: INT_MAX_def)
  then show ?thesis
    using int_index_check [OF assms, of "length (list_at k d)"] by (auto simp: lset_def list_ref_eq)
qed

lemma lindex_result:
  assumes "i \<le> INT_MAX"
  shows "fst (lindex k i d) =
     (if 0 \<le> i \<and> i < int (length (list_at k d)) then list_at k d ! nat i else [])"
proof -
  have "0 \<le> i \<Longrightarrow> size_of_int i = nat i" using assms by (simp add: INT_MAX_def)
  then show ?thesis
    using int_index_check [OF assms, of "length (list_at k d)"] by (auto simp: lindex_def list_ref_eq)
qed

lemma lindex_list_at: "list_at k' (snd (lindex k i d)) = list_at k' d"
  by (simp add: lindex_def list_ref_eq Let_def split: prod.splits)

subsection \<open>Properties\<close>

text \<open>A list is a queue and a stack: values pushed at the back of an empty list leave
  from the front in the order they were pushed, values pushed at the front in the
  reverse order.\<close>

theorem list_is_queue_and_stack:
  assumes "list_at k d = []"
  shows "key_deque.drain k (length vs) (snd (rpush k vs d)) = vs
    \<and> key_deque.drain k (length vs) (snd (lpush k vs d)) = rev vs"
  using key_deque.fifo [of k d vs] key_deque.lifo [of k d vs] assms by simp

theorem list_is_queue_and_stack_witness:
  "key_deque.drain ''q'' (length [''a'', ''b'']) (snd (rpush ''q'' [''a'', ''b''] empty_db)) = [''a'', ''b'']"
  using list_is_queue_and_stack [of "''q''" empty_db "[''a'', ''b'']"]
  by (simp add: list_at_def empty_db_def)

text \<open>Indexed access stays inside the list: \<open>LSET\<close> succeeds exactly for an index from 0 to
  below the length, and then changes this position of this list only; \<open>LINDEX\<close> reads
  the position that was set.\<close>

theorem lset_lindex:
  assumes "i \<le> INT_MAX"
  shows "(fst (lset k i v d) \<longleftrightarrow> 0 \<le> i \<and> i < int (length (list_at k d)))
    \<and> list_at k' (snd (lset k i v d)) =
        (if k' = k \<and> 0 \<le> i then (list_at k d)[nat i := v] else list_at k' d)
    \<and> (fst (lset k i v d) \<longrightarrow> fst (lindex k i (snd (lset k i v d))) = v)"
  using assms by (auto simp: lset_list_at lindex_result nat_less_iff not_less list_update_beyond)

theorem lset_lindex_witness:
  "fst (lset ''k'' 1 ''z'' (empty_db\<lparr>list_store := [(''k'', [''a'', ''b''])]\<rparr>))
   \<and> fst (lindex ''k'' 1 (snd (lset ''k'' 1 ''z'' (empty_db\<lparr>list_store := [(''k'', [''a'', ''b''])]\<rparr>)))) = ''z''"
proof -
  let ?d = "empty_db\<lparr>list_store := [(''k'', [''a'', ''b''])]\<rparr>"
  have "(1::int) \<le> INT_MAX" "list_at ''k'' ?d = [''a'', ''b'']"
    by (simp_all add: list_at_def um_find_def INT_MAX_def)
  then show ?thesis using lset_lindex [of 1 "''k''" "''z''" ?d] by simp
qed

end
