(* ===== verification/Db_Lrem.thy ===== *)
theory Db_Lrem
  imports Db_Lists
begin

text \<open>
  Correctness of the two loops of \<open>Database::lrem\<close> against a direct specification:
  \<open>remove_n n v xs\<close> drops the first \<open>n\<close> occurrences of \<open>v\<close>.  The iterator loop computes
  it; the descending index loop, which erases while it walks, computes its mirror image.
\<close>

fun remove_n :: "nat \<Rightarrow> 'a \<Rightarrow> 'a list \<Rightarrow> 'a list" where
  "remove_n 0 v xs = xs"
| "remove_n (Suc n) v [] = []"
| "remove_n (Suc n) v (x # xs) = (if x = v then remove_n n v xs else x # remove_n (Suc n) v xs)"

lemma remove_n_Nil [simp]: "remove_n n v [] = []"
  by (cases n) auto

lemma remove_n_filter: "filter (\<lambda>x. x \<noteq> v) (remove_n n v xs) = filter (\<lambda>x. x \<noteq> v) xs"
  by (induction n v xs rule: remove_n.induct) auto

lemma remove_n_count: "count_list (remove_n n v xs) v = count_list xs v - n"
  by (induction n v xs rule: remove_n.induct) auto

lemma remove_n_length: "length (remove_n n v xs) = length xs - min n (count_list xs v)"
proof (induction n v xs rule: remove_n.induct)
  case (3 n v x xs)
  have "count_list xs v \<le> length xs" by (rule count_le_length)
  with 3 show ?case by (auto simp: Suc_diff_le)
qed auto

lemma remove_n_prefix:
  "\<exists>pre suf. xs = pre @ suf \<and> remove_n n v xs = filter (\<lambda>x. x \<noteq> v) pre @ suf
     \<and> count_list pre v = min n (count_list xs v)"
proof (induction n v xs rule: remove_n.induct)
  case (1 v xs)
  show ?case by (rule exI [of _ "[]"]) simp
next
  case (3 n v x xs)
  show ?case
  proof (cases "x = v")
    case True
    with 3(1) obtain pre suf where "xs = pre @ suf"
      "remove_n n v xs = filter (\<lambda>x. x \<noteq> v) pre @ suf" "count_list pre v = min n (count_list xs v)"
      by blast
    with True show ?thesis by (intro exI [of _ "x # pre"] exI [of _ suf]) simp
  next
    case False
    with 3(2) obtain pre suf where "xs = pre @ suf"
      "remove_n (Suc n) v xs = filter (\<lambda>x. x \<noteq> v) pre @ suf"
      "count_list pre v = min (Suc n) (count_list xs v)"
      by blast
    with False show ?thesis by (intro exI [of _ "x # pre"] exI [of _ suf]) simp
  qed
qed auto

lemma nat_pos_Suc: "0 < c \<Longrightarrow> nat c = Suc (nat (c - 1))"
  by simp

lemma lrem_fwd_eq:
  "lrem_fwd v xs c = (remove_n (nat c) v xs, int (min (nat c) (count_list xs v)))"
proof (induction v xs c rule: lrem_fwd.induct)
  case (2 v x xs c)
  show ?case
  proof (cases "0 < c")
    case True
    then obtain n where n: "nat c = Suc n" "nat (c - 1) = n" using nat_pos_Suc by auto
    with True 2 show ?thesis by auto
  qed simp
qed simp

lemma erase_at_take_drop:
  assumes "i < length xs"
  shows "take i (erase_at i xs) = take i xs" "drop i (erase_at i xs) = drop (Suc i) xs"
    "i \<le> length (erase_at i xs)"
  using assms by (auto simp: erase_at_def)

lemma lrem_bwd_eq:
  "n \<le> length xs \<Longrightarrow> lrem_bwd n v xs c r =
     (rev (remove_n (nat c) v (rev (take n xs))) @ drop n xs,
      r + int (min (nat c) (count_list (take n xs) v)))"
proof (induction n v xs c r rule: lrem_bwd.induct)
  case (2 i v xs c r)
  have i: "i < length xs" using 2(3) by simp
  note t = take_Suc_conv_app_nth [OF i] and d = Cons_nth_drop_Suc [OF i, symmetric]
  show ?case
  proof (cases "0 < c")
    case True
    then obtain n where n: "nat c = Suc n" "nat (c - 1) = n" using nat_pos_Suc by auto
    show ?thesis
    proof (cases "xs ! i = v")
      case eq: True
      have "lrem_bwd i v (erase_at i xs) (c - 1) (r + 1) =
          (rev (remove_n n v (rev (take i xs))) @ drop (Suc i) xs,
           r + 1 + int (min n (count_list (take i xs) v)))"
        using 2(1) [OF True eq erase_at_take_drop(3) [OF i]] by (simp add: n erase_at_take_drop [OF i])
      with True eq show ?thesis by (simp add: n t)
    next
      case neq: False
      then show ?thesis using True 2(2) [OF True neq] i by (simp add: n t d)
    qed
  next
    case False
    then show ?thesis by simp
  qed
qed simp

text \<open>The mirrored removal: the last \<open>n\<close> occurrences.\<close>

definition remove_last_n :: "nat \<Rightarrow> 'a \<Rightarrow> 'a list \<Rightarrow> 'a list" where
  "remove_last_n n v xs = rev (remove_n n v (rev xs))"

lemma count_list_rev_eq: "count_list (rev xs) v = count_list xs v"
  by simp

lemma remove_last_n_count: "count_list (remove_last_n n v xs) v = count_list xs v - n"
  by (simp add: remove_last_n_def remove_n_count)

lemma remove_last_n_filter:
  "filter (\<lambda>x. x \<noteq> v) (remove_last_n n v xs) = filter (\<lambda>x. x \<noteq> v) xs"
  by (simp add: remove_last_n_def rev_filter [symmetric] remove_n_filter)

lemma lrem_missing: "um_find (list_store d) k = None \<Longrightarrow> lrem k c v d = Inr (0, d)"
  by (simp add: lrem_def)

lemma lrem_positive:
  assumes "um_find (list_store d) k = Some l" "0 < c"
  shows "lrem k c v d = Inr (int (min (nat c) (count_list l v)), list_write k (remove_n (nat c) v l) d)"
  using assms by (simp add: lrem_def lrem_fwd_eq)

lemma lrem_negative:
  assumes "um_find (list_store d) k = Some l" "c < 0" "INT_MIN < c" "length l \<le> 2147483648"
  shows "lrem k c v d =
    Inr (int (min (nat (- c)) (count_list l v)), list_write k (remove_last_n (nat (- c)) v l) d)"
proof -
  have "nat (to_int32 (int (length l) - 1) + 1) = length l"
    using assms(4) by simp
  then show ?thesis
    using assms by (simp add: lrem_def lrem_bwd_eq remove_last_n_def)
qed

lemma lrem_zero:
  assumes "um_find (list_store d) k = Some l" "length l < 2147483648"
  shows "lrem k 0 v d = Inr (0, d)"
  using assms by (simp add: lrem_def)

subsection \<open>Properties\<close>

text \<open>C11: \<open>LREM\<close> with a positive count removes the first occurrences of the value, that many
  of them or as many as there are, keeps the order of everything else, and returns how
  many it removed.\<close>

theorem lrem_removes_first:
  assumes "um_find (list_store d) k = Some l" "0 < c"
  shows "lrem k c v d = Inr (int (min (nat c) (count_list l v)), list_write k (remove_n (nat c) v l) d)
    \<and> (\<exists>p s. l = p @ s \<and> remove_n (nat c) v l = filter (\<lambda>x. x \<noteq> v) p @ s
         \<and> count_list p v = min (nat c) (count_list l v))"
  using lrem_positive [OF assms] remove_n_prefix [of l "nat c" v] by blast

theorem lrem_removes_first_witness:
  "lrem ''k'' 1 ''a'' (empty_db\<lparr>list_store := [(''k'', [''b'', ''a'', ''a''])]\<rparr>) =
   Inr (1, empty_db\<lparr>list_store := [(''k'', [''b'', ''a''])]\<rparr>)"
proof -
  let ?d = "empty_db\<lparr>list_store := [(''k'', [''b'', ''a'', ''a''])]\<rparr>"
  have "um_find (list_store ?d) ''k'' = Some [''b'', ''a'', ''a'']" by (simp add: um_find_def)
  from lrem_removes_first [OF this, of 1 "''a''"] show ?thesis
    by (simp add: list_write_def um_set_def)
qed

text \<open>With a negative count it removes the last occurrences in the same way, as long as
  the count is not the least \<open>int\<close> and the list is not longer than an \<open>int\<close> can index.\<close>

theorem lrem_removes_last:
  assumes "um_find (list_store d) k = Some l" "c < 0" "INT_MIN < c" "length l \<le> 2147483648"
  shows "lrem k c v d =
      Inr (int (min (nat (- c)) (count_list l v)), list_write k (rev (remove_n (nat (- c)) v (rev l))) d)
    \<and> filter (\<lambda>x. x \<noteq> v) (rev (remove_n (nat (- c)) v (rev l))) = filter (\<lambda>x. x \<noteq> v) l"
  using lrem_negative [OF assms, of v] remove_last_n_filter [of v "nat (- c)" l]
  by (simp add: remove_last_n_def)

theorem lrem_removes_last_witness:
  "lrem ''k'' (- 1) ''a'' (empty_db\<lparr>list_store := [(''k'', [''a'', ''b'', ''a''])]\<rparr>) =
   Inr (1, empty_db\<lparr>list_store := [(''k'', [''a'', ''b''])]\<rparr>)"
proof -
  let ?d = "empty_db\<lparr>list_store := [(''k'', [''a'', ''b'', ''a''])]\<rparr>"
  have "um_find (list_store ?d) ''k'' = Some [''a'', ''b'', ''a'']" by (simp add: um_find_def)
  from lrem_removes_last [OF this, of "- 1" "''a''"] show ?thesis
    by (simp add: list_write_def um_set_def INT_MIN_def)
qed

end
