(* ===== verification/Db_Hashes.thy ===== *)
theory Db_Hashes
  imports Database
begin

text \<open>
  The hash operations of \<open>src/server/Database.cpp\<close>: a map of maps.  \<open>hset\<close>, \<open>hlen\<close>,
  \<open>hkeys\<close>, \<open>hvals\<close> and \<open>hgetall\<close> go through \<open>hash_store[key]\<close>, which creates an empty
  hash under a missing key; \<open>hget\<close>, \<open>hexists\<close> and \<open>hdel\<close> look the key up first.
\<close>

subsection \<open>Operations\<close>

definition hash_ref :: "string \<Rightarrow> database \<Rightarrow> string umap \<times> database" where
  "hash_ref key d =
     (let (hash, hs) = um_index [] key (hash_store d) in (hash, d\<lparr>hash_store := hs\<rparr>))"

definition hash_write :: "string \<Rightarrow> string umap \<Rightarrow> database \<Rightarrow> database" where
  "hash_write key hash d = d\<lparr>hash_store := um_set key hash (hash_store d)\<rparr>"

definition hset :: "string \<Rightarrow> string \<Rightarrow> string \<Rightarrow> database \<Rightarrow> bool \<times> database" where
  "hset key field val d =
     (let (hash, d1) = hash_ref key d in
      if um_find hash field = None then (True, hash_write key (um_set field val hash) d1)
      else (False, hash_write key (um_set field val hash) d1))"

text \<open>\<open>hget\<close> returns the value and also assigns it to its out parameter, whose value
  before the call is \<open>value0\<close>.\<close>

definition hget :: "string \<Rightarrow> string \<Rightarrow> string \<Rightarrow> database \<Rightarrow> string \<times> string" where
  "hget key field value0 d =
     (case um_find (hash_store d) key of
        None \<Rightarrow> ([], value0)
      | Some hash \<Rightarrow> (case um_find hash field of None \<Rightarrow> ([], value0) | Some v \<Rightarrow> (v, v)))"

definition hexists :: "string \<Rightarrow> string \<Rightarrow> database \<Rightarrow> bool" where
  "hexists key field d =
     (case um_find (hash_store d) key of
        None \<Rightarrow> False | Some hash \<Rightarrow> um_find hash field \<noteq> None)"

definition hdel :: "string \<Rightarrow> string \<Rightarrow> database \<Rightarrow> bool \<times> database" where
  "hdel key field d =
     (case um_find (hash_store d) key of
        None \<Rightarrow> (False, d)
      | Some hash \<Rightarrow> (um_find hash field \<noteq> None, hash_write key (um_erase field hash) d))"

definition hlen :: "string \<Rightarrow> database \<Rightarrow> nat \<times> database" where
  "hlen key d = (let (hash, d1) = hash_ref key d in (length hash, d1))"

definition hkeys :: "string \<Rightarrow> database \<Rightarrow> string list \<times> database" where
  "hkeys key d = (let (hash, d1) = hash_ref key d in (um_keys hash, d1))"

definition hvals :: "string \<Rightarrow> database \<Rightarrow> string list \<times> database" where
  "hvals key d = (let (hash, d1) = hash_ref key d in (um_vals hash, d1))"

definition hgetall :: "string \<Rightarrow> database \<Rightarrow> string umap \<times> database" where
  "hgetall key d =
     (let (hash, d1) = hash_ref key d
      in (foldl (\<lambda>allMap (field, val). um_set field val allMap) [] hash, d1))"

subsection \<open>References into the hash store\<close>

definition hash_at :: "string \<Rightarrow> database \<Rightarrow> string umap" where
  "hash_at key d = (case um_find (hash_store d) key of Some h \<Rightarrow> h | None \<Rightarrow> [])"

definition field_at :: "string \<Rightarrow> string \<Rightarrow> database \<Rightarrow> string option" where
  "field_at key field d = um_find (hash_at key d) field"

lemma hash_ref_eq:
  "hash_ref k d = (hash_at k d, d\<lparr>hash_store := snd (um_index [] k (hash_store d))\<rparr>)"
  by (simp add: hash_ref_def hash_at_def um_index_def split: option.splits)

lemma hash_at_index [simp]:
  "hash_at k' (d\<lparr>hash_store := snd (um_index [] k (hash_store d))\<rparr>) = hash_at k' d"
  by (simp add: hash_at_def um_find_index split: option.splits)

lemma hash_at_write [simp]:
  "hash_at k' (hash_write k h d) = (if k' = k then h else hash_at k' d)"
  by (simp add: hash_at_def hash_write_def um_find_set)

lemma hash_write_frame [simp]:
  "kv_store (hash_write k h d) = kv_store d" "list_store (hash_write k h d) = list_store d"
  "expirey_map (hash_write k h d) = expirey_map d"
  by (simp_all add: hash_write_def)

lemma um_ok_hash_at: "db_ok d \<Longrightarrow> um_ok (hash_at k d)"
  by (auto simp: hash_at_def dest: db_okD split: option.splits)

lemma db_ok_hash_ref:
  assumes "db_ok d"
  shows "db_ok (d\<lparr>hash_store := snd (um_index [] k (hash_store d))\<rparr>)"
proof (rule db_ok_hash [OF assms])
  show "um_ok (snd (um_index [] k (hash_store d)))"
    using assms by (simp add: um_ok_index db_okD)
  fix k' h assume "um_find (snd (um_index [] k (hash_store d))) k' = Some h"
  then show "um_ok h"
    using db_okD(5) [OF assms] by (auto simp: um_find_index split: option.splits if_splits)
qed

lemma db_ok_hash_write:
  assumes "db_ok d" "um_ok h"
  shows "db_ok (hash_write k h d)"
  unfolding hash_write_def
proof (rule db_ok_hash [OF assms(1)])
  show "um_ok (um_set k h (hash_store d))" using assms by (simp add: um_ok_set db_okD)
  fix k' h' assume "um_find (um_set k h (hash_store d)) k' = Some h'"
  then show "um_ok h'"
    using assms db_okD(5) [OF assms(1)] by (auto simp: um_find_set split: if_splits)
qed

lemmas hash_op_defs = hset_def hlen_def hkeys_def hvals_def hgetall_def hdel_def

lemma db_ok_hash_ops:
  assumes "db_ok d"
  shows "db_ok (snd (hset k f v d))" "db_ok (snd (hdel k f d))" "db_ok (snd (hlen k d))"
    "db_ok (snd (hkeys k d))" "db_ok (snd (hvals k d))" "db_ok (snd (hgetall k d))"
  using assms
  by (auto simp: hash_op_defs hash_ref_eq db_ok_hash_ref um_ok_hash_at
      intro!: db_ok_hash_write um_ok_set um_ok_erase dest: db_okD(5) split: option.splits)

subsection \<open>Functional behaviour\<close>

lemma hset_field:
  "field_at k' f' (snd (hset k f v d)) = (if k' = k \<and> f' = f then Some v else field_at k' f' d)"
  by (simp add: field_at_def hset_def hash_ref_eq um_find_set)

lemma hset_result: "fst (hset k f v d) \<longleftrightarrow> field_at k f d = None"
  by (simp add: field_at_def hset_def hash_ref_eq)

lemma hget_field:
  "hget k f v0 d = (case field_at k f d of Some v \<Rightarrow> (v, v) | None \<Rightarrow> ([], v0))"
  by (simp add: hget_def field_at_def hash_at_def split: option.splits)

lemma hexists_field: "hexists k f d \<longleftrightarrow> field_at k f d \<noteq> None"
  by (simp add: hexists_def field_at_def hash_at_def split: option.splits)

lemma hdel_field:
  "field_at k' f' (snd (hdel k f d)) = (if k' = k \<and> f' = f then None else field_at k' f' d)"
  by (auto simp: hdel_def field_at_def hash_at_def hash_write_def um_simps split: option.splits)

lemma hdel_result: "fst (hdel k f d) \<longleftrightarrow> hexists k f d"
  by (simp add: hdel_def hexists_def split: option.splits)

lemma hread_fields:
  "hash_at k' (snd (hlen k d)) = hash_at k' d" "hash_at k' (snd (hkeys k d)) = hash_at k' d"
  "hash_at k' (snd (hvals k d)) = hash_at k' d" "hash_at k' (snd (hgetall k d)) = hash_at k' d"
  by (simp_all add: hlen_def hkeys_def hvals_def hgetall_def hash_ref_eq)

lemma hread_results:
  "fst (hlen k d) = length (hash_at k d)" "fst (hkeys k d) = um_keys (hash_at k d)"
  "fst (hvals k d) = um_vals (hash_at k d)"
  by (simp_all add: hlen_def hkeys_def hvals_def hash_ref_eq)

lemma hgetall_result: "db_ok d \<Longrightarrow> fst (hgetall k d) = hash_at k d"
  using um_set_fold_map [of "[]" "hash_at k d"] um_ok_hash_at
  by (simp add: hgetall_def hash_ref_eq)

text \<open>What \<open>hlen\<close> counts, and what the enumerations hold, in terms of the fields.\<close>

lemma hlen_card: "db_ok d \<Longrightarrow> fst (hlen k d) = card {f. hexists k f d}"
proof -
  assume "db_ok d"
  then have ok: "um_ok (hash_at k d)" by (rule um_ok_hash_at)
  have "{f. hexists k f d} = dom (um_find (hash_at k d))"
    by (auto simp: hexists_field field_at_def)
  then show ?thesis
    using um.keys_card [OF ok] by (simp add: hread_results)
qed

lemma hkeys_set: "set (fst (hkeys k d)) = {f. hexists k f d}"
  by (auto simp: hread_results um_keys_dom hexists_field field_at_def)

lemma hkeys_distinct: "db_ok d \<Longrightarrow> distinct (fst (hkeys k d))"
  by (simp add: hread_results um_ok_distinct um_ok_hash_at)

lemma hgetall_find: "db_ok d \<Longrightarrow> um_find (fst (hgetall k d)) f = field_at k f d"
  by (simp add: hgetall_result field_at_def)

subsection \<open>Property\<close>

text \<open>A hash behaves as a map from fields to values: \<open>HSET\<close> and \<open>HDEL\<close> change exactly one
  field and report whether it was new or present, and after any of them \<open>HLEN\<close> is the
  number of fields \<open>HEXISTS\<close> finds, which are the fields \<open>HKEYS\<close> lists, each once.\<close>

theorem hash_is_a_map:
  assumes "db_ok d" "d' = snd (hset k f v d) \<or> d' = snd (hdel k f d)"
  shows "field_at k' f' (snd (hset k f v d)) = (if k' = k \<and> f' = f then Some v else field_at k' f' d)
    \<and> field_at k' f' (snd (hdel k f d)) = (if k' = k \<and> f' = f then None else field_at k' f' d)
    \<and> (fst (hset k f v d) \<longleftrightarrow> field_at k f d = None) \<and> (fst (hdel k f d) \<longleftrightarrow> field_at k f d \<noteq> None)
    \<and> fst (hlen k' d') = card {g. hexists k' g d'}
    \<and> set (fst (hkeys k' d')) = {g. hexists k' g d'} \<and> distinct (fst (hkeys k' d'))"
proof -
  have "db_ok d'" using assms db_ok_hash_ops [OF assms(1)] by auto
  then show ?thesis
    by (simp add: hset_field hdel_field hset_result hdel_result hexists_field hlen_card hkeys_set
        hkeys_distinct)
qed

theorem hash_is_a_map_witness:
  "fst (hlen ''h'' (snd (hset ''h'' ''f'' ''v'' empty_db))) =
     card {g. hexists ''h'' g (snd (hset ''h'' ''f'' ''v'' empty_db))}"
  using hash_is_a_map [OF db_ok_empty, of _ "''h''" "''f''" "''v''" "''h''" "''f''"] by blast

end
