(* ===== verification/Db_Spec.thy ===== *)
theory Db_Spec
  imports Db_Lrem Db_Hashes "HOL-Library.Multiset"
begin

text \<open>
  What the database promises, stated without containers, references, iterators and index
  arithmetic: the state is four finite maps, and one step of a call is a function on
  them.  The refinement lemma says that every operation of \<open>Database.cpp\<close> computes this
  step under the abstraction \<open>abs_db\<close>, as long as the lengths involved fit an \<open>int\<close>.
  The abstract state knows nothing of an iteration order, so neither the results nor
  the later states can depend on it.
\<close>

subsection \<open>Abstract state and calls\<close>

record store =
  s_kv :: "string \<rightharpoonup> string"
  s_list :: "string \<rightharpoonup> string list"
  s_hash :: "string \<rightharpoonup> (string \<rightharpoonup> string)"
  s_exp :: "string \<rightharpoonup> int"

definition abs_hashes :: "string umap umap \<Rightarrow> string \<rightharpoonup> (string \<rightharpoonup> string)" where
  "abs_hashes m = (\<lambda>k. map_option um_find (um_find m k))"

definition abs_db :: "database \<Rightarrow> store" where
  "abs_db d = \<lparr>s_kv = um_find (kv_store d), s_list = um_find (list_store d),
     s_hash = abs_hashes (hash_store d), s_exp = um_find (expirey_map d)\<rparr>"

datatype db_call =
    FlushAll | Set string string | Get string | Type string | Del string
  | Expire int string string | Rename string string
  | LSet string int string | LGet string | LLen string | LPush string "string list"
  | RPush string "string list" | LPop string | RPop string | LRem string int string
  | LIndex string int
  | HSet string string string | HGet string string | HExists string string
  | HDel string string | HLen string | HKeys string | HVals string | HGetAll string

datatype db_out =
    Out_unit | Out_bool bool | Out_string string | Out_strings "string list" | Out_opt "string option"
  | Out_nat nat | Out_int int | Out_set "string set" | Out_mset "string multiset"
  | Out_map "string \<rightharpoonup> string"

text \<open>The calls on the concrete database, with the results an observer can rely on: of an
  enumeration, its elements.\<close>

definition plain :: "('r \<Rightarrow> db_out) \<Rightarrow> 'r \<times> 'd \<Rightarrow> (db_out \<times> 'd) res" where
  "plain f p = Inr (f (fst p), snd p)"

fun db_step :: "db_call \<Rightarrow> database \<Rightarrow> (db_out \<times> database) res" where
  "db_step FlushAll d = plain Out_bool (flushAll d)"
| "db_step (Set k v) d = Inr (Out_unit, db_set k v d)"
| "db_step (Get k) d = Inr (Out_opt (case db_get k [] d of (b, v) \<Rightarrow> if b then Some v else None), d)"
| "db_step (Type k) d = Inr (Out_string (db_type k d), d)"
| "db_step (Del k) d = plain Out_bool (del k d)"
| "db_step (Expire now k s) d = rbind (expire now k s d) (plain Out_bool)"
| "db_step (Rename a b) d = plain Out_bool (rename a b d)"
| "db_step (LSet k i v) d = plain Out_bool (lset k i v d)"
| "db_step (LGet k) d = plain Out_strings (lget k d)"
| "db_step (LLen k) d = plain Out_nat (llen k d)"
| "db_step (LPush k vs) d = plain Out_int (lpush k vs d)"
| "db_step (RPush k vs) d = plain Out_int (rpush k vs d)"
| "db_step (LPop k) d = plain Out_string (lpop k d)"
| "db_step (RPop k) d = plain Out_string (rpop k d)"
| "db_step (LRem k c v) d = rbind (lrem k c v d) (plain Out_int)"
| "db_step (LIndex k i) d = plain Out_string (lindex k i d)"
| "db_step (HSet k f v) d = plain Out_bool (hset k f v d)"
| "db_step (HGet k f) d = Inr (Out_string (fst (hget k f [] d)), d)"
| "db_step (HExists k f) d = Inr (Out_bool (hexists k f d), d)"
| "db_step (HDel k f) d = plain Out_bool (hdel k f d)"
| "db_step (HLen k) d = plain Out_nat (hlen k d)"
| "db_step (HKeys k) d = plain (\<lambda>ks. Out_set (set ks)) (hkeys k d)"
| "db_step (HVals k) d = plain (\<lambda>vs. Out_mset (mset vs)) (hvals k d)"
| "db_step (HGetAll k) d = plain (\<lambda>m. Out_map (um_find m)) (hgetall k d)"

subsection \<open>Abstract steps\<close>

definition the_list :: "store \<Rightarrow> string \<Rightarrow> string list" where
  "the_list s k = (case s_list s k of Some l \<Rightarrow> l | None \<Rightarrow> [])"

definition the_hash :: "store \<Rightarrow> string \<Rightarrow> string \<rightharpoonup> string" where
  "the_hash s k = (case s_hash s k of Some h \<Rightarrow> h | None \<Rightarrow> Map.empty)"

definition put_list :: "string \<Rightarrow> string list \<Rightarrow> store \<Rightarrow> store" where
  "put_list k l s = s\<lparr>s_list := (s_list s)(k \<mapsto> l)\<rparr>"

definition put_hash :: "string \<Rightarrow> (string \<rightharpoonup> string) \<Rightarrow> store \<Rightarrow> store" where
  "put_hash k h s = s\<lparr>s_hash := (s_hash s)(k \<mapsto> h)\<rparr>"

text \<open>Reading through \<open>store[key]\<close> leaves the key present.\<close>

definition touch_list :: "string \<Rightarrow> store \<Rightarrow> store" where
  "touch_list k s = put_list k (the_list s k) s"

definition touch_hash :: "string \<Rightarrow> store \<Rightarrow> store" where
  "touch_hash k s = put_hash k (the_hash s k) s"

definition move :: "string \<Rightarrow> string \<Rightarrow> (string \<rightharpoonup> 'v) \<Rightarrow> string \<rightharpoonup> 'v" where
  "move a b m = (case m a of None \<Rightarrow> m | Some v \<Rightarrow> m(b \<mapsto> v, a := None))"

definition spec_exists :: "string \<Rightarrow> store \<Rightarrow> bool" where
  "spec_exists k s \<longleftrightarrow> s_kv s k \<noteq> None \<or> s_list s k \<noteq> None \<or> s_hash s k \<noteq> None"

fun spec_step :: "db_call \<Rightarrow> store \<Rightarrow> (db_out \<times> store) res" where
  "spec_step FlushAll s =
     Inr (Out_bool True, s\<lparr>s_kv := Map.empty, s_list := Map.empty, s_hash := Map.empty\<rparr>)"
| "spec_step (Set k v) s = Inr (Out_unit, s\<lparr>s_kv := (s_kv s)(k \<mapsto> v)\<rparr>)"
| "spec_step (Get k) s = Inr (Out_opt (s_kv s k), s)"
| "spec_step (Type k) s =
     Inr (Out_string (if s_kv s k \<noteq> None then ''string'' else if s_list s k \<noteq> None then ''list''
       else if s_hash s k \<noteq> None then ''hash'' else ''none''), s)"
| "spec_step (Del k) s =
     Inr (Out_bool (spec_exists k s), s\<lparr>s_kv := (s_kv s)(k := None),
       s_list := (s_list s)(k := None), s_hash := (s_hash s)(k := None)\<rparr>)"
| "spec_step (Expire now k secs) s =
     (if \<not> spec_exists k s then Inr (Out_bool False, s)
      else rbind (rbind (stoll secs) (time_add_seconds now))
        (\<lambda>t. Inr (Out_bool True, s\<lparr>s_exp := (s_exp s)(k \<mapsto> t)\<rparr>)))"
| "spec_step (Rename a b) s =
     Inr (Out_bool (spec_exists a s \<or> s_exp s a \<noteq> None),
       \<lparr>s_kv = move a b (s_kv s), s_list = move a b (s_list s), s_hash = move a b (s_hash s),
        s_exp = move a b (s_exp s)\<rparr>)"
| "spec_step (LSet k i v) s =
     (if 0 \<le> i \<and> nat i < length (the_list s k)
      then Inr (Out_bool True, put_list k ((the_list s k)[nat i := v]) s)
      else Inr (Out_bool False, touch_list k s))"
| "spec_step (LGet k) s = Inr (Out_strings (the_list s k), touch_list k s)"
| "spec_step (LLen k) s = Inr (Out_nat (length (the_list s k)), touch_list k s)"
| "spec_step (LPush k vs) s = Inr (Out_int (int (length (the_list s k) + length vs)),
     put_list k (rev vs @ the_list s k) s)"
| "spec_step (RPush k vs) s = Inr (Out_int (int (length (the_list s k) + length vs)),
     put_list k (the_list s k @ vs) s)"
| "spec_step (LPop k) s =
     Inr (Out_string (if the_list s k = [] then [] else hd (the_list s k)),
       put_list k (tl (the_list s k)) s)"
| "spec_step (RPop k) s =
     Inr (Out_string (if the_list s k = [] then [] else last (the_list s k)),
       put_list k (butlast (the_list s k)) s)"
| "spec_step (LRem k c v) s =
     (if s_list s k = None \<or> c = 0 then Inr (Out_int 0, s)
      else if c = INT_MIN then Inl Undefined_Behaviour
      else Inr (Out_int (int (min (nat \<bar>c\<bar>) (count_list (the_list s k) v))),
        put_list k ((if 0 < c then remove_n else remove_last_n) (nat \<bar>c\<bar>) v (the_list s k)) s))"
| "spec_step (LIndex k i) s =
     Inr (Out_string (if 0 \<le> i \<and> nat i < length (the_list s k) then the_list s k ! nat i else []),
       touch_list k s)"
| "spec_step (HSet k f v) s =
     Inr (Out_bool (the_hash s k f = None), put_hash k ((the_hash s k)(f \<mapsto> v)) s)"
| "spec_step (HGet k f) s =
     Inr (Out_string (case the_hash s k f of Some v \<Rightarrow> v | None \<Rightarrow> []), s)"
| "spec_step (HExists k f) s = Inr (Out_bool (the_hash s k f \<noteq> None), s)"
| "spec_step (HDel k f) s =
     Inr (Out_bool (the_hash s k f \<noteq> None),
       if s_hash s k = None then s else put_hash k ((the_hash s k)(f := None)) s)"
| "spec_step (HLen k) s = Inr (Out_nat (card (dom (the_hash s k))), touch_hash k s)"
| "spec_step (HKeys k) s = Inr (Out_set (dom (the_hash s k)), touch_hash k s)"
| "spec_step (HVals k) s =
     Inr (Out_mset (image_mset (\<lambda>f. the (the_hash s k f)) (mset_set (dom (the_hash s k)))), touch_hash k s)"
| "spec_step (HGetAll k) s = Inr (Out_map (the_hash s k), touch_hash k s)"

text \<open>The lengths the machine integers of a call must hold.\<close>

fun fits :: "db_call \<Rightarrow> store \<Rightarrow> bool" where
  "fits (LSet k i v) s \<longleftrightarrow> i \<le> INT_MAX"
| "fits (LIndex k i) s \<longleftrightarrow> i \<le> INT_MAX"
| "fits (LPush k vs) s \<longleftrightarrow> int (length (the_list s k) + length vs) \<le> INT_MAX"
| "fits (RPush k vs) s \<longleftrightarrow> int (length (the_list s k) + length vs) \<le> INT_MAX"
| "fits (LRem k c v) s \<longleftrightarrow> int (length (the_list s k)) \<le> INT_MAX \<and> INT_MIN \<le> c"
| "fits _ s \<longleftrightarrow> True"

subsection \<open>Refinement\<close>

lemma abs_sel [simp]:
  "s_kv (abs_db d) = um_find (kv_store d)" "s_list (abs_db d) = um_find (list_store d)"
  "s_hash (abs_db d) = abs_hashes (hash_store d)" "s_exp (abs_db d) = um_find (expirey_map d)"
  by (simp_all add: abs_db_def)

lemma abs_upd [simp]:
  "abs_db (d\<lparr>kv_store := m\<rparr>) = (abs_db d)\<lparr>s_kv := um_find m\<rparr>"
  "abs_db (d\<lparr>list_store := l\<rparr>) = (abs_db d)\<lparr>s_list := um_find l\<rparr>"
  "abs_db (d\<lparr>hash_store := h\<rparr>) = (abs_db d)\<lparr>s_hash := abs_hashes h\<rparr>"
  "abs_db (d\<lparr>expirey_map := x\<rparr>) = (abs_db d)\<lparr>s_exp := um_find x\<rparr>"
  by (simp_all add: abs_db_def)

lemma abs_hashes_set: "abs_hashes (um_set k h m) = (abs_hashes m)(k \<mapsto> um_find h)"
  by (auto simp: abs_hashes_def um_find_set)

lemma abs_hashes_erase: "abs_hashes (um_erase k m) = (abs_hashes m)(k := None)"
  by (auto simp: abs_hashes_def um_find_erase)

lemma abs_hashes_None: "abs_hashes m k = None \<longleftrightarrow> um_find m k = None"
  by (simp add: abs_hashes_def)

lemma um_find_empty: "um_find [] = Map.empty"
  by (rule ext) simp

lemma abs_hashes_empty: "abs_hashes [] = Map.empty"
  by (rule ext) (simp add: abs_hashes_def)

lemma the_list_abs [simp]: "the_list (abs_db d) k = list_at k d"
  by (simp add: the_list_def list_at_def)

lemma the_hash_abs: "the_hash (abs_db d) k = um_find (hash_at k d)"
  by (simp add: the_hash_def hash_at_def abs_hashes_def split: option.splits) (auto simp: um_find_def)

lemma abs_list_write: "abs_db (list_write k l d) = put_list k l (abs_db d)"
  by (simp add: list_write_def put_list_def um_find_set)

lemma abs_hash_write: "abs_db (hash_write k h d) = put_hash k (um_find h) (abs_db d)"
  by (simp add: hash_write_def put_hash_def abs_hashes_set)

lemma abs_list_touch:
  "abs_db (d\<lparr>list_store := snd (um_index [] k (list_store d))\<rparr>) = touch_list k (abs_db d)"
  by (auto simp: touch_list_def put_list_def um_find_index list_at_def fun_upd_idem split: option.splits)

lemma abs_hash_touch:
  "abs_db (d\<lparr>hash_store := snd (um_index [] k (hash_store d))\<rparr>) = touch_hash k (abs_db d)"
proof (cases "um_find (hash_store d) k")
  case None
  then show ?thesis
    by (simp add: touch_hash_def put_hash_def um_index_def abs_hashes_set the_hash_abs hash_at_def)
next
  case (Some h)
  then have "abs_hashes (hash_store d) k = Some (um_find h)" by (simp add: abs_hashes_def)
  with Some show ?thesis
    by (simp add: touch_hash_def put_hash_def um_index_def the_hash_abs hash_at_def fun_upd_idem)
qed

lemma put_touch [simp]: "put_list k l (touch_list k s) = put_list k l s"
    "put_hash k h (touch_hash k s) = put_hash k h s"
  by (simp_all add: touch_list_def put_list_def touch_hash_def put_hash_def)

lemma touch_write_list:
  "abs_db (list_write k l (d\<lparr>list_store := snd (um_index [] k (list_store d))\<rparr>)) = put_list k l (abs_db d)"
  by (simp only: abs_list_write abs_list_touch put_touch)

lemma touch_write_hash:
  "abs_db (hash_write k h (d\<lparr>hash_store := snd (um_index [] k (hash_store d))\<rparr>)) =
     put_hash k (um_find h) (abs_db d)"
  by (simp only: abs_hash_write abs_hash_touch put_touch)

lemma move_abs: "um_find (snd (move_key a b m)) = move a b (um_find m)"
  by (simp add: move_key_find move_def split: option.splits)

lemma move_abs_hashes: "abs_hashes (snd (move_key a b m)) = move a b (abs_hashes m)"
  by (auto simp: move_key_find move_def abs_hashes_def fun_eq_iff split: option.splits)

lemma um_vals_mset:
  assumes "um_ok m"
  shows "mset (um_vals m) = image_mset (\<lambda>f. the (um_find m f)) (mset_set (dom (um_find m)))"
proof -
  have "map snd m = map (\<lambda>f. the (um_find m f)) (map fst m)"
    using um_find_in [OF assms] by (auto simp: um_ok_def)
  moreover have "mset (map fst m) = mset_set (dom (um_find m))"
    using um_ok_distinct [OF assms] um_keys_dom [of m]
    by (metis mset_set_set um_keys_def)
  ultimately show ?thesis by (metis mset_map um_vals_def)
qed

definition abs_res :: "(db_out \<times> database) res \<Rightarrow> (db_out \<times> store) res" where
  "abs_res r = rbind r (\<lambda>(out, d). Inr (out, abs_db d))"

lemma abs_res_simps [simp]:
  "abs_res (Inl e) = Inl e" "abs_res (Inr (out, d)) = Inr (out, abs_db d)"
  "abs_res (plain f p) = Inr (f (fst p), abs_db (snd p))"
  by (simp_all add: abs_res_def plain_def split_beta)

lemmas abs_touches = abs_list_touch [simplified] abs_hash_touch [simplified] touch_write_list
  touch_write_hash

lemma refine_common:
  "abs_res (db_step FlushAll d) = spec_step FlushAll (abs_db d)"
  "abs_res (db_step (Set k v) d) = spec_step (Set k v) (abs_db d)"
  "abs_res (db_step (Get k) d) = spec_step (Get k) (abs_db d)"
  "abs_res (db_step (Type k) d) = spec_step (Type k) (abs_db d)"
  "abs_res (db_step (Del k) d) = spec_step (Del k) (abs_db d)"
  by (simp_all add: flushAll_def db_set_def db_get_def db_type_def del_def spec_exists_def um_has_def
      um_find_set um_find_erase abs_hashes_erase abs_hashes_None abs_hashes_empty um_find_empty
      split: option.splits)

lemma refine_expire: "abs_res (db_step (Expire now k s) d) = spec_step (Expire now k s) (abs_db d)"
  by (cases "stoll s"; cases "time_add_seconds now (projr (stoll s))")
     (auto simp: expire_def db_exists_def spec_exists_def um_has_def abs_hashes_None um_find_set)

lemma refine_rename: "abs_res (db_step (Rename a b) d) = spec_step (Rename a b) (abs_db d)"
  by (auto simp: rename_def split_beta move_abs move_abs_hashes move_key_found spec_exists_def
      um_has_def abs_hashes_None)

lemma refine_list_calls:
  "abs_res (db_step (LGet k) d) = spec_step (LGet k) (abs_db d)"
  "abs_res (db_step (LLen k) d) = spec_step (LLen k) (abs_db d)"
  "abs_res (db_step (LPop k) d) = spec_step (LPop k) (abs_db d)"
  "abs_res (db_step (RPop k) d) = spec_step (RPop k) (abs_db d)"
  by (simp_all add: lget_def llen_def lpop_def rpop_def list_ref_eq abs_touches split: list.splits)
     (simp_all add: touch_list_def)

lemma refine_pushes:
  "fits (LPush k vs) (abs_db d) \<Longrightarrow> abs_res (db_step (LPush k vs) d) = spec_step (LPush k vs) (abs_db d)"
  "fits (RPush k vs) (abs_db d) \<Longrightarrow> abs_res (db_step (RPush k vs) d) = spec_step (RPush k vs) (abs_db d)"
  by (simp_all add: push_result INT_MAX_def del: of_nat_add)
    (simp_all add: lpush_def rpush_def list_ref_eq insert_front_eq insert_back_eq abs_touches)

lemma refine_indexed:
  "fits (LSet k i v) (abs_db d) \<Longrightarrow> abs_res (db_step (LSet k i v) d) = spec_step (LSet k i v) (abs_db d)"
  "fits (LIndex k i) (abs_db d) \<Longrightarrow> abs_res (db_step (LIndex k i) d) = spec_step (LIndex k i) (abs_db d)"
proof -
  show "abs_res (db_step (LSet k i v) d) = spec_step (LSet k i v) (abs_db d)"
    if "fits (LSet k i v) (abs_db d)"
    using that by (auto simp: lset_list_at list_ref_eq abs_touches)
  show "abs_res (db_step (LIndex k i) d) = spec_step (LIndex k i) (abs_db d)"
    if "fits (LIndex k i) (abs_db d)"
  proof -
    have "snd (lindex k i d) = d\<lparr>list_store := snd (um_index [] k (list_store d))\<rparr>"
      by (simp add: lindex_def list_ref_eq)
    then show ?thesis using that by (auto simp: lindex_result abs_touches)
  qed
qed

lemma refine_lrem:
  assumes "fits (LRem k c v) (abs_db d)"
  shows "abs_res (db_step (LRem k c v) d) = spec_step (LRem k c v) (abs_db d)"
proof (cases "um_find (list_store d) k")
  case None
  then show ?thesis by (simp add: lrem_missing)
next
  case (Some l)
  then have l: "list_at k d = l" by (simp add: list_at_def)
  have len: "length l < 2147483648" using assms l by (simp add: INT_MAX_def)
  consider "c = 0" | "0 < c" | "c = INT_MIN" | "INT_MIN < c" "c < 0"
    using assms by fastforce
  then show ?thesis
  proof cases
    case 1
    then show ?thesis using lrem_zero [OF Some len] by simp
  next
    case 2
    then show ?thesis
      using lrem_positive [OF Some, of c v] Some by (simp add: l abs_list_write INT_MIN_def)
  next
    case 3
    then show ?thesis using Some by (simp add: lrem_def INT_MIN_def)
  next
    case 4
    then show ?thesis
      using lrem_negative [OF Some, of c v] len Some by (simp add: l abs_list_write)
  qed
qed

lemma refine_hash_calls:
  assumes "db_ok d"
  shows "abs_res (db_step (HSet k f v) d) = spec_step (HSet k f v) (abs_db d)"
    "abs_res (db_step (HGet k f) d) = spec_step (HGet k f) (abs_db d)"
    "abs_res (db_step (HExists k f) d) = spec_step (HExists k f) (abs_db d)"
    "abs_res (db_step (HLen k) d) = spec_step (HLen k) (abs_db d)"
    "abs_res (db_step (HKeys k) d) = spec_step (HKeys k) (abs_db d)"
    "abs_res (db_step (HVals k) d) = spec_step (HVals k) (abs_db d)"
    "abs_res (db_step (HGetAll k) d) = spec_step (HGetAll k) (abs_db d)"
proof -
  have ok: "um_ok (hash_at k d)" by (rule um_ok_hash_at [OF assms])
  have card: "length (hash_at k d) = card (dom (um_find (hash_at k d)))"
    using um.keys_card [OF ok] by simp
  show "abs_res (db_step (HSet k f v) d) = spec_step (HSet k f v) (abs_db d)"
    "abs_res (db_step (HGet k f) d) = spec_step (HGet k f) (abs_db d)"
    "abs_res (db_step (HExists k f) d) = spec_step (HExists k f) (abs_db d)"
    by (simp_all add: hset_def hash_ref_eq the_hash_abs abs_touches um_find_set hget_field
        hexists_field field_at_def split: option.splits)
  show "abs_res (db_step (HLen k) d) = spec_step (HLen k) (abs_db d)"
    "abs_res (db_step (HKeys k) d) = spec_step (HKeys k) (abs_db d)"
    "abs_res (db_step (HVals k) d) = spec_step (HVals k) (abs_db d)"
    "abs_res (db_step (HGetAll k) d) = spec_step (HGetAll k) (abs_db d)"
    using card um_vals_mset [OF ok] um_keys_dom [of "hash_at k d"] hgetall_result [OF assms, of k]
    by (simp_all add: hlen_def hkeys_def hvals_def hash_ref_eq the_hash_abs abs_touches)
      (simp add: hgetall_def hash_ref_eq abs_touches)
qed

lemma refine_hdel: "abs_res (db_step (HDel k f) d) = spec_step (HDel k f) (abs_db d)"
proof (cases "um_find (hash_store d) k")
  case None
  then show ?thesis by (simp add: hdel_def the_hash_abs hash_at_def abs_hashes_None)
next
  case (Some h)
  then show ?thesis
    by (simp add: hdel_def the_hash_abs hash_at_def abs_hashes_None abs_hash_write um_find_erase)
qed

lemma db_step_refines:
  assumes "db_ok d" "fits c (abs_db d)"
  shows "abs_res (db_step c d) = spec_step c (abs_db d)"
  using assms
  by (cases c) (simp_all only: refine_common refine_expire refine_rename refine_list_calls
      refine_pushes refine_indexed refine_lrem refine_hash_calls refine_hdel)

lemma db_step_ok: "db_ok d \<Longrightarrow> db_step c d = Inr (out, d') \<Longrightarrow> db_ok d'"
  by (cases c) (auto simp: plain_def db_ok_flushAll db_ok_set db_ok_del db_ok_rename db_ok_list_ops
      db_ok_hash_ops dest: db_ok_expire db_ok_lrem)

subsection \<open>Runs\<close>

fun db_run :: "db_call list \<Rightarrow> database \<Rightarrow> (db_out list \<times> database) res" where
  "db_run [] d = Inr ([], d)"
| "db_run (c # cs) d =
     rbind (db_step c d) (\<lambda>(out, d1). rbind (db_run cs d1) (\<lambda>(outs, d2). Inr (out # outs, d2)))"

fun spec_run :: "db_call list \<Rightarrow> store \<Rightarrow> (db_out list \<times> store) res" where
  "spec_run [] s = Inr ([], s)"
| "spec_run (c # cs) s =
     rbind (spec_step c s) (\<lambda>(out, s1). rbind (spec_run cs s1) (\<lambda>(outs, s2). Inr (out # outs, s2)))"

fun run_fits :: "db_call list \<Rightarrow> store \<Rightarrow> bool" where
  "run_fits [] s \<longleftrightarrow> True"
| "run_fits (c # cs) s \<longleftrightarrow> fits c s \<and>
     (case spec_step c s of Inl e \<Rightarrow> True | Inr (out, s1) \<Rightarrow> run_fits cs s1)"

lemma run_refines:
  assumes "db_ok d" "run_fits cs (abs_db d)"
  shows "rbind (db_run cs d) (\<lambda>(outs, d'). Inr (outs, abs_db d')) = spec_run cs (abs_db d)"
  using assms
proof (induction cs arbitrary: d)
  case (Cons c cs)
  have ref: "abs_res (db_step c d) = spec_step c (abs_db d)"
    using Cons.prems by (intro db_step_refines) auto
  show ?case
  proof (cases "db_step c d")
    case (Inl e)
    with ref have "spec_step c (abs_db d) = Inl e" by simp
    with Inl show ?thesis by simp
  next
    case (Inr p)
    obtain out d1 where p: "p = (out, d1)" by (cases p)
    have s: "spec_step c (abs_db d) = Inr (out, abs_db d1)"
      using ref Inr p by simp
    have "rbind (db_run cs d1) (\<lambda>(outs, d'). Inr (outs, abs_db d')) = spec_run cs (abs_db d1)"
      using Cons.prems Inr p s by (intro Cons.IH) (auto intro: db_step_ok)
    then show ?thesis
      using Inr p s by (cases "db_run cs d1"; cases "spec_run cs (abs_db d1)") auto
  qed
qed simp

subsection \<open>Property\<close>



end
