(* ===== verification/Resp_Parser.thy ===== *)
theory Resp_Parser
  imports Cpp_String
begin

text \<open>
  \<open>parseRespCommand\<close> of \<open>src/server/CommandHandler.cpp\<close>: a request is an array of bulk
  strings, or a line of words.  Positions are \<open>size_t\<close>; the announced lengths are \<open>int\<close>
  and are converted to \<open>size_t\<close> where they are added to a position.  \<open>std::stoi\<close> may
  throw, and so may \<open>substr\<close>.
\<close>

subsection \<open>Parsing\<close>

text \<open>The element loop; the first argument is \<open>numElements - i\<close>, zero when the announced
  number is not positive.  A \<open>break\<close> returns the tokens read so far.\<close>

fun resp_elements :: "nat \<Rightarrow> string \<Rightarrow> nat \<Rightarrow> string list \<Rightarrow> string list res" where
  "resp_elements 0 input pos tokens = Inr tokens"
| "resp_elements (Suc k) input pos tokens =
     (if length input \<le> pos \<or> input ! pos \<noteq> CHR ''$'' then Inr tokens
      else
        (let pos1 = pos + 1; crlf = str_find input CRLF pos1 in
         if crlf = npos then Inr tokens
         else rbind (rbind (substr input pos1 (sz_sub crlf pos1)) stoi) (\<lambda>len.
           let pos2 = crlf + 2 in
           if length input < szt (pos2 + size_of_int len) then Inr tokens
           else rbind (substr input pos2 (size_of_int len)) (\<lambda>token.
             if INT_MAX < len + 2 then Inl Undefined_Behaviour
             else resp_elements k input (szt (pos2 + size_of_int (len + 2))) (tokens @ [token])))))"

definition parseRespCommand :: "string \<Rightarrow> string list res" where
  "parseRespCommand input =
     (if input = [] then Inr []
      else if hd input \<noteq> CHR ''*'' then Inr (tokens_of input)
      else
        (let crlf = str_find input CRLF 1 in
         if crlf = npos then Inr []
         else rbind (rbind (substr input 1 (sz_sub crlf 1)) stoi) (\<lambda>numElements.
           resp_elements (nat numElements) input (crlf + 2) [])))"

subsection \<open>The encoding of a command\<close>

definition bulk :: "string \<Rightarrow> string" where
  "bulk s = ''$'' @ show_nat (length s) @ CRLF @ s @ CRLF"

definition resp_array :: "string list \<Rightarrow> string" where
  "resp_array ts = ''*'' @ show_nat (length ts) @ CRLF @ concat (map bulk ts)"

lemma length_CRLF [simp]: "length CRLF = 2"
  by (simp add: CRLF_def)

lemma CRLF_nonempty [simp]: "CRLF \<noteq> []" "hd CRLF = CHR 0x0D"
  by (simp_all add: CRLF_def)

text \<open>One round of the loop that reads an element.\<close>

lemma resp_element_step:
  assumes "pos < length input" "input ! pos = CHR ''$''" "str_find input CRLF (pos + 1) = crlf"
    "crlf \<noteq> npos" "stoi (take (sz_sub crlf (pos + 1)) (drop (pos + 1) input)) = Inr len"
    "szt (crlf + 2 + size_of_int len) \<le> length input" "crlf + 2 \<le> length input"
    "len + 2 \<le> INT_MAX" "take (size_of_int len) (drop (crlf + 2) input) = t"
    "szt (crlf + 2 + size_of_int (len + 2)) = pos'"
  shows "resp_elements (Suc k) input pos ts = resp_elements k input pos' (ts @ [t])"
  using assms by (simp add: Let_def)

text \<open>One element: with the position at a well formed bulk string, the loop appends its
  contents and moves behind it.  What follows is arbitrary.\<close>

lemma resp_element_bulk:
  assumes "length (pre @ bulk s @ rest) \<le> nat INT_MAX"
  shows "resp_elements (Suc k) (pre @ bulk s @ rest) (length pre) ts =
    resp_elements k (pre @ bulk s @ rest) (length (pre @ bulk s)) (ts @ [s])"
proof -
  let ?n = "show_nat (length s)"
  define input where "input = pre @ bulk s @ rest"
  have in1: "input = (pre @ ''$'') @ ?n @ CRLF @ (s @ CRLF @ rest)"
    by (simp add: input_def bulk_def)
  have in2: "input = (pre @ ''$'' @ ?n @ CRLF) @ s @ (CRLF @ rest)"
    by (simp add: input_def bulk_def)
  have len: "length input < 2147483648" using assms by (simp add: input_def INT_MAX_def)
  let ?p1 = "length pre + 1" and ?crlf = "length pre + 1 + length ?n"
  have start: "length pre < length input" "input ! length pre = CHR ''$''"
    by (simp_all add: in1 nth_append)
  have crlf: "str_find input CRLF ?p1 = ?crlf"
    using str_find_crlf [OF show_nat_no_CR, of "pre @ ''$''" "length s"] by (simp add: in1)
  have bounds: "?crlf + 2 + length s + 2 \<le> length input" by (simp add: in1)
  have sub: "sz_sub ?crlf ?p1 = length ?n" using bounds len by (subst sz_sub_id) auto
  have d1: "drop ?p1 input = ?n @ CRLF @ s @ CRLF @ rest"
    using append_eq_conv_conj [of "pre @ ''$''" "?n @ CRLF @ s @ CRLF @ rest" input]
    by (simp add: in1)
  have stoi: "stoi (take (length ?n) (drop ?p1 input)) = Inr (int (length s))"
    unfolding d1 using bounds len by (simp add: stoi_show_nat INT_MAX_def)
  have d2: "drop (?crlf + 2) input = s @ CRLF @ rest"
    using append_eq_conv_conj [of "pre @ ''$'' @ ?n @ CRLF" "s @ CRLF @ rest" input]
    by (simp add: in2 add.commute add.left_commute)
  have npos: "?crlf \<noteq> npos" using bounds len by (simp add: npos_def)
  have ssz: "size_of_int (int (length s)) = length s" using bounds len by simp
  have szt1: "szt (?crlf + 2 + size_of_int (int (length s))) \<le> length input"
    using bounds len by (simp add: ssz)
  have szt2: "szt (?crlf + 2 + size_of_int (int (length s) + 2)) = length (pre @ bulk s)"
    using bounds len by (simp add: bulk_def nat_add_distrib)
  have int: "int (length s) + 2 \<le> INT_MAX" using bounds len by (simp add: INT_MAX_def)
  have tok: "take (size_of_int (int (length s))) (drop (?crlf + 2) input) = s"
    unfolding d2 ssz by simp
  have le: "?crlf + 2 \<le> length input" using bounds by simp
  show ?thesis
    unfolding input_def [symmetric]
    by (rule resp_element_step [OF start crlf npos _ szt1 le int tok szt2]) (simp only: sub stoi)
qed

lemma resp_elements_bulks:
  "length (pre @ concat (map bulk ss) @ rest) \<le> nat INT_MAX \<Longrightarrow>
     resp_elements (length ss) (pre @ concat (map bulk ss) @ rest) (length pre) ts = Inr (ts @ ss)"
proof (induction ss arbitrary: pre ts)
  case (Cons s ss)
  have "resp_elements (Suc (length ss)) (pre @ bulk s @ concat (map bulk ss) @ rest) (length pre) ts =
      resp_elements (length ss) ((pre @ bulk s) @ concat (map bulk ss) @ rest)
        (length (pre @ bulk s)) (ts @ [s])"
    using Cons.prems resp_element_bulk [of pre s "concat (map bulk ss) @ rest" "length ss" ts] by simp
  also have "\<dots> = Inr ((ts @ [s]) @ ss)"
    using Cons.prems by (intro Cons.IH) simp
  finally show ?case by simp
qed simp

lemma concat_bulk_length: "length ss \<le> length (concat (map bulk ss))"
  by (induction ss) (auto simp: bulk_def)

text \<open>The array header.\<close>

lemma parse_header:
  assumes "length (''*'' @ show_nat n @ CRLF @ rest) \<le> nat INT_MAX" "int n \<le> INT_MAX"
  shows "parseRespCommand (''*'' @ show_nat n @ CRLF @ rest) =
    resp_elements n (''*'' @ show_nat n @ CRLF @ rest) (length (''*'' @ show_nat n @ CRLF)) []"
proof -
  define input where "input = ''*'' @ show_nat n @ CRLF @ rest"
  let ?crlf = "1 + length (show_nat n)"
  have len: "length input < 2147483648" using assms by (simp add: input_def INT_MAX_def)
  have ne: "input \<noteq> []" "hd input = CHR ''*''" by (simp_all add: input_def)
  have crlf: "str_find input CRLF 1 = ?crlf"
    using str_find_crlf [OF show_nat_no_CR, of "''*''" n rest] by (simp add: input_def)
  have bound: "?crlf + 2 \<le> length input" by (simp add: input_def)
  have sub: "sz_sub ?crlf 1 = length (show_nat n)" using bound len by (subst sz_sub_id) auto
  have "drop 1 input = show_nat n @ CRLF @ rest" by (simp add: input_def)
  then have "rbind (substr input 1 (length (show_nat n))) stoi = Inr (int n)"
    using bound assms(2) by (simp add: stoi_show_nat)
  then show ?thesis
    unfolding input_def [symmetric] parseRespCommand_def
    using bound len by (simp add: ne crlf sub npos_def Let_def del: One_nat_def) simp
qed

text \<open>Whatever follows the encoding (the client appends one more CRLF, a pipelining client
  its next request) is not looked at.\<close>

lemma parse_resp_array:
  assumes "length (resp_array ts @ rest) \<le> nat INT_MAX"
  shows "parseRespCommand (resp_array ts @ rest) = Inr ts"
proof -
  let ?h = "''*'' @ show_nat (length ts) @ CRLF"
  have eq: "resp_array ts @ rest = ''*'' @ show_nat (length ts) @ CRLF @ concat (map bulk ts) @ rest"
    by (simp add: resp_array_def)
  have "length ts \<le> length (resp_array ts @ rest)"
    using concat_bulk_length [of ts] by (simp add: resp_array_def)
  then have "int (length ts) \<le> INT_MAX" using assms by (simp add: INT_MAX_def)
  then have "parseRespCommand (resp_array ts @ rest) =
      resp_elements (length ts) (?h @ concat (map bulk ts) @ rest) (length ?h) []"
    using parse_header [of "length ts" "concat (map bulk ts) @ rest"] assms by (simp add: eq)
  also have "\<dots> = Inr ts"
    using resp_elements_bulks [of ?h ts rest "[]"] assms by (simp add: eq)
  finally show ?thesis .
qed

subsection \<open>Inline commands\<close>

lemma parse_inline: "input \<noteq> [] \<Longrightarrow> hd input \<noteq> CHR ''*'' \<Longrightarrow> parseRespCommand input = Inr (tokens_of input)"
  by (simp add: parseRespCommand_def)

subsection \<open>Bounds\<close>

lemma resp_elements_Suc_ok:
  "resp_elements (Suc k) input pos ts = Inr us \<Longrightarrow>
     us = ts \<or> (\<exists>pos' t p n. resp_elements k input pos' (ts @ [t]) = Inr us \<and> t = take n (drop p input))"
  by (auto simp: Let_def substr_def split: if_splits) blast

lemma resp_elements_length:
  "resp_elements k input pos ts = Inr us \<Longrightarrow> length us \<le> length ts + k"
proof (induction k arbitrary: pos ts)
  case (Suc k)
  from resp_elements_Suc_ok [OF Suc.prems] show ?case
    by (auto dest: Suc.IH)
qed simp

text \<open>No announced length makes the loop read outside the input: every token is a piece of
  it, also when the length is negative.\<close>

lemma resp_elements_pieces:
  "resp_elements k input pos ts = Inr us \<Longrightarrow> t \<in> set us \<Longrightarrow>
     t \<in> set ts \<or> (\<exists>p n. t = take n (drop p input))"
proof (induction k arbitrary: pos ts)
  case (Suc k)
  from resp_elements_Suc_ok [OF Suc.prems(1)] show ?case
    using Suc.prems(2) by (fastforce dest: Suc.IH)
qed simp

subsection \<open>A length of minus seven\<close>

text \<open>
  A negative length passes the bound check because the sum wraps around.  The token is then
  the whole rest of the input, and the position moves back.  With \<open>$-7\<close> it moves back
  to the same dollar sign, so the loop reads the same element again, as often as the header
  says: a request of a few bytes yields as many tokens as it asks for.
\<close>

lemma resp_elements_minus7:
  assumes "length (pre @ ''$-7'' @ CRLF @ rest) \<le> nat INT_MAX" "2 \<le> length pre"
  shows "resp_elements k (pre @ ''$-7'' @ CRLF @ rest) (length pre) ts = Inr (ts @ replicate k rest)"
proof (induction k arbitrary: ts)
  case (Suc k)
  define input where "input = pre @ ''$-7'' @ CRLF @ rest"
  let ?p = "length pre"
  have len: "length input < 2147483648" using assms by (simp add: input_def INT_MAX_def)
  have bounds: "?p + 5 \<le> length input" by (simp add: input_def)
  have start: "?p < length input" "input ! ?p = CHR ''$''" by (simp_all add: input_def nth_append)
  have crlf: "str_find input CRLF (?p + 1) = ?p + 3"
    using str_find_crlf [of "''-7''" "pre @ ''$''" rest] by (simp add: input_def)
  have sub: "sz_sub (?p + 3) (?p + 1) = 2" using bounds len by (subst sz_sub_id) auto
  have d1: "drop (?p + 1) input = ''-7'' @ CRLF @ rest"
    using append_eq_conv_conj [of "pre @ ''$''" "''-7'' @ CRLF @ rest" input] by (simp add: input_def)
  have stoi7: "stoi ''-7'' = Inr (-7)"
    by (simp add: stoi_def strtol_def isspace_def isdigit_def digit_val_def INT_MIN_def INT_MAX_def)
  have stoi: "stoi (take 2 (drop (?p + 1) input)) = Inr (-7)"
    unfolding d1 using stoi7 by (simp add: numeral_2_eq_2)
  have d2: "drop (?p + 5) input = rest"
    using append_eq_conv_conj [of "pre @ ''$-7'' @ CRLF" rest input] by (simp add: input_def)
  have neg: "size_of_int (-7) = 18446744073709551609" "size_of_int (-5) = 18446744073709551611"
    by (simp_all add: size_of_int_def)
  have szt1: "szt (?p + 3 + 2 + size_of_int (-7)) \<le> length input"
    and szt2: "szt (?p + 3 + 2 + size_of_int (-7 + 2)) = ?p"
    using assms(2) bounds len by (auto simp: szt_def mod_if neg)
  have tok: "take (size_of_int (-7)) (drop (?p + 3 + 2) input) = rest"
    using len by (simp add: d2 neg add.assoc) (simp add: input_def)
  have le: "?p + 3 + 2 \<le> length input" "?p + 3 \<noteq> npos" "(-7::int) + 2 \<le> INT_MAX"
    using bounds len by (auto simp: npos_def INT_MAX_def)
  have "resp_elements (Suc k) input ?p ts = resp_elements k input ?p (ts @ [rest])"
    by (rule resp_element_step [OF start crlf le(2) _ szt1 le(1) le(3) tok szt2]) (simp only: sub stoi)
  then show ?case
    using Suc.IH [of "ts @ [rest]"] by (simp add: input_def replicate_append_same [symmetric])
qed simp

subsection \<open>Properties\<close>

text \<open>C8: The parser recovers the tokens of an encoded request, whatever bytes they hold and
  whatever follows the request in the buffer.\<close>

theorem resp_roundtrip:
  assumes "length (resp_array ts @ rest) \<le> nat INT_MAX"
  shows "parseRespCommand (resp_array ts @ rest) = Inr ts"
  using assms by (rule parse_resp_array)

theorem resp_roundtrip_witness:
  "parseRespCommand (resp_array [''SET'', ''a b'', CRLF] @ ''*1'') = Inr [''SET'', ''a b'', CRLF]"
  by (rule resp_roundtrip) (simp add: resp_array_def bulk_def CRLF_def INT_MAX_def show_nat.simps)

text \<open>One element with the length \<open>-7\<close> is read again and again: the number of tokens is
  what the request announces, however short the request is.\<close>

theorem negative_length_amplifies:
  assumes "length (pre @ ''$-7'' @ CRLF @ rest) \<le> nat INT_MAX" "2 \<le> length pre"
  shows "resp_elements k (pre @ ''$-7'' @ CRLF @ rest) (length pre) ts = Inr (ts @ replicate k rest)"
  using assms by (rule resp_elements_minus7)

theorem negative_length_amplifies_witness:
  "resp_elements 1000 (''*1000'' @ CRLF @ ''$-7'' @ CRLF @ ''x'') 7 [] = Inr (replicate 1000 ''x'')"
proof -
  have "length ((''*1000'' @ CRLF) @ ''$-7'' @ CRLF @ ''x'') \<le> nat INT_MAX" "2 \<le> length (''*1000'' @ CRLF)"
    by (simp_all add: CRLF_def INT_MAX_def)
  moreover have "length (''*1000'' @ CRLF) = 7" by (simp add: CRLF_def)
  ultimately show ?thesis
    using negative_length_amplifies [of "''*1000'' @ CRLF" "''x''" 1000 "[]"] by simp
qed



end
