(* ===== verification/Cpp_Double.thy ===== *)
theory Cpp_Double
  imports Complex_Main Cpp_String
begin

text \<open>
  IEEE 754 binary64 values as the rational numbers they denote, and the rounding \<open>fl\<close> to
  the nearest of them (ties to even) that ends every arithmetic operation.  Infinities
  and NaNs are left out: the latencies, clock readings and percentages the program
  computes stay far inside the range.  Also the fixed-point rendering of
  \<open>std::to_string(double)\<close> and of \<open>std::fixed << std::setprecision(n)\<close>.
\<close>

function ilog2 :: "int \<Rightarrow> int" where
  "ilog2 n = (if n < 2 then 0 else 1 + ilog2 (n div 2))"
  by pat_completeness auto
termination
  by (relation "measure nat") auto

declare ilog2.simps [simp del]

definition pow2 :: "int \<Rightarrow> rat" where
  "pow2 e = (if 0 \<le> e then 2 ^ nat e else inverse (2 ^ nat (- e)))"

text \<open>The \<open>e\<close> with \<open>2^e \<le> x < 2^(e+1)\<close>, for positive \<open>x\<close>.\<close>

definition expo :: "rat \<Rightarrow> int" where
  "expo x = (if 1 \<le> x then ilog2 \<lfloor>x\<rfloor> else - (1 + ilog2 (\<lceil>1 / x\<rceil> - 1)))"

definition round_even :: "rat \<Rightarrow> int" where
  "round_even q =
     (let f = \<lfloor>q\<rfloor>; r = q - of_int f in
      if r < 1 / 2 then f else if 1 / 2 < r then f + 1 else if even f then f else f + 1)"

definition fl :: "rat \<Rightarrow> rat" where
  "fl x =
     (if x = 0 then 0
      else let u = pow2 (max (expo \<bar>x\<bar> - 52) (- 1074)) in of_int (round_even (x / u)) * u)"

text \<open>\<open>std::chrono::duration<double>(d).count()\<close> for a count of nanoseconds.\<close>

definition seconds_of_ns :: "int \<Rightarrow> rat" where
  "seconds_of_ns ns = fl (fl (of_int ns) / 1000000000)"

fun pad_digits :: "nat \<Rightarrow> nat \<Rightarrow> string" where
  "pad_digits 0 n = []"
| "pad_digits (Suc k) n = pad_digits k (n div 10) @ [digit_chr (n mod 10)]"

definition show_fixed :: "nat \<Rightarrow> rat \<Rightarrow> string" where
  "show_fixed n x =
     (let q = nat (round_even (\<bar>x\<bar> * 10 ^ n)) in
      (if x < 0 then ''-'' else []) @ show_nat (q div 10 ^ n) @ ''.'' @ pad_digits n (q mod 10 ^ n))"

lemma round_even_bounds: "of_int (round_even q) \<le> q + 1 / 2" "q - 1 / 2 \<le> of_int (round_even q)"
  by (simp_all add: round_even_def Let_def) linarith+

lemma round_even_nonneg: "0 \<le> q \<Longrightarrow> 0 \<le> round_even q"
  by (auto simp: round_even_def Let_def)

lemma round_even_of_int [simp]: "round_even (of_int i) = i"
  by (simp add: round_even_def)

lemma round_even_mono: "p \<le> q \<Longrightarrow> round_even p \<le> round_even q"
proof -
  assume pq: "p \<le> q"
  show ?thesis
  proof (cases "\<lfloor>p\<rfloor> = \<lfloor>q\<rfloor>")
    case True
    with pq show ?thesis by (auto simp: round_even_def Let_def)
  next
    case False
    with pq have "\<lfloor>p\<rfloor> + 1 \<le> \<lfloor>q\<rfloor>" by (meson add1_zle_eq floor_mono order_le_less)
    moreover have "round_even p \<le> \<lfloor>p\<rfloor> + 1" "\<lfloor>q\<rfloor> \<le> round_even q"
      by (simp_all add: round_even_def Let_def)
    ultimately show ?thesis by linarith
  qed
qed

subsection \<open>Powers of two and the exponent\<close>

lemma pow2_powi: "pow2 e = 2 powi e"
  by (simp add: pow2_def power_int_def power_one_over inverse_eq_divide)

lemma pow2_pos [simp]: "0 < pow2 e"
  by (simp add: pow2_def)

lemma pow2_add: "pow2 (a + b) = pow2 a * pow2 b"
  by (simp add: pow2_powi power_int_add)

lemma pow2_Suc: "pow2 (e + 1) = 2 * pow2 e"
  by (simp add: pow2_add) (simp add: pow2_def)

lemma pow2_minus: "pow2 (- e) = inverse (pow2 e)"
  by (simp add: pow2_powi power_int_minus)

lemma pow2_mono: "a \<le> b \<Longrightarrow> pow2 a \<le> pow2 b"
  by (simp add: pow2_powi power_int_increasing)

lemma pow2_less_D: "pow2 a < pow2 b \<Longrightarrow> a < b"
  using pow2_mono [of b a] by (meson leI not_le)

lemma pow2_nat: "pow2 (int n) = of_int (2 ^ n)"
  by (simp add: pow2_def)

lemma ilog2_nonneg: "0 \<le> ilog2 n"
proof (induction n rule: ilog2.induct)
  case (1 n)
  then show ?case by (subst ilog2.simps) auto
qed

lemma ilog2_bounds:
  "1 \<le> n \<Longrightarrow> pow2 (ilog2 n) \<le> of_int n \<and> of_int n + 1 \<le> pow2 (ilog2 n + 1)"
proof (induction n rule: ilog2.induct)
  case (1 n)
  show ?case
  proof (cases "n < 2")
    case True
    with "1.prems" have "n = 1" by simp
    then show ?thesis by (simp add: ilog2.simps [of 1] pow2_def)
  next
    case False
    let ?k = "n div 2"
    have eq: "ilog2 n = ilog2 ?k + 1" using False by (simp add: ilog2.simps [of n])
    have ih: "pow2 (ilog2 ?k) \<le> of_int ?k" "of_int ?k + 1 \<le> pow2 (ilog2 ?k + 1)"
      using "1.IH" [OF False] False by auto
    have "2 * ?k \<le> n" "n + 1 \<le> 2 * (?k + 1)" by presburger+
    then have "of_int (2 * ?k) \<le> (of_int n :: rat)" "of_int (n + 1) \<le> (of_int (2 * (?k + 1)) :: rat)"
      by (simp_all only: of_int_le_iff)
    then have "2 * of_int ?k \<le> (of_int n :: rat)" "(of_int n :: rat) + 1 \<le> 2 * (of_int ?k + 1)"
      by simp_all
    with ih have "2 * pow2 (ilog2 ?k) \<le> of_int n" "of_int n + 1 \<le> 2 * pow2 (ilog2 ?k + 1)"
      by linarith+
    then show ?thesis by (simp only: eq pow2_Suc)
  qed
qed

lemma expo_bounds:
  assumes "0 < x"
  shows "pow2 (expo x) \<le> x" "x < pow2 (expo x + 1)"
proof -
  have "pow2 (expo x) \<le> x \<and> x < pow2 (expo x + 1)"
  proof (cases "1 \<le> x")
    case True
    then have "1 \<le> \<lfloor>x\<rfloor>" by simp
    from ilog2_bounds [OF this] have "pow2 (ilog2 \<lfloor>x\<rfloor>) \<le> of_int \<lfloor>x\<rfloor>"
      "of_int \<lfloor>x\<rfloor> + 1 \<le> pow2 (ilog2 \<lfloor>x\<rfloor> + 1)" by auto
    moreover have "of_int \<lfloor>x\<rfloor> \<le> x" "x < of_int \<lfloor>x\<rfloor> + 1" by linarith+
    ultimately have "pow2 (ilog2 \<lfloor>x\<rfloor>) \<le> x" "x < pow2 (ilog2 \<lfloor>x\<rfloor> + 1)" by linarith+
    then show ?thesis using True by (simp add: expo_def)
  next
    case False
    define n where "n = \<lceil>1 / x\<rceil> - 1"
    have gt: "1 < 1 / x" using assms False by simp
    then have n: "1 \<le> n" by (simp add: n_def)
    have "of_int n < 1 / x" "1 / x \<le> of_int n + 1" unfolding n_def by linarith+
    with ilog2_bounds [OF n] have b: "pow2 (ilog2 n) < 1 / x" "1 / x \<le> pow2 (ilog2 n + 1)"
      by linarith+
    have "x < inverse (pow2 (ilog2 n))" "inverse (pow2 (ilog2 n + 1)) \<le> x"
      using b assms pow2_pos [of "ilog2 n"] pow2_pos [of "ilog2 n + 1"]
      by (simp_all add: field_simps)
    moreover have "expo x = - (ilog2 n + 1)" "expo x + 1 = - ilog2 n"
      using False by (simp_all add: expo_def n_def)
    ultimately show ?thesis by (simp only: pow2_minus)
  qed
  then show "pow2 (expo x) \<le> x" "x < pow2 (expo x + 1)" by auto
qed

lemma expo_mono: "0 < x \<Longrightarrow> x \<le> y \<Longrightarrow> expo x \<le> expo y"
  using expo_bounds(1) [of x] expo_bounds(2) [of y] pow2_less_D [of "expo x" "expo y + 1"] by simp

subsection \<open>Rounding is monotone and idempotent\<close>

definition ulp_exp :: "rat \<Rightarrow> int" where
  "ulp_exp x = max (expo x - 52) (- 1074)"

lemma fl_pos: "0 < x \<Longrightarrow> fl x = of_int (round_even (x / pow2 (ulp_exp x))) * pow2 (ulp_exp x)"
  by (simp add: fl_def ulp_exp_def Let_def)

lemma fl_zero [simp]: "fl 0 = 0"
  by (simp add: fl_def)

lemma fl_nonneg: "0 \<le> x \<Longrightarrow> 0 \<le> fl x"
  by (simp add: fl_def Let_def round_even_nonneg less_imp_le)

lemma mantissa_bound: "0 < x \<Longrightarrow> round_even (x / pow2 (ulp_exp x)) \<le> 2 ^ 53"
proof -
  assume x: "0 < x"
  have "x < pow2 (expo x + 1)" by (rule expo_bounds(2) [OF x])
  also have "\<dots> \<le> pow2 (53 + ulp_exp x)" by (rule pow2_mono) (simp add: ulp_exp_def)
  also have "\<dots> = pow2 53 * pow2 (ulp_exp x)" by (rule pow2_add)
  finally have "x / pow2 (ulp_exp x) \<le> of_int (2 ^ 53)"
    using pow2_nat [of 53] by (simp add: pos_divide_le_eq)
  from round_even_mono [OF this] show ?thesis by (simp only: round_even_of_int)
qed

lemma fl_mono_pos:
  assumes "0 < x" "x \<le> y"
  shows "fl x \<le> fl y"
proof (cases "ulp_exp x = ulp_exp y")
  case True
  have "x / pow2 (ulp_exp x) \<le> y / pow2 (ulp_exp x)"
    using assms by (simp add: divide_right_mono less_imp_le)
  from round_even_mono [OF this] show ?thesis
    using assms True by (simp add: fl_pos mult_right_mono less_imp_le)
next
  case False
  have y: "0 < y" using assms by simp
  have less: "ulp_exp x < ulp_exp y" using False expo_mono [OF assms] by (auto simp: ulp_exp_def)
  then have uy: "ulp_exp y = expo y - 52" by (auto simp: ulp_exp_def)
  have "fl x \<le> of_int (2 ^ 53) * pow2 (ulp_exp x)"
    unfolding fl_pos [OF assms(1)]
    by (rule mult_right_mono) (simp_all only: of_int_le_iff mantissa_bound [OF assms(1)] less_imp_le pow2_pos)
  also have "\<dots> = pow2 (53 + ulp_exp x)" using pow2_nat [of 53] by (simp add: pow2_add)
  also have "\<dots> \<le> pow2 (52 + ulp_exp y)" using less by (intro pow2_mono) simp
  also have "\<dots> = of_int (2 ^ 52) * pow2 (ulp_exp y)" using pow2_nat [of 52] by (simp add: pow2_add)
  also have "\<dots> \<le> fl y"
    unfolding fl_pos [OF y]
  proof (rule mult_right_mono)
    have "pow2 (52 + ulp_exp y) \<le> y" using expo_bounds(1) [OF y] by (simp add: uy)
    then have "of_int (2 ^ 52) \<le> y / pow2 (ulp_exp y)"
      using pow2_nat [of 52] by (simp add: pow2_add pos_le_divide_eq)
    from round_even_mono [OF this] have "2 ^ 52 \<le> round_even (y / pow2 (ulp_exp y))"
      by (simp only: round_even_of_int)
    then show "of_int (2 ^ 52) \<le> (of_int (round_even (y / pow2 (ulp_exp y))) :: rat)"
      by (simp only: of_int_le_iff)
  qed (simp add: less_imp_le)
  finally show ?thesis .
qed

lemma fl_mono: "0 \<le> x \<Longrightarrow> x \<le> y \<Longrightarrow> fl x \<le> fl y"
  using fl_mono_pos [of x y] fl_nonneg [of y] by (cases "x = 0") auto

text \<open>Every double is its own rounding.\<close>

lemma fl_exact:
  assumes "0 \<le> m" "m \<le> 2 ^ 53" "- 1074 \<le> e"
  shows "fl (of_int m * pow2 e) = of_int m * pow2 e"
proof (cases "m = 0")
  case False
  define x where "x = of_int m * pow2 e"
  have x: "0 < x" using False assms by (simp add: x_def)
  have "\<exists>i. x = of_int i * pow2 (ulp_exp x)"
  proof (cases "ulp_exp x \<le> e")
    case True
    then have "pow2 e = of_int (2 ^ nat (e - ulp_exp x)) * pow2 (ulp_exp x)"
      using pow2_add [of "int (nat (e - ulp_exp x))" "ulp_exp x"] by (simp only: pow2_nat) simp
    then have "x = of_int (m * 2 ^ nat (e - ulp_exp x)) * pow2 (ulp_exp x)" by (simp add: x_def)
    then show ?thesis by blast
  next
    case False
    have le: "x \<le> pow2 (53 + e)"
      using assms pow2_nat [of 53] unfolding x_def pow2_add
      by (intro mult_right_mono) (simp_all only: of_int_le_iff of_nat_numeral less_imp_le pow2_pos)
    with expo_bounds(1) [OF x] have "expo x \<le> 53 + e"
      using pow2_less_D [of "expo x" "53 + e + 1"] pow2_Suc [of "53 + e"] pow2_pos [of "53 + e"] by linarith
    with False assms have "expo x = 53 + e" "ulp_exp x = e + 1" by (auto simp: ulp_exp_def)
    with le expo_bounds(1) [OF x] have "x = pow2 (52 + ulp_exp x)" by (simp add: add.commute)
    then have "x = of_int (2 ^ 52) * pow2 (ulp_exp x)" using pow2_nat [of 52] by (simp add: pow2_add)
    then show ?thesis by blast
  qed
  then obtain i where i: "x = of_int i * pow2 (ulp_exp x)" by blast
  then have "x / pow2 (ulp_exp x) = of_int i"
    by (metis nonzero_mult_div_cancel_right order_less_irrefl pow2_pos)
  then have "fl x = x" using i fl_pos [OF x] by simp
  then show ?thesis by (simp add: x_def)
qed simp

lemma fl_idem: "0 \<le> x \<Longrightarrow> fl (fl x) = fl x"
proof (cases "x = 0")
  case False
  assume "0 \<le> x"
  with False have x: "0 < x" by simp
  have "0 \<le> round_even (x / pow2 (ulp_exp x))"
    using x by (simp add: round_even_nonneg less_imp_le)
  then show ?thesis
    unfolding fl_pos [OF x] by (rule fl_exact [OF _ mantissa_bound [OF x]]) (simp add: ulp_exp_def)
qed simp

text \<open>Adding a non-negative amount to a double never lowers it.\<close>

lemma fl_add_ge: "0 \<le> x \<Longrightarrow> 0 \<le> d \<Longrightarrow> fl x \<le> fl (fl x + d)"
  using fl_mono [of "fl x" "fl x + d"] fl_nonneg [of x] fl_idem [of x] by simp

subsection \<open>Fixed-point digits\<close>

lemma length_pad_digits [simp]: "length (pad_digits k n) = k"
  by (induction k arbitrary: n) auto

lemma pad_digits_isdigit: "\<forall>c \<in> set (pad_digits k n). isdigit c"
  by (induction k arbitrary: n) auto

lemma read_pad_digits: "n < 10 ^ k \<Longrightarrow> read_digits 0 (pad_digits k n) = n"
proof (induction k arbitrary: n)
  case (Suc k)
  then have "n div 10 < 10 ^ k" by (simp add: less_mult_imp_div_less mult.commute)
  with Suc.IH show ?case by (simp add: read_digits_append)
qed simp

end
