(* ===== verification/Metrics.thy ===== *)
theory Metrics
  imports Cpp_Double Unordered_Map
begin

text \<open>
  The metrics of \<open>include/Metrics.h\<close> and \<open>src/utils/Metrics.cpp\<close>: counters, the latency
  histograms and the Prometheus text.  The atomic counters are words of their width
  (\<open>int\<close> 32, \<open>size_t\<close> 64 bits).  The operating system's answers (process times, the
  clock, \<open>/proc/self/status\<close>) are inputs of the functions that ask for them.
\<close>

subsection \<open>State\<close>

definition BUCKET_COUNT :: nat where "BUCKET_COUNT = 14"

record latency_stats =
  ls_count :: "64 word"
  sum_seconds :: rat
  buckets :: "64 word list"

definition no_latency :: latency_stats where
  "no_latency = \<lparr>ls_count = 0, sum_seconds = 0, buckets = replicate BUCKET_COUNT 0\<rparr>"

record metrics =
  latency_by_command :: "latency_stats umap"
  lastCpuSeconds :: rat
  lastWallSeconds :: rat
  totalSuccessCommands :: "32 word"
  totalFailureComands :: "32 word"
  clients :: "32 word"
  read_commands_total :: "64 word"
  write_commands_total :: "64 word"

definition no_metrics :: metrics where
  "no_metrics = \<lparr>latency_by_command = [], lastCpuSeconds = 0, lastWallSeconds = 0,
     totalSuccessCommands = 0, totalFailureComands = 0, clients = 0,
     read_commands_total = 0, write_commands_total = 0\<rparr>"

subsection \<open>Buckets\<close>

text \<open>The limits are the doubles nearest to the decimal literals.\<close>

definition BUCKET_LIMITS :: "rat list" where
  "BUCKET_LIMITS = map fl
     [5 / 10000000, 1 / 1000000, 25 / 10000000, 5 / 1000000, 1 / 100000, 25 / 1000000,
      5 / 100000, 1 / 10000, 25 / 100000, 5 / 10000, 1 / 1000, 5 / 1000, 25 / 1000, 1 / 10]"

definition BUCKET_LABELS :: "string list" where
  "BUCKET_LABELS =
     [''0.0000005'', ''0.000001'', ''0.0000025'', ''0.000005'', ''0.00001'', ''0.000025'',
      ''0.00005'', ''0.0001'', ''0.00025'', ''0.0005'', ''0.001'', ''0.005'', ''0.025'', ''0.1'']"

definition observeLatency :: "rat \<Rightarrow> latency_stats \<Rightarrow> latency_stats" where
  "observeLatency durationSeconds stats =
     stats\<lparr>ls_count := ls_count stats + 1,
           sum_seconds := fl (sum_seconds stats + durationSeconds),
           buckets := map2 (\<lambda>limit b. if durationSeconds \<le> limit then b + 1 else b)
             BUCKET_LIMITS (buckets stats)\<rparr>"

subsection \<open>Counters\<close>

datatype command_kind = Read | Write | Other

definition readCommands :: "string list" where
  "readCommands =
     [''PING'', ''ECHO'', ''GET'', ''KEYS'', ''TYPE'', ''LGET'', ''LLEN'', ''LINDEX'',
      ''HGET'', ''HEXISTS'', ''HLEN'', ''HKEYS'', ''HVALS'', ''HGETALL'']"

definition writeCommands :: "string list" where
  "writeCommands =
     [''FLUSHALL'', ''SET'', ''DEL'', ''UNLINK'', ''EXPIRE'', ''RENAME'', ''LSET'', ''LPUSH'',
      ''RPUSH'', ''LPOP'', ''RPOP'', ''LREM'', ''HSET'', ''HDEL'', ''HMSET'']"

definition classifyCommand :: "string \<Rightarrow> command_kind" where
  "classifyCommand command =
     (if command \<in> set readCommands then Read
      else if command \<in> set writeCommands then Write else Other)"

definition recordReadWrite :: "string \<Rightarrow> metrics \<Rightarrow> metrics" where
  "recordReadWrite command m =
     (case classifyCommand command of
        Read \<Rightarrow> m\<lparr>read_commands_total := read_commands_total m + 1\<rparr>
      | Write \<Rightarrow> m\<lparr>write_commands_total := write_commands_total m + 1\<rparr>
      | Other \<Rightarrow> m)"

definition incrementSuccessfullCommand :: "string \<Rightarrow> metrics \<Rightarrow> metrics" where
  "incrementSuccessfullCommand command m =
     (let m1 = recordReadWrite command m
      in m1\<lparr>totalSuccessCommands := totalSuccessCommands m1 + 1\<rparr>)"

definition incrementFailureCommand :: "string \<Rightarrow> metrics \<Rightarrow> metrics" where
  "incrementFailureCommand command m =
     (let m1 = recordReadWrite command m
      in m1\<lparr>totalFailureComands := totalFailureComands m1 + 1\<rparr>)"

definition addClient :: "metrics \<Rightarrow> metrics" where
  "addClient m = m\<lparr>clients := clients m + 1\<rparr>"

definition removeClient :: "metrics \<Rightarrow> metrics" where
  "removeClient m = m\<lparr>clients := clients m - 1\<rparr>"

definition recordCommandLatency :: "string \<Rightarrow> rat \<Rightarrow> metrics \<Rightarrow> metrics" where
  "recordCommandLatency command durationSeconds m =
     (if command = [] then m
      else let (stats, lm) = um_index no_latency command (latency_by_command m)
        in m\<lparr>latency_by_command := um_set command (observeLatency durationSeconds stats) lm\<rparr>)"

subsection \<open>Process readings\<close>

text \<open>\<open>is >> n\<close> for a \<open>size_t\<close>: 0 when no number is read, the greatest value on overflow,
  a minus sign negates modulo the width.\<close>

definition read_size :: "string \<Rightarrow> nat" where
  "read_size s =
     (case strtol s of
        None \<Rightarrow> 0
      | Some v \<Rightarrow> if 18446744073709551616 \<le> \<bar>v\<bar> then npos else size_of_int v)"

fun find_rss :: "string list \<Rightarrow> nat" where
  "find_rss [] = 0"
| "find_rss (line # ls) =
     (if take 6 line = ''VmRSS:'' then
        (case next_token line of None \<Rightarrow> 0 | Some (key, rest) \<Rightarrow> read_size rest)
      else find_rss ls)"

text \<open>\<open>None\<close>: the file could not be opened, so the first \<open>getline\<close> fails.\<close>

definition getMemoryUsageKB :: "string option \<Rightarrow> nat" where
  "getMemoryUsageKB status = (case status of None \<Rightarrow> 0 | Some text \<Rightarrow> find_rss (getlines text))"

record cpu_reading =
  utime_sec :: int
  utime_usec :: int
  stime_sec :: int
  stime_usec :: int
  wall_ns :: int

definition cpu_now :: "cpu_reading \<Rightarrow> rat" where
  "cpu_now r =
     fl (fl (fl (of_int (utime_sec r) + fl (of_int (utime_usec r) / 1000000)) + of_int (stime_sec r))
       + fl (of_int (stime_usec r) / 1000000))"

definition getCpuUsagePercent :: "cpu_reading \<Rightarrow> metrics \<Rightarrow> rat \<times> metrics" where
  "getCpuUsagePercent r m =
     (let cpuNow = cpu_now r; wallNow = seconds_of_ns (wall_ns r);
          m1 = m\<lparr>lastCpuSeconds := cpuNow, lastWallSeconds := wallNow\<rparr> in
      if lastWallSeconds m = 0 then (0, m1)
      else let cpuDelta = fl (cpuNow - lastCpuSeconds m);
               wallDelta = fl (wallNow - lastWallSeconds m)
        in if wallDelta \<le> 0 then (0, m1) else (fl (fl (cpuDelta / wallDelta) * 100), m1))"

subsection \<open>Prometheus text\<close>

definition dquote :: string where "dquote = [CHR 0x22]"

definition show_size :: "64 word \<Rightarrow> string" where "show_size w = show_nat (unat w)"

definition show_i32 :: "32 word \<Rightarrow> string" where "show_i32 w = show_int (sint w)"

definition bucket_line :: "string \<Rightarrow> string \<Rightarrow> 64 word \<Rightarrow> string" where
  "bucket_line command label n =
     ''fluxendb_command_duration_seconds_bucket{command='' @ dquote @ command @ dquote @ '',le=''
     @ dquote @ label @ dquote @ ''} '' @ show_size n @ [LF]"

definition appendHistogram :: "string \<Rightarrow> latency_stats \<Rightarrow> string" where
  "appendHistogram command stats =
     concat (map2 (bucket_line command) BUCKET_LABELS (buckets stats))
     @ bucket_line command ''+Inf'' (ls_count stats)
     @ ''fluxendb_command_duration_seconds_sum{command='' @ dquote @ command @ dquote @ ''} ''
     @ show_fixed 9 (sum_seconds stats) @ [LF]
     @ ''fluxendb_command_duration_seconds_count{command='' @ dquote @ command @ dquote @ ''} ''
     @ show_size (ls_count stats) @ [LF]"

definition metric_block :: "string \<Rightarrow> string \<Rightarrow> string \<Rightarrow> string \<Rightarrow> string" where
  "metric_block name help kind val =
     ''# HELP '' @ name @ '' '' @ help @ [LF] @ ''# TYPE '' @ name @ '' '' @ kind @ [LF]
     @ name @ '' '' @ val @ [LF]"

text \<open>The sum of the two totals is a signed 32-bit addition.\<close>

definition add_i32 :: "32 word \<Rightarrow> 32 word \<Rightarrow> int res" where
  "add_i32 a b =
     (if INT_MIN \<le> sint a + sint b \<and> sint a + sint b \<le> INT_MAX
      then Inr (sint a + sint b) else Inl Undefined_Behaviour)"

definition exportMetrics :: "string option \<Rightarrow> cpu_reading \<Rightarrow> metrics \<Rightarrow> (string \<times> metrics) res" where
  "exportMetrics status reading m =
     rbind (add_i32 (totalFailureComands m) (totalSuccessCommands m)) (\<lambda>total.
       let (cpu, m1) = getCpuUsagePercent reading m in
       Inr (metric_block ''fluxendb_commands_failure_total'' ''Total failed commands'' ''counter''
              (show_i32 (totalFailureComands m))
          @ metric_block ''fluxendb_commands_success_total'' ''Total successful commands'' ''counter''
              (show_i32 (totalSuccessCommands m))
          @ metric_block ''fluxendb_commands_total'' ''Total number of commands processed'' ''counter''
              (show_int total)
          @ metric_block ''fluxendb_connected_clients'' ''Current number of connected clients'' ''gauge''
              (show_i32 (clients m))
          @ metric_block ''fluxendb_memory_usage'' ''Process memory usage in KB'' ''gauge''
              (show_nat (getMemoryUsageKB status))
          @ metric_block ''fluxendb_cpu_usage'' ''Process CPU usage in percentage'' ''gauge''
              (show_fixed 6 cpu)
          @ [LF]
          @ metric_block ''fluxendb_read_commands_total'' ''Total read commands processed'' ''counter''
              (show_size (read_commands_total m))
          @ metric_block ''fluxendb_write_commands_total'' ''Total write commands processed'' ''counter''
              (show_size (write_commands_total m))
          @ ''# HELP fluxendb_command_duration_seconds Command latency histogram per command'' @ [LF]
          @ ''# TYPE fluxendb_command_duration_seconds histogram'' @ [LF]
          @ concat (map (\<lambda>(command, stats). appendHistogram command stats) (latency_by_command m1)),
        m1))"

subsection \<open>The histogram is exact and cumulative\<close>

lemma length_BUCKET_LIMITS [simp]: "length BUCKET_LIMITS = BUCKET_COUNT"
  by (simp add: BUCKET_LIMITS_def BUCKET_COUNT_def)

lemma length_BUCKET_LABELS [simp]: "length BUCKET_LABELS = BUCKET_COUNT"
  by (simp add: BUCKET_LABELS_def BUCKET_COUNT_def)

lemma sorted_BUCKET_LIMITS: "sorted BUCKET_LIMITS"
  by (simp add: BUCKET_LIMITS_def fl_mono)

definition observe_all :: "rat list \<Rightarrow> latency_stats \<Rightarrow> latency_stats" where
  "observe_all ds stats = foldl (\<lambda>s d. observeLatency d s) stats ds"

lemma observe_all_simps [simp]:
  "observe_all [] s = s" "observe_all (d # ds) s = observe_all ds (observeLatency d s)"
  by (simp_all add: observe_all_def)

lemma length_buckets_observe:
  "length (buckets s) = BUCKET_COUNT \<Longrightarrow> length (buckets (observe_all ds s)) = BUCKET_COUNT"
  by (induction ds arbitrary: s) (auto simp: observeLatency_def)

lemma observe_all_count: "ls_count (observe_all ds s) = ls_count s + of_nat (length ds)"
  by (induction ds arbitrary: s) (auto simp: observeLatency_def algebra_simps)

lemma observe_all_bucket:
  assumes "i < BUCKET_COUNT" "length (buckets s) = BUCKET_COUNT"
  shows "buckets (observe_all ds s) ! i =
    buckets s ! i + of_nat (length (filter (\<lambda>d. d \<le> BUCKET_LIMITS ! i) ds))"
  using assms(2)
proof (induction ds arbitrary: s)
  case (Cons d ds)
  have "length (buckets (observeLatency d s)) = BUCKET_COUNT"
    using Cons.prems by (simp add: observeLatency_def)
  from Cons.IH [OF this] show ?case
    using assms(1) Cons.prems by (simp add: observeLatency_def algebra_simps)
qed simp

lemma no_latency_buckets [simp]: "length (buckets no_latency) = BUCKET_COUNT"
    "i < BUCKET_COUNT \<Longrightarrow> buckets no_latency ! i = 0" "ls_count no_latency = 0"
  by (simp_all add: no_latency_def)

lemma unat_of_nat64: "n < 18446744073709551616 \<Longrightarrow> unat (of_nat n :: 64 word) = n"
  by (simp add: unat_of_nat)

lemma histogram_exact:
  assumes "length ds < 18446744073709551616" "i < BUCKET_COUNT"
  shows "unat (ls_count (observe_all ds no_latency)) = length ds"
    "unat (buckets (observe_all ds no_latency) ! i) = length (filter (\<lambda>d. d \<le> BUCKET_LIMITS ! i) ds)"
proof -
  have "length (filter (\<lambda>d. d \<le> BUCKET_LIMITS ! i) ds) < 18446744073709551616"
    using assms(1) le_less_trans [OF length_filter_le] by blast
  then show "unat (ls_count (observe_all ds no_latency)) = length ds"
    "unat (buckets (observe_all ds no_latency) ! i) = length (filter (\<lambda>d. d \<le> BUCKET_LIMITS ! i) ds)"
    using assms by (simp_all add: observe_all_count observe_all_bucket unat_of_nat64)
qed

lemma filter_length_mono:
  "(\<And>x. P x \<Longrightarrow> Q x) \<Longrightarrow> length (filter P xs) \<le> length (filter Q xs)"
  by (induction xs) auto

lemma histogram_cumulative:
  assumes "length ds < 18446744073709551616" "i \<le> j" "j < BUCKET_COUNT"
  shows "unat (buckets (observe_all ds no_latency) ! i) \<le> unat (buckets (observe_all ds no_latency) ! j)"
    "unat (buckets (observe_all ds no_latency) ! j) \<le> unat (ls_count (observe_all ds no_latency))"
proof -
  have le: "BUCKET_LIMITS ! i \<le> BUCKET_LIMITS ! j"
    using sorted_BUCKET_LIMITS assms by (intro sorted_nth_mono) auto
  show "unat (buckets (observe_all ds no_latency) ! i) \<le> unat (buckets (observe_all ds no_latency) ! j)"
    using assms le by (simp add: histogram_exact filter_length_mono order_trans)
  show "unat (buckets (observe_all ds no_latency) ! j) \<le> unat (ls_count (observe_all ds no_latency))"
    using assms by (simp add: histogram_exact)
qed

text \<open>The sum of the latencies is a double, and non-negative durations never lower it.\<close>

lemma sum_seconds_double:
  assumes "fl (sum_seconds s) = sum_seconds s" "0 \<le> sum_seconds s" "0 \<le> d"
  shows "sum_seconds s \<le> sum_seconds (observeLatency d s)"
    "fl (sum_seconds (observeLatency d s)) = sum_seconds (observeLatency d s)"
  using assms fl_add_ge [of "sum_seconds s" d] fl_idem [of "sum_seconds s + d"]
  by (simp_all add: observeLatency_def)

lemma sum_seconds_grows:
  assumes "fl (sum_seconds s) = sum_seconds s" "0 \<le> sum_seconds s" "\<forall>d \<in> set ds. 0 \<le> d"
  shows "sum_seconds s \<le> sum_seconds (observe_all ds s)"
  using assms
proof (induction ds arbitrary: s)
  case (Cons d ds)
  have d: "0 \<le> d" using Cons.prems by simp
  note sd = sum_seconds_double [OF Cons.prems(1,2) d]
  have "sum_seconds (observeLatency d s) \<le> sum_seconds (observe_all ds (observeLatency d s))"
    using Cons.prems sd by (intro Cons.IH) auto
  with sd show ?case by simp
qed simp

subsection \<open>Counting\<close>

lemma counters_frame [simp]:
  "clients (recordReadWrite c m) = clients m"
  "totalSuccessCommands (recordReadWrite c m) = totalSuccessCommands m"
  "totalFailureComands (recordReadWrite c m) = totalFailureComands m"
  "latency_by_command (recordReadWrite c m) = latency_by_command m"
  by (simp_all add: recordReadWrite_def split: command_kind.split)

lemma kinds_disjoint: "set readCommands \<inter> set writeCommands = {}"
  by (simp add: readCommands_def writeCommands_def)

lemma increments:
  "totalSuccessCommands (incrementSuccessfullCommand c m) = totalSuccessCommands m + 1"
  "totalFailureComands (incrementSuccessfullCommand c m) = totalFailureComands m"
  "totalSuccessCommands (incrementFailureCommand c m) = totalSuccessCommands m"
  "totalFailureComands (incrementFailureCommand c m) = totalFailureComands m + 1"
  "clients (incrementSuccessfullCommand c m) = clients m"
  "clients (incrementFailureCommand c m) = clients m"
  by (simp_all add: incrementSuccessfullCommand_def incrementFailureCommand_def Let_def)

lemma latency_frame [simp]:
  "clients (recordCommandLatency c d m) = clients m"
  "totalSuccessCommands (recordCommandLatency c d m) = totalSuccessCommands m"
  "totalFailureComands (recordCommandLatency c d m) = totalFailureComands m"
  "read_commands_total (recordCommandLatency c d m) = read_commands_total m"
  "write_commands_total (recordCommandLatency c d m) = write_commands_total m"
  by (simp_all add: recordCommandLatency_def split_beta)

text \<open>The statistics of a command, as the map's index operator reads them.\<close>

definition stats_of :: "string \<Rightarrow> metrics \<Rightarrow> latency_stats" where
  "stats_of c m = (case um_find (latency_by_command m) c of Some s \<Rightarrow> s | None \<Rightarrow> no_latency)"

lemma stats_of_record:
  "stats_of c' (recordCommandLatency c d m) =
     (if c' = c \<and> c \<noteq> [] then observeLatency d (stats_of c m) else stats_of c' m)"
  by (auto simp: stats_of_def recordCommandLatency_def um_index_def um_find_set split: option.splits)

subsection \<open>Properties\<close>

text \<open>C16: After fewer than \<open>2^64\<close> observations a histogram holds, in each bucket, exactly the
  number of durations that do not exceed the bucket's limit, and in its count the number
  of all; so the buckets are cumulative.\<close>

theorem histogram_counts:
  assumes "length ds < 18446744073709551616" "i \<le> j" "j < BUCKET_COUNT"
  shows "unat (buckets (observe_all ds no_latency) ! i) = length (filter (\<lambda>d. d \<le> BUCKET_LIMITS ! i) ds)
    \<and> unat (buckets (observe_all ds no_latency) ! i) \<le> unat (buckets (observe_all ds no_latency) ! j)
    \<and> unat (buckets (observe_all ds no_latency) ! j) \<le> unat (ls_count (observe_all ds no_latency))
    \<and> unat (ls_count (observe_all ds no_latency)) = length ds"
  using histogram_cumulative [OF assms] histogram_exact [OF assms(1), of i] assms by simp

theorem histogram_counts_witness:
  "unat (ls_count (observe_all [1 / 2, 0] no_latency)) = 2"
  using histogram_counts [of "[1 / 2, 0]" 0 0] by (simp add: BUCKET_COUNT_def)

text \<open>The sum of the latencies is kept as a double, and observing durations that are not
  negative never lowers it, rounding included.\<close>

theorem latency_sum_never_falls:
  assumes "fl (sum_seconds s) = sum_seconds s" "0 \<le> sum_seconds s" "\<forall>d \<in> set ds. 0 \<le> d"
  shows "sum_seconds s \<le> sum_seconds (observe_all ds s)"
  using assms by (rule sum_seconds_grows)

theorem latency_sum_never_falls_witness:
  "sum_seconds no_latency \<le> sum_seconds (observe_all [1 / 3, 1 / 7] no_latency)"
  by (rule latency_sum_never_falls) (simp_all add: no_latency_def)

end
