(* ===== verification/Command_Handler.thy ===== *)
theory Command_Handler
  imports Resp_Parser Db_Lists Db_Hashes Metrics
begin

text \<open>
  \<open>commandHandler::processCommand\<close> of \<open>src/server/CommandHandler.cpp\<close>: one definition
  per branch of the command chain, the chain itself, and the function around it.  The
  state is the database and the metrics; the clock readings are inputs.  An uncaught
  exception or an undefined step is an error value.
\<close>

subsection \<open>State and inputs\<close>

record world =
  wdb :: database
  stats :: metrics

record env =
  now_ns :: int       \<comment> \<open>the steady clock in \<open>Database::expire\<close>\<close>
  elapsed_ns :: int   \<comment> \<open>\<open>latency_end - latency_start\<close>\<close>

abbreviation fresh_world :: world where
  "fresh_world \<equiv> \<lparr>wdb = empty_db, stats = no_metrics\<rparr>"

abbreviation clock0 :: env where
  "clock0 \<equiv> \<lparr>now_ns = 0, elapsed_ns = 1000\<rparr>"

type_synonym reply = "(string \<times> world) res"

definition succeeded :: "string \<Rightarrow> world \<Rightarrow> world" where
  "succeeded cmd w = w\<lparr>stats := incrementSuccessfullCommand cmd (stats w)\<rparr>"

definition failed :: "string \<Rightarrow> world \<Rightarrow> world" where
  "failed cmd w = w\<lparr>stats := incrementFailureCommand cmd (stats w)\<rparr>"

definition with_db :: "world \<Rightarrow> database \<Rightarrow> world" where
  "with_db w d = w\<lparr>wdb := d\<rparr>"

subsection \<open>Common commands\<close>

definition cmd_PING :: "string \<Rightarrow> string list \<Rightarrow> world \<Rightarrow> reply" where
  "cmd_PING cmd tokens w = Inr (''+PONG'' @ CRLF, succeeded cmd w)"

definition cmd_ECHO :: "string \<Rightarrow> string list \<Rightarrow> world \<Rightarrow> reply" where
  "cmd_ECHO cmd tokens w =
     (if length tokens < 2 then Inr (''-Error: ECHO requires a messag'' @ CRLF, failed cmd w)
      else Inr (''+'' @ tokens ! 1 @ CRLF, succeeded cmd w))"

definition cmd_FLUSHALL :: "string \<Rightarrow> string list \<Rightarrow> world \<Rightarrow> reply" where
  "cmd_FLUSHALL cmd tokens w = Inr (''+OK'' @ CRLF, with_db w (snd (flushAll (wdb w))))"

subsection \<open>Key-value commands\<close>

definition cmd_SET :: "string \<Rightarrow> string list \<Rightarrow> world \<Rightarrow> reply" where
  "cmd_SET cmd tokens w =
     (if length tokens < 3 then Inr (''-Error: SET requires key and value'' @ CRLF, failed cmd w)
      else Inr (''+OK'' @ CRLF,
        succeeded cmd (with_db w (db_set (tokens ! 1) (tokens ! 2) (wdb w)))))"

definition cmd_GET :: "string \<Rightarrow> string list \<Rightarrow> world \<Rightarrow> reply" where
  "cmd_GET cmd tokens w =
     (if length tokens < 2 then Inr (''-Error: GET requires key'' @ CRLF, failed cmd w)
      else (case db_get (tokens ! 1) [] (wdb w) of (found, val) \<Rightarrow>
        Inr (if found then bulk val else ''$-1'' @ CRLF, succeeded cmd w)))"

definition cmd_KEYS :: "string \<Rightarrow> string list \<Rightarrow> world \<Rightarrow> reply" where
  "cmd_KEYS cmd tokens w = Inr (resp_array (db_keys (wdb w)), succeeded cmd w)"

definition cmd_TYPE :: "string \<Rightarrow> string list \<Rightarrow> world \<Rightarrow> reply" where
  "cmd_TYPE cmd tokens w =
     (if length tokens < 2 then Inr (''-Error: TYPE requires key'' @ CRLF, failed cmd w)
      else Inr (''+'' @ db_type (tokens ! 1) (wdb w) @ CRLF, succeeded cmd w))"

definition cmd_DEL :: "string \<Rightarrow> string list \<Rightarrow> world \<Rightarrow> reply" where
  "cmd_DEL cmd tokens w =
     (if length tokens < 2 then Inr (''-Error: '' @ cmd @ ''requires key'' @ CRLF, failed cmd w)
      else (case del (tokens ! 1) (wdb w) of (res, d) \<Rightarrow>
        Inr ('':'' @ (if res then ''1'' else ''0'') @ CRLF, succeeded cmd (with_db w d))))"

definition cmd_EXPIRE :: "env \<Rightarrow> string \<Rightarrow> string list \<Rightarrow> world \<Rightarrow> reply" where
  "cmd_EXPIRE e cmd tokens w =
     (if length tokens < 3
      then Inr (''-Error: EXPIRE requires key and time in seconds'' @ CRLF, failed cmd w)
      else rbind (expire (now_ns e) (tokens ! 1) (tokens ! 2) (wdb w)) (\<lambda>(res, d).
        Inr (if res then ''+OK'' @ CRLF else ''$-1'' @ CRLF, succeeded cmd (with_db w d))))"

definition cmd_RENAME :: "string \<Rightarrow> string list \<Rightarrow> world \<Rightarrow> reply" where
  "cmd_RENAME cmd tokens w =
     (if length tokens < 3
      then Inr (''-Error: RENAME requires old key name and new key name'' @ CRLF, failed cmd w)
      else Inr (''+OK'' @ CRLF,
        succeeded cmd (with_db w (snd (rename (tokens ! 1) (tokens ! 2) (wdb w))))))"

subsection \<open>List commands\<close>

text \<open>\<open>LSET\<close> and \<open>LREM\<close> check for three tokens and read a fourth.\<close>

definition cmd_LSET :: "string \<Rightarrow> string list \<Rightarrow> world \<Rightarrow> reply" where
  "cmd_LSET cmd tokens w =
     (if length tokens < 3
      then Inr (''-Error: LSET requires key, position index and a value to set'', failed cmd w)
      else rbind (vec_at tokens 3) (\<lambda>val. rbind (stoi (tokens ! 2)) (\<lambda>index.
        case lset (tokens ! 1) index val (wdb w) of (res, d) \<Rightarrow>
          if res then Inr (''+OK'' @ CRLF, succeeded cmd (with_db w d))
          else Inr (''-Error: Index out of range'' @ CRLF, failed cmd (with_db w d)))))"

definition cmd_LGET :: "string \<Rightarrow> string list \<Rightarrow> world \<Rightarrow> reply" where
  "cmd_LGET cmd tokens w =
     (if length tokens < 2 then Inr (''-Error: LGET requires a list name (key)'', failed cmd w)
      else (case lget (tokens ! 1) (wdb w) of (list, d) \<Rightarrow>
        Inr (resp_array list, succeeded cmd (with_db w d))))"

definition cmd_LLEN :: "string \<Rightarrow> string list \<Rightarrow> world \<Rightarrow> reply" where
  "cmd_LLEN cmd tokens w =
     (if length tokens < 2 then Inr (''-Error: LLEN requires a list name (key)'', failed cmd w)
      else (case llen (tokens ! 1) (wdb w) of (n, d) \<Rightarrow>
        Inr ('':'' @ show_nat n @ CRLF, succeeded cmd (with_db w d))))"

definition cmd_LPUSH :: "string \<Rightarrow> string list \<Rightarrow> world \<Rightarrow> reply" where
  "cmd_LPUSH cmd tokens w =
     (if length tokens < 3 then Inr (''-Error: LPUSH requires key, and a value'', failed cmd w)
      else (case lpush (tokens ! 1) (drop 2 tokens) (wdb w) of (n, d) \<Rightarrow>
        Inr ('':'' @ show_int n @ CRLF, succeeded cmd (with_db w d))))"

definition cmd_RPUSH :: "string \<Rightarrow> string list \<Rightarrow> world \<Rightarrow> reply" where
  "cmd_RPUSH cmd tokens w =
     (if length tokens < 3 then Inr (''-Error: RPUSH requires key, and a value'', failed cmd w)
      else (case rpush (tokens ! 1) (drop 2 tokens) (wdb w) of (n, d) \<Rightarrow>
        Inr ('':'' @ show_int n @ CRLF, succeeded cmd (with_db w d))))"

definition cmd_LPOP :: "string \<Rightarrow> string list \<Rightarrow> world \<Rightarrow> reply" where
  "cmd_LPOP cmd tokens w =
     (if length tokens < 2 then Inr (''-Error: LPOP requires the list name (key)'', failed cmd w)
      else (case lpop (tokens ! 1) (wdb w) of (val, d) \<Rightarrow>
        Inr (if val = [] then ''$-1'' @ CRLF else bulk val, succeeded cmd (with_db w d))))"

definition cmd_RPOP :: "string \<Rightarrow> string list \<Rightarrow> world \<Rightarrow> reply" where
  "cmd_RPOP cmd tokens w =
     (if length tokens < 2 then Inr (''-Error: RPOP requires the list name (key)'', failed cmd w)
      else (case rpop (tokens ! 1) (wdb w) of (val, d) \<Rightarrow>
        Inr (if val = [] then ''$-1'' @ CRLF else bulk val, succeeded cmd (with_db w d))))"

definition cmd_LREM :: "string \<Rightarrow> string list \<Rightarrow> world \<Rightarrow> reply" where
  "cmd_LREM cmd tokens w =
     (if length tokens < 3
      then Inr (''-Error: LREM requires key, count and a value to be removed.'', failed cmd w)
      else rbind (vec_at tokens 3) (\<lambda>val. rbind (stoi (tokens ! 2)) (\<lambda>count.
        rbind (lrem (tokens ! 1) count val (wdb w)) (\<lambda>(n, d).
          Inr ('':'' @ show_int n @ CRLF, succeeded cmd (with_db w d))))))"

text \<open>A position out of range counts as a failure and then as a success.\<close>

definition cmd_LINDEX :: "string \<Rightarrow> string list \<Rightarrow> world \<Rightarrow> reply" where
  "cmd_LINDEX cmd tokens w =
     (if length tokens < 3
      then Inr (''-Error: LINDEX requires key and an elemnent position'', failed cmd w)
      else rbind (stoi (tokens ! 2)) (\<lambda>index.
        case lindex (tokens ! 1) index (wdb w) of (val, d) \<Rightarrow>
          if val = []
          then Inr (''$-Error: Index out of range'' @ CRLF,
            succeeded cmd (failed cmd (with_db w d)))
          else Inr (bulk val, succeeded cmd (with_db w d))))"

subsection \<open>Hash commands\<close>

definition cmd_HSET :: "string \<Rightarrow> string list \<Rightarrow> world \<Rightarrow> reply" where
  "cmd_HSET cmd tokens w =
     (if length tokens < 4 then Inr (''-Error: HSET requires key, field and value'', failed cmd w)
      else (case hset (tokens ! 1) (tokens ! 2) (tokens ! 3) (wdb w) of (res, d) \<Rightarrow>
        Inr ('':'' @ (if res then ''1'' else ''0'') @ CRLF, succeeded cmd (with_db w d))))"

definition cmd_HGET :: "string \<Rightarrow> string list \<Rightarrow> world \<Rightarrow> reply" where
  "cmd_HGET cmd tokens w =
     (if length tokens < 3 then Inr (''-Error: HGET requires key and field'', failed cmd w)
      else (case hget (tokens ! 1) (tokens ! 2) [] (wdb w) of (result, val) \<Rightarrow>
        Inr (if result = [] then ''$-1'' @ CRLF else bulk val, succeeded cmd w)))"

definition cmd_HEXISTS :: "string \<Rightarrow> string list \<Rightarrow> world \<Rightarrow> reply" where
  "cmd_HEXISTS cmd tokens w =
     (if length tokens < 3 then Inr (''-Error: HEXISTS requires key and field'', failed cmd w)
      else Inr ('':'' @ (if hexists (tokens ! 1) (tokens ! 2) (wdb w) then ''1'' else ''0'') @ CRLF,
        succeeded cmd w))"

definition cmd_HDEL :: "string \<Rightarrow> string list \<Rightarrow> world \<Rightarrow> reply" where
  "cmd_HDEL cmd tokens w =
     (if length tokens < 3 then Inr (''-Error: HDEL requires key and field'', failed cmd w)
      else (case hdel (tokens ! 1) (tokens ! 2) (wdb w) of (res, d) \<Rightarrow>
        Inr ('':'' @ (if res then ''1'' else ''0'') @ CRLF, succeeded cmd (with_db w d))))"

definition cmd_HLEN :: "string \<Rightarrow> string list \<Rightarrow> world \<Rightarrow> reply" where
  "cmd_HLEN cmd tokens w =
     (if length tokens < 2 then Inr (''-Error: HLEN requires key'', failed cmd w)
      else (case hlen (tokens ! 1) (wdb w) of (n, d) \<Rightarrow>
        Inr ('':'' @ show_nat n @ CRLF, succeeded cmd (with_db w d))))"

definition cmd_HKEYS :: "string \<Rightarrow> string list \<Rightarrow> world \<Rightarrow> reply" where
  "cmd_HKEYS cmd tokens w =
     (if length tokens < 2 then Inr (''-Error: HKEYS requires a key'', failed cmd w)
      else (case hkeys (tokens ! 1) (wdb w) of (ks, d) \<Rightarrow>
        Inr (resp_array ks, succeeded cmd (with_db w d))))"

definition cmd_HVALS :: "string \<Rightarrow> string list \<Rightarrow> world \<Rightarrow> reply" where
  "cmd_HVALS cmd tokens w =
     (if length tokens < 2 then Inr (''-Error: HVALS requires a key'', failed cmd w)
      else (case hvals (tokens ! 1) (wdb w) of (vs, d) \<Rightarrow>
        Inr (resp_array vs, succeeded cmd (with_db w d))))"

text \<open>The header of the \<open>HGETALL\<close> reply announces the number of fields; twice as many
  bulk strings follow.\<close>

definition cmd_HGETALL :: "string \<Rightarrow> string list \<Rightarrow> world \<Rightarrow> reply" where
  "cmd_HGETALL cmd tokens w =
     (if length tokens < 2 then Inr (''-Error: HGETALL requires a key'', failed cmd w)
      else (case hgetall (tokens ! 1) (wdb w) of (m, d) \<Rightarrow>
        Inr (''*'' @ show_nat (length m) @ CRLF @ concat (map (\<lambda>(f, v). bulk f @ bulk v) m),
          succeeded cmd (with_db w d))))"

text \<open>The pairs of \<open>HMSET\<close> from position \<open>i\<close> on; a missing last value is read outside
  the vector.\<close>

fun hmset_loop :: "string \<Rightarrow> string list \<Rightarrow> database \<Rightarrow> database res" where
  "hmset_loop key [] d = Inr d"
| "hmset_loop key [f] d = Inl Undefined_Behaviour"
| "hmset_loop key (f # v # rest) d = hmset_loop key rest (snd (hset key f v d))"

definition cmd_HMSET :: "string \<Rightarrow> string list \<Rightarrow> world \<Rightarrow> reply" where
  "cmd_HMSET cmd tokens w =
     (if length tokens < 4
      then Inr (''-Error: HMSET requires a minimum of key, field and value'', failed cmd w)
      else rbind (hmset_loop (tokens ! 1) (drop 2 tokens) (wdb w)) (\<lambda>d.
        Inr (''+OK'' @ CRLF, succeeded cmd (with_db w d))))"

definition cmd_unknown :: "string \<Rightarrow> string list \<Rightarrow> world \<Rightarrow> reply" where
  "cmd_unknown cmd tokens w =
     Inr (''-Error: Unknown command '' @ [CHR 0x27] @ cmd @ [CHR 0x27] @ CRLF, failed cmd w)"

subsection \<open>The chain and the function\<close>

definition dispatch :: "env \<Rightarrow> string \<Rightarrow> string list \<Rightarrow> world \<Rightarrow> reply" where
  "dispatch e cmd tokens w =
     (if cmd = ''PING'' then cmd_PING cmd tokens w
      else if cmd = ''ECHO'' then cmd_ECHO cmd tokens w
      else if cmd = ''FLUSHALL'' then cmd_FLUSHALL cmd tokens w
      else if cmd = ''SET'' then cmd_SET cmd tokens w
      else if cmd = ''GET'' then cmd_GET cmd tokens w
      else if cmd = ''KEYS'' then cmd_KEYS cmd tokens w
      else if cmd = ''TYPE'' then cmd_TYPE cmd tokens w
      else if cmd = ''DEL'' \<or> cmd = ''UNLINK'' then cmd_DEL cmd tokens w
      else if cmd = ''EXPIRE'' then cmd_EXPIRE e cmd tokens w
      else if cmd = ''RENAME'' then cmd_RENAME cmd tokens w
      else if cmd = ''LSET'' then cmd_LSET cmd tokens w
      else if cmd = ''LGET'' then cmd_LGET cmd tokens w
      else if cmd = ''LLEN'' then cmd_LLEN cmd tokens w
      else if cmd = ''LPUSH'' then cmd_LPUSH cmd tokens w
      else if cmd = ''RPUSH'' then cmd_RPUSH cmd tokens w
      else if cmd = ''LPOP'' then cmd_LPOP cmd tokens w
      else if cmd = ''RPOP'' then cmd_RPOP cmd tokens w
      else if cmd = ''LREM'' then cmd_LREM cmd tokens w
      else if cmd = ''LINDEX'' then cmd_LINDEX cmd tokens w
      else if cmd = ''HSET'' then cmd_HSET cmd tokens w
      else if cmd = ''HGET'' then cmd_HGET cmd tokens w
      else if cmd = ''HEXISTS'' then cmd_HEXISTS cmd tokens w
      else if cmd = ''HDEL'' then cmd_HDEL cmd tokens w
      else if cmd = ''HLEN'' then cmd_HLEN cmd tokens w
      else if cmd = ''HKEYS'' then cmd_HKEYS cmd tokens w
      else if cmd = ''HVALS'' then cmd_HVALS cmd tokens w
      else if cmd = ''HGETALL'' then cmd_HGETALL cmd tokens w
      else if cmd = ''HMSET'' then cmd_HMSET cmd tokens w
      else cmd_unknown cmd tokens w)"

definition processCommand :: "env \<Rightarrow> string \<Rightarrow> world \<Rightarrow> reply" where
  "processCommand e commandLine w =
     rbind (parseRespCommand commandLine) (\<lambda>tokens.
       if tokens = [] then Inr (''-Error: Empty command'' @ CRLF, w)
       else
         (let cmd = map toupper (hd tokens) in
          rbind (dispatch e cmd tokens w) (\<lambda>(response, w1).
            Inr (response,
              w1\<lparr>stats := recordCommandLatency cmd (seconds_of_ns (elapsed_ns e)) (stats w1)\<rparr>))))"

lemmas cmd_defs =
  cmd_PING_def cmd_ECHO_def cmd_FLUSHALL_def cmd_SET_def cmd_GET_def cmd_KEYS_def cmd_TYPE_def
  cmd_DEL_def cmd_EXPIRE_def cmd_RENAME_def cmd_LSET_def cmd_LGET_def cmd_LLEN_def cmd_LPUSH_def
  cmd_RPUSH_def cmd_LPOP_def cmd_RPOP_def cmd_LREM_def cmd_LINDEX_def cmd_HSET_def cmd_HGET_def
  cmd_HEXISTS_def cmd_HDEL_def cmd_HLEN_def cmd_HKEYS_def cmd_HVALS_def cmd_HGETALL_def
  cmd_HMSET_def cmd_unknown_def

lemma world_frame [simp]:
  "wdb (succeeded cmd w) = wdb w" "wdb (failed cmd w) = wdb w" "wdb (with_db w d) = d"
  "stats (with_db w d) = stats w"
  "stats (succeeded cmd w) = incrementSuccessfullCommand cmd (stats w)"
  "stats (failed cmd w) = incrementFailureCommand cmd (stats w)"
  by (simp_all add: succeeded_def failed_def with_db_def)

text \<open>A case analysis over the chain: to show something of every reply it is enough to
  show it of every branch.\<close>

lemma if_branches: "(b \<Longrightarrow> P x) \<Longrightarrow> (\<not> b \<Longrightarrow> P y) \<Longrightarrow> P (if b then x else y)"
  by simp

lemma dispatch_all:
  assumes
    "cmd = ''PING'' \<Longrightarrow> P (cmd_PING cmd tokens w)"
    "cmd = ''ECHO'' \<Longrightarrow> P (cmd_ECHO cmd tokens w)"
    "cmd = ''FLUSHALL'' \<Longrightarrow> P (cmd_FLUSHALL cmd tokens w)"
    "cmd = ''SET'' \<Longrightarrow> P (cmd_SET cmd tokens w)"
    "cmd = ''GET'' \<Longrightarrow> P (cmd_GET cmd tokens w)"
    "cmd = ''KEYS'' \<Longrightarrow> P (cmd_KEYS cmd tokens w)"
    "cmd = ''TYPE'' \<Longrightarrow> P (cmd_TYPE cmd tokens w)"
    "cmd = ''DEL'' \<or> cmd = ''UNLINK'' \<Longrightarrow> P (cmd_DEL cmd tokens w)"
    "cmd = ''EXPIRE'' \<Longrightarrow> P (cmd_EXPIRE e cmd tokens w)"
    "cmd = ''RENAME'' \<Longrightarrow> P (cmd_RENAME cmd tokens w)"
    "cmd = ''LSET'' \<Longrightarrow> P (cmd_LSET cmd tokens w)"
    "cmd = ''LGET'' \<Longrightarrow> P (cmd_LGET cmd tokens w)"
    "cmd = ''LLEN'' \<Longrightarrow> P (cmd_LLEN cmd tokens w)"
    "cmd = ''LPUSH'' \<Longrightarrow> P (cmd_LPUSH cmd tokens w)"
    "cmd = ''RPUSH'' \<Longrightarrow> P (cmd_RPUSH cmd tokens w)"
    "cmd = ''LPOP'' \<Longrightarrow> P (cmd_LPOP cmd tokens w)"
    "cmd = ''RPOP'' \<Longrightarrow> P (cmd_RPOP cmd tokens w)"
    "cmd = ''LREM'' \<Longrightarrow> P (cmd_LREM cmd tokens w)"
    "cmd = ''LINDEX'' \<Longrightarrow> P (cmd_LINDEX cmd tokens w)"
    "cmd = ''HSET'' \<Longrightarrow> P (cmd_HSET cmd tokens w)"
    "cmd = ''HGET'' \<Longrightarrow> P (cmd_HGET cmd tokens w)"
    "cmd = ''HEXISTS'' \<Longrightarrow> P (cmd_HEXISTS cmd tokens w)"
    "cmd = ''HDEL'' \<Longrightarrow> P (cmd_HDEL cmd tokens w)"
    "cmd = ''HLEN'' \<Longrightarrow> P (cmd_HLEN cmd tokens w)"
    "cmd = ''HKEYS'' \<Longrightarrow> P (cmd_HKEYS cmd tokens w)"
    "cmd = ''HVALS'' \<Longrightarrow> P (cmd_HVALS cmd tokens w)"
    "cmd = ''HGETALL'' \<Longrightarrow> P (cmd_HGETALL cmd tokens w)"
    "cmd = ''HMSET'' \<Longrightarrow> P (cmd_HMSET cmd tokens w)"
    "classifyCommand cmd = Other \<Longrightarrow> P (cmd_unknown cmd tokens w)"
  shows "P (dispatch e cmd tokens w)"
  unfolding dispatch_def
  by ((rule if_branches [of _ P], erule assms(1-28))+, rule assms(29))
    (simp only: classifyCommand_def readCommands_def writeCommands_def list.set insert_iff empty_iff
      de_Morgan_disj simp_thms if_False)

end
