(* ===== verification/Handler_Expiry.thy ===== *)
theory Handler_Expiry
  imports Command_Handler
begin

text \<open>
  The expiry map has no effect.  \<open>EXPIRE\<close> fills it and \<open>RENAME\<close> moves its entries, but no
  command ever reads a deadline: whatever the map holds and whatever the clock says, the
  replies, the metrics and the three stores are the same.
\<close>

definition forget :: "world \<Rightarrow> world" where
  "forget w = w\<lparr>wdb := (wdb w)\<lparr>expirey_map := []\<rparr>\<rparr>"

definition observed :: "reply \<Rightarrow> reply" where
  "observed m = rbind m (\<lambda>(r, w). Inr (r, forget w))"

abbreviation set_exp :: "int umap \<Rightarrow> database \<Rightarrow> database" where
  "set_exp x d \<equiv> d\<lparr>expirey_map := x\<rparr>"

lemma set_exp_stores:
  "list_at k (set_exp x d) = list_at k d" "hash_at k (set_exp x d) = hash_at k d"
  "db_exists k (set_exp x d) = db_exists k d" "db_type k (set_exp x d) = db_type k d"
  "db_keys (set_exp x d) = db_keys d" "db_get k v (set_exp x d) = db_get k v d"
  "hget k f v (set_exp x d) = hget k f v d" "hexists k f (set_exp x d) = hexists k f d"
  by (simp_all add: list_at_def hash_at_def db_exists_def db_type_def db_keys_def db_get_def
      hget_def hexists_def)

lemma set_exp_writes:
  "list_write k l (set_exp x d) = set_exp x (list_write k l d)"
  "hash_write k h (set_exp x d) = set_exp x (hash_write k h d)"
  "db_set k v (set_exp x d) = set_exp x (db_set k v d)"
  "flushAll (set_exp x d) = apsnd (set_exp x) (flushAll d)"
  "del k (set_exp x d) = apsnd (set_exp x) (del k d)"
  by (simp_all add: list_write_def hash_write_def db_set_def flushAll_def del_def)

lemma set_exp_list_ops:
  "list_ref k (set_exp x d) = apsnd (set_exp x) (list_ref k d)"
  "lset k i v (set_exp x d) = apsnd (set_exp x) (lset k i v d)"
  "lget k (set_exp x d) = apsnd (set_exp x) (lget k d)"
  "llen k (set_exp x d) = apsnd (set_exp x) (llen k d)"
  "lpush k vs (set_exp x d) = apsnd (set_exp x) (lpush k vs d)"
  "rpush k vs (set_exp x d) = apsnd (set_exp x) (rpush k vs d)"
  "lpop k (set_exp x d) = apsnd (set_exp x) (lpop k d)"
  "rpop k (set_exp x d) = apsnd (set_exp x) (rpop k d)"
  "lindex k i (set_exp x d) = apsnd (set_exp x) (lindex k i d)"
proof -
  have "set_exp x d\<lparr>list_store := l\<rparr> = set_exp x (d\<lparr>list_store := l\<rparr>)" for l by simp
  then show r: "list_ref k (set_exp x d) = apsnd (set_exp x) (list_ref k d)"
    by (simp add: list_ref_eq set_exp_stores)
  show "lset k i v (set_exp x d) = apsnd (set_exp x) (lset k i v d)"
    "lget k (set_exp x d) = apsnd (set_exp x) (lget k d)"
    "llen k (set_exp x d) = apsnd (set_exp x) (llen k d)"
    "lpush k vs (set_exp x d) = apsnd (set_exp x) (lpush k vs d)"
    "rpush k vs (set_exp x d) = apsnd (set_exp x) (rpush k vs d)"
    "lpop k (set_exp x d) = apsnd (set_exp x) (lpop k d)"
    "rpop k (set_exp x d) = apsnd (set_exp x) (rpop k d)"
    "lindex k i (set_exp x d) = apsnd (set_exp x) (lindex k i d)"
    by (simp_all add: list_op_defs r Let_def case_prod_unfold set_exp_writes split: list.split)
qed

lemma set_exp_lrem:
  "lrem k c v (set_exp x d) = rbind (lrem k c v d) (\<lambda>p. Inr (apsnd (set_exp x) p))"
  by (simp add: lrem_def set_exp_writes case_prod_unfold Let_def split: option.split)

lemma set_exp_hash_ops:
  "hash_ref k (set_exp x d) = apsnd (set_exp x) (hash_ref k d)"
  "hset k f v (set_exp x d) = apsnd (set_exp x) (hset k f v d)"
  "hdel k f (set_exp x d) = apsnd (set_exp x) (hdel k f d)"
  "hlen k (set_exp x d) = apsnd (set_exp x) (hlen k d)"
  "hkeys k (set_exp x d) = apsnd (set_exp x) (hkeys k d)"
  "hvals k (set_exp x d) = apsnd (set_exp x) (hvals k d)"
  "hgetall k (set_exp x d) = apsnd (set_exp x) (hgetall k d)"
proof -
  have "set_exp x d\<lparr>hash_store := l\<rparr> = set_exp x (d\<lparr>hash_store := l\<rparr>)" for l by simp
  then show r: "hash_ref k (set_exp x d) = apsnd (set_exp x) (hash_ref k d)"
    by (simp add: hash_ref_eq set_exp_stores)
  show "hset k f v (set_exp x d) = apsnd (set_exp x) (hset k f v d)"
    "hdel k f (set_exp x d) = apsnd (set_exp x) (hdel k f d)"
    "hlen k (set_exp x d) = apsnd (set_exp x) (hlen k d)"
    "hkeys k (set_exp x d) = apsnd (set_exp x) (hkeys k d)"
    "hvals k (set_exp x d) = apsnd (set_exp x) (hvals k d)"
    "hgetall k (set_exp x d) = apsnd (set_exp x) (hgetall k d)"
    by (simp_all add: hash_op_defs r Let_def case_prod_unfold set_exp_writes split: option.split)
qed

lemma set_exp_hmset:
  "hmset_loop k ts (set_exp x d) = rbind (hmset_loop k ts d) (\<lambda>d'. Inr (set_exp x d'))"
  by (induction k ts d rule: hmset_loop.induct) (simp_all add: set_exp_hash_ops)

text \<open>\<open>expire\<close> and \<open>rename\<close> touch the map, and agree on the rest.\<close>

lemma set_exp_expire:
  "rbind (expire now k s (set_exp x d)) (\<lambda>(b, d'). Inr (b, set_exp y d')) =
     rbind (expire now k s d) (\<lambda>(b, d'). Inr (b, set_exp y d'))"
  by (cases "stoll s"; cases "time_add_seconds now (projr (stoll s))")
     (simp_all add: expire_def set_exp_stores)

lemma set_exp_rename: "set_exp y (snd (rename a b (set_exp x d))) = set_exp y (snd (rename a b d))"
  by (simp add: rename_def case_prod_unfold Let_def)

lemmas set_exp_simps = set_exp_stores set_exp_writes set_exp_list_ops set_exp_lrem set_exp_hash_ops
  set_exp_hmset

definition with_exp :: "int umap \<Rightarrow> world \<Rightarrow> world" where
  "with_exp x w = w\<lparr>wdb := set_exp x (wdb w)\<rparr>"

lemma with_exp_frame [simp]:
  "wdb (with_exp x w) = set_exp x (wdb w)" "stats (with_exp x w) = stats w"
  "with_db (with_exp x w) d = with_db w d"
  "succeeded cmd (with_exp x w) = with_exp x (succeeded cmd w)"
  "failed cmd (with_exp x w) = with_exp x (failed cmd w)"
  "with_db w (set_exp x d) = with_exp x (with_db w d)"
  by (simp_all add: with_exp_def with_db_def succeeded_def failed_def)

lemma forget_with_exp [simp]: "forget (with_exp x w) = forget w"
  by (simp add: forget_def with_exp_def)

lemma observed_simps [simp]:
  "observed (Inr (r, w)) = Inr (r, forget w)" "observed (Inl err) = Inl err"
  "observed (if b then m else n) = (if b then observed m else observed n)"
  "observed (rbind c f) = rbind c (\<lambda>x. observed (f x))"
  by (simp_all add: observed_def rbind_assoc)

lemma with_db_exp: "with_db w d = with_exp (expirey_map d) (with_db w (set_exp [] d))"
  by (simp add: with_exp_def with_db_def)

lemma observed_EXPIRE: "observed (cmd_EXPIRE e cmd tokens (with_exp x w)) = observed (cmd_EXPIRE e cmd tokens w)"
proof -
  have f: "forget (succeeded cmd (with_db w d)) = succeeded cmd (with_db w (set_exp [] d))" for d
    by (simp add: forget_def succeeded_def with_db_def)
  have "observed (cmd_EXPIRE e cmd tokens v) =
      (if length tokens < 3
       then Inr (''-Error: EXPIRE requires key and time in seconds'' @ CRLF, forget (failed cmd v))
       else rbind (rbind (expire (now_ns e) (tokens ! 1) (tokens ! 2) (wdb v))
          (\<lambda>(b, d'). Inr (b, set_exp [] d')))
        (\<lambda>(b, d). Inr (if b then ''+OK'' @ CRLF else ''$-1'' @ CRLF, succeeded cmd (with_db v d))))" for v
    by (cases "expire (now_ns e) (tokens ! 1) (tokens ! 2) (wdb v)")
       (auto simp: cmd_EXPIRE_def forget_def succeeded_def with_db_def)
  then show ?thesis by (simp add: set_exp_expire del: One_nat_def)
qed

lemma observed_RENAME: "observed (cmd_RENAME cmd tokens (with_exp x w)) = observed (cmd_RENAME cmd tokens w)"
proof -
  have "forget (succeeded cmd (with_db w d)) = succeeded cmd (with_db w (set_exp [] d))" for d
    by (simp add: forget_def succeeded_def with_db_def)
  then show ?thesis by (simp add: cmd_RENAME_def set_exp_rename)
qed

lemma observed_commands:
  "observed (cmd_PING cmd tokens (with_exp x w)) = observed (cmd_PING cmd tokens w)"
  "observed (cmd_ECHO cmd tokens (with_exp x w)) = observed (cmd_ECHO cmd tokens w)"
  "observed (cmd_FLUSHALL cmd tokens (with_exp x w)) = observed (cmd_FLUSHALL cmd tokens w)"
  "observed (cmd_SET cmd tokens (with_exp x w)) = observed (cmd_SET cmd tokens w)"
  "observed (cmd_GET cmd tokens (with_exp x w)) = observed (cmd_GET cmd tokens w)"
  "observed (cmd_KEYS cmd tokens (with_exp x w)) = observed (cmd_KEYS cmd tokens w)"
  "observed (cmd_TYPE cmd tokens (with_exp x w)) = observed (cmd_TYPE cmd tokens w)"
  "observed (cmd_DEL cmd tokens (with_exp x w)) = observed (cmd_DEL cmd tokens w)"
  "observed (cmd_LSET cmd tokens (with_exp x w)) = observed (cmd_LSET cmd tokens w)"
  "observed (cmd_LGET cmd tokens (with_exp x w)) = observed (cmd_LGET cmd tokens w)"
  "observed (cmd_LLEN cmd tokens (with_exp x w)) = observed (cmd_LLEN cmd tokens w)"
  "observed (cmd_LPUSH cmd tokens (with_exp x w)) = observed (cmd_LPUSH cmd tokens w)"
  "observed (cmd_RPUSH cmd tokens (with_exp x w)) = observed (cmd_RPUSH cmd tokens w)"
  "observed (cmd_LPOP cmd tokens (with_exp x w)) = observed (cmd_LPOP cmd tokens w)"
  "observed (cmd_RPOP cmd tokens (with_exp x w)) = observed (cmd_RPOP cmd tokens w)"
  "observed (cmd_LREM cmd tokens (with_exp x w)) = observed (cmd_LREM cmd tokens w)"
  "observed (cmd_LINDEX cmd tokens (with_exp x w)) = observed (cmd_LINDEX cmd tokens w)"
  "observed (cmd_HSET cmd tokens (with_exp x w)) = observed (cmd_HSET cmd tokens w)"
  "observed (cmd_HGET cmd tokens (with_exp x w)) = observed (cmd_HGET cmd tokens w)"
  "observed (cmd_HEXISTS cmd tokens (with_exp x w)) = observed (cmd_HEXISTS cmd tokens w)"
  "observed (cmd_HDEL cmd tokens (with_exp x w)) = observed (cmd_HDEL cmd tokens w)"
  "observed (cmd_HLEN cmd tokens (with_exp x w)) = observed (cmd_HLEN cmd tokens w)"
  "observed (cmd_HKEYS cmd tokens (with_exp x w)) = observed (cmd_HKEYS cmd tokens w)"
  "observed (cmd_HVALS cmd tokens (with_exp x w)) = observed (cmd_HVALS cmd tokens w)"
  "observed (cmd_HGETALL cmd tokens (with_exp x w)) = observed (cmd_HGETALL cmd tokens w)"
  "observed (cmd_HMSET cmd tokens (with_exp x w)) = observed (cmd_HMSET cmd tokens w)"
  "observed (cmd_unknown cmd tokens (with_exp x w)) = observed (cmd_unknown cmd tokens w)"
  by (simp_all add: cmd_defs set_exp_simps case_prod_unfold rbind_assoc cong: if_cong)

lemma expiry_unobservable: "observed (dispatch e cmd tokens (with_exp x w)) = observed (dispatch e cmd tokens w)"
  by (simp only: dispatch_def observed_simps(3) observed_commands observed_EXPIRE observed_RENAME)

subsection \<open>Property\<close>


end
