(* ===== verification/Client.thy ===== *)
theory Client
  imports Resp_Parser
begin

text \<open>
  The command line client: \<open>src/client/Client.cpp\<close> and \<open>src/client/main.cpp\<close>.  The
  results of the socket calls are inputs; \<open>parseSendCommand\<close> and \<open>parseResponse\<close> are the
  client's half of the protocol.
\<close>

subsection \<open>Connection\<close>

record client =
  host_addr :: string
  cl_port :: int
  sockfd :: int
  is_connected :: bool

definition new_client :: "string \<Rightarrow> int \<Rightarrow> client" where
  "new_client host port = \<lparr>host_addr = host, cl_port = port, sockfd = -1, is_connected = False\<rparr>"

definition connectToServer :: "int \<Rightarrow> int \<Rightarrow> int \<Rightarrow> client \<Rightarrow> bool \<times> client" where
  "connectToServer socket_res pton_res connect_res c =
     (let c1 = c\<lparr>sockfd := socket_res\<rparr> in
      if sockfd c1 = -1 then (False, c1)
      else if pton_res \<le> 0 then (False, c1)
      else if connect_res < 0 then (False, c1)
      else (True, c1\<lparr>is_connected := True\<rparr>))"

text \<open>The descriptor that is closed, if any, and the client afterwards.\<close>

definition closeConnection :: "client \<Rightarrow> int option \<times> client" where
  "closeConnection c =
     (if sockfd c \<noteq> -1 then (Some (sockfd c), c\<lparr>sockfd := -1, is_connected := False\<rparr>)
      else (None, c\<lparr>is_connected := False\<rparr>))"

definition send_data :: "string \<Rightarrow> string" where
  "send_data cmd = cmd @ CRLF"

definition sendCommand :: "(string \<Rightarrow> int) \<Rightarrow> string \<Rightarrow> bool" where
  "sendCommand send_res cmd \<longleftrightarrow> 0 < send_res (send_data cmd)"

text \<open>\<open>None\<close>: \<open>recv\<close> returned zero or less.  At most 4095 bytes are taken.\<close>

definition receiveResponse :: "string option \<Rightarrow> string" where
  "receiveResponse received =
     (case received of
        None \<Rightarrow> ''there is an error reading the response from the server''
      | Some bytes \<Rightarrow> take 4095 bytes)"

subsection \<open>Requests\<close>

definition parseSendCommand :: "string list \<Rightarrow> string" where
  "parseSendCommand tokens =
     foldl (\<lambda>command token. command @ ''$'' @ show_nat (length token) @ CRLF @ token @ CRLF)
       (''*'' @ show_nat (length tokens) @ CRLF) tokens"

subsection \<open>Responses\<close>

text \<open>The loop over the elements of an array reply; the first argument is
  \<open>numElements - k\<close>.  \<open>find\<close> may give \<open>npos\<close>, and the arithmetic on it wraps.\<close>

fun response_items :: "nat \<Rightarrow> string \<Rightarrow> nat \<Rightarrow> string \<Rightarrow> string res" where
  "response_items 0 response i result = Inr result"
| "response_items (Suc k) response i result =
     (let e = str_find response CRLF i in
      rbind (rbind (substr response (szt (i + 1)) (sz_sub (sz_sub e i) 1)) stoi) (\<lambda>len.
        let i1 = szt (e + 2) in
        if len = -1 then response_items k response i1 (result @ ''NULL '')
        else rbind (substr response i1 (size_of_int len)) (\<lambda>s.
          if INT_MAX < len + 2 then Inl Undefined_Behaviour
          else response_items k response (szt (i1 + size_of_int (len + 2))) (result @ s @ '' ''))))"

definition parseResponse :: "string \<Rightarrow> string res" where
  "parseResponse response =
     (if response = [] then
        Inr (''NO RESPONSE: CHECK SERVER SINCE SERVER SENDS RESPONSE FOR EVERY REQUEST'' @ [LF])
      else
        (let type = hd response in
         if type = CHR ''+'' then substr response 1 (sz_sub (str_find response CRLF 0) 1)
         else if type = CHR ''-'' then
           rbind (substr response 1 (sz_sub (str_find response CRLF 0) 1)) (\<lambda>s. Inr (''ERROR: '' @ s))
         else if type = CHR '':'' then substr response 1 (sz_sub (str_find response CRLF 0) 1)
         else if type = CHR ''$'' then
           (let pos = str_find response CRLF 0 in
            rbind (rbind (substr response 1 (sz_sub pos 1)) stoi) (\<lambda>len.
              if len = -1 then Inr ''NULL''
              else substr response (szt (pos + 2)) (size_of_int len)))
         else if type = CHR ''*'' then
           (let e = str_find response CRLF 0 in
            rbind (rbind (substr response 1 (sz_sub (sz_sub e 0) 1)) stoi) (\<lambda>numElements.
              response_items (nat numElements) response (szt (e + 2)) []))
         else Inr response))"

subsection \<open>The command loop\<close>

definition toUpper :: "string \<Rightarrow> string" where
  "toUpper s = map toupper s"

datatype cli_step = Cli_exit | Cli_print string

text \<open>One round of the loop for one line of input.  \<open>exchange\<close> stands for the network and
  the server: the bytes sent, and what \<open>recv\<close> then gives.  A line without a word makes
  \<open>tokens[0]\<close> undefined; at end of input \<open>getline\<close> leaves the line empty.\<close>

definition cli_round :: "(string \<Rightarrow> string option) \<Rightarrow> string \<Rightarrow> cli_step res" where
  "cli_round exchange command =
     rbind (vec_at (tokens_of command) 0) (\<lambda>t0.
       let tokens = (tokens_of command)[0 := toUpper t0] in
       if hd tokens = ''EXIT'' then Inr Cli_exit
       else
         (let hint = (if length tokens < 2 then ''Please enter a key and a value'' @ [LF] else []);
              response = receiveResponse (exchange (send_data (parseSendCommand tokens)))
          in rbind (parseResponse response) (\<lambda>shown. Inr (Cli_print (hint @ shown @ [LF])))))"

fun cli_loop :: "(string \<Rightarrow> string option) \<Rightarrow> string list \<Rightarrow> string \<Rightarrow> string res" where
  "cli_loop exchange [] out = rbind (cli_round exchange []) (\<lambda>_. Inr out)"
| "cli_loop exchange (line # ls) out =
     rbind (cli_round exchange line) (\<lambda>r.
       case r of Cli_exit \<Rightarrow> Inr (out @ ''See You Again'' @ [LF])
               | Cli_print s \<Rightarrow> cli_loop exchange ls (out @ s))"

subsection \<open>Requests reach the server's parser\<close>

lemma parseSendCommand_eq: "parseSendCommand ts = resp_array ts"
proof -
  have "foldl (\<lambda>command token. command @ ''$'' @ show_nat (length token) @ CRLF @ token @ CRLF) a ts =
      a @ concat (map bulk ts)" for a
    by (induction ts arbitrary: a) (auto simp: bulk_def)
  then show ?thesis by (simp add: parseSendCommand_def resp_array_def)
qed

subsection \<open>Reading replies\<close>

text \<open>A line reply: type character, text, CRLF.\<close>

lemma line_reply:
  assumes "CHR 0x0D \<notin> set s" "c \<noteq> CHR 0x0D" "length (c # s @ CRLF @ rest) \<le> nat INT_MAX"
  shows "substr (c # s @ CRLF @ rest) 1 (sz_sub (str_find (c # s @ CRLF @ rest) CRLF 0) 1) = Inr s"
proof -
  have f: "str_find (c # s @ CRLF @ rest) CRLF 0 = length (c # s)"
    using str_find_crlf [of "c # s" "[]" rest] assms by simp
  have "sz_sub (length (c # s)) 1 = length s" using assms(3) by (subst sz_sub_id) (auto simp: INT_MAX_def)
  then show ?thesis by (simp only: f) simp
qed

lemma parse_simple:
  "CHR 0x0D \<notin> set s \<Longrightarrow> length (''+'' @ s @ CRLF @ rest) \<le> nat INT_MAX \<Longrightarrow>
     parseResponse (''+'' @ s @ CRLF @ rest) = Inr s"
  using line_reply [of s "CHR ''+''" rest] by (simp add: parseResponse_def del: substr_ok One_nat_def)

lemma parse_error:
  "CHR 0x0D \<notin> set s \<Longrightarrow> length (''-'' @ s @ CRLF @ rest) \<le> nat INT_MAX \<Longrightarrow>
     parseResponse (''-'' @ s @ CRLF @ rest) = Inr (''ERROR: '' @ s)"
  using line_reply [of s "CHR ''-''" rest] by (simp add: parseResponse_def del: substr_ok One_nat_def)

lemma parse_integer:
  "CHR 0x0D \<notin> set s \<Longrightarrow> length ('':'' @ s @ CRLF @ rest) \<le> nat INT_MAX \<Longrightarrow>
     parseResponse ('':'' @ s @ CRLF @ rest) = Inr s"
  using line_reply [of s "CHR '':''" rest] by (simp add: parseResponse_def del: substr_ok One_nat_def)

lemma parse_null: "parseResponse (''$-1'' @ CRLF @ rest) = Inr ''NULL''"
proof -
  have f: "str_find (''$-1'' @ CRLF @ rest) CRLF 0 = 3"
    using str_find_crlf [of "''$-1''" "[]" rest] by simp
  have s: "sz_sub 3 1 = 2" by simp
  have "stoi ''-1'' = Inr (-1)"
    by (simp add: stoi_def strtol_def isspace_def isdigit_def digit_val_def INT_MIN_def INT_MAX_def)
  then have "rbind (substr (''$-1'' @ CRLF @ rest) 1 2) stoi = Inr (-1)"
    by (simp add: numeral_2_eq_2)
  then show ?thesis
    by (simp add: parseResponse_def Let_def f [simplified] s [simplified] del: substr_ok)
qed

text \<open>A bulk header: the length is read, and the contents follow.\<close>

lemma bulk_header:
  assumes "length (pre @ bulk s @ rest) \<le> nat INT_MAX"
  shows "str_find (pre @ bulk s @ rest) CRLF (length pre) = length pre + 1 + length (show_nat (length s))"
    "substr (pre @ bulk s @ rest) (length pre + 1) (length (show_nat (length s))) = Inr (show_nat (length s))"
    "stoi (show_nat (length s)) = Inr (int (length s))"
    "substr (pre @ bulk s @ rest) (length pre + 3 + length (show_nat (length s))) (length s) = Inr s"
proof -
  let ?n = "show_nat (length s)"
  have "CHR 0x0D \<notin> set (''$'' @ ?n)" using show_nat_no_CR by simp
  from str_find_crlf [OF this, of pre "s @ CRLF @ rest"]
  show "str_find (pre @ bulk s @ rest) CRLF (length pre) = length pre + 1 + length ?n"
    by (simp add: bulk_def)
  show "substr (pre @ bulk s @ rest) (length pre + 1) (length ?n) = Inr ?n"
    by (simp add: bulk_def)
  show "stoi ?n = Inr (int (length s))"
    using assms by (intro stoi_show_nat) (simp add: bulk_def INT_MAX_def)
  have "drop (length pre + 3 + length ?n) (pre @ bulk s @ rest) = s @ CRLF @ rest"
    using append_eq_conv_conj [of "pre @ ''$'' @ ?n @ CRLF" "s @ CRLF @ rest" "pre @ bulk s @ rest"]
    by (simp add: bulk_def add.commute add.left_commute numeral_3_eq_3)
  then show "substr (pre @ bulk s @ rest) (length pre + 3 + length ?n) (length s) = Inr s"
    by (simp add: substr_def bulk_def)
qed

lemma parse_bulk:
  assumes "length (bulk s @ rest) \<le> nat INT_MAX"
  shows "parseResponse (bulk s @ rest) = Inr s"
proof -
  let ?n = "show_nat (length s)" and ?r = "bulk s @ rest"
  have b: "str_find ?r CRLF 0 = 1 + length ?n" "substr ?r 1 (length ?n) = Inr ?n"
    "stoi ?n = Inr (int (length s))" "substr ?r (3 + length ?n) (length s) = Inr s"
    using bulk_header [of "[]" s rest] assms by simp_all
  have len: "3 + length ?n + length s < 2147483648"
    using assms by (simp add: bulk_def INT_MAX_def)
  have sub: "sz_sub (1 + length ?n) 1 = length ?n" using len by (subst sz_sub_id) auto
  have szt: "szt (1 + length ?n + 2) = 3 + length ?n" "size_of_int (int (length s)) = length s"
    using len by simp_all
  have hd: "?r \<noteq> []" "hd ?r = CHR ''$''" by (simp_all add: bulk_def)
  have "rbind (substr ?r 1 (sz_sub (1 + length ?n) 1)) stoi = Inr (int (length s))"
    by (simp only: sub b(2,3) rbind.simps)
  moreover have "int (length s) \<noteq> -1" by simp
  ultimately show ?thesis
    by (simp only: parseResponse_def hd if_False if_True Let_def b(1) rbind.simps szt b(4)
        char.inject simp_thms)
qed

lemma response_item_bulk:
  assumes "length (pre @ bulk s @ rest) \<le> nat INT_MAX"
  shows "response_items (Suc k) (pre @ bulk s @ rest) (length pre) out =
    response_items k (pre @ bulk s @ rest) (length (pre @ bulk s)) (out @ s @ '' '')"
proof -
  let ?n = "show_nat (length s)" and ?r = "pre @ bulk s @ rest"
  note b = bulk_header [OF assms]
  have len: "length pre + 3 + length ?n + length s + 2 < 2147483648"
    using assms by (simp add: bulk_def INT_MAX_def)
  have sub: "sz_sub (sz_sub (length pre + 1 + length ?n) (length pre)) 1 = length ?n"
    using len by (simp add: sz_sub_id)
  have szt: "szt (length pre + 1) = length pre + 1"
    "szt (length pre + 1 + length ?n + 2) = length pre + 3 + length ?n"
    "size_of_int (int (length s)) = length s"
    "szt (length pre + 3 + length ?n + size_of_int (int (length s) + 2)) = length (pre @ bulk s)"
    using len by (simp_all add: bulk_def nat_add_distrib)
  have hdr: "rbind (substr ?r (length pre + 1) (length ?n)) stoi = Inr (int (length s))"
    by (simp only: b rbind.simps)
  have nn: "(int (length s) = -1) = False" "(INT_MAX < int (length s) + 2) = False"
    using len by (simp_all add: INT_MAX_def)
  show ?thesis
    by (simp only: response_items.simps Let_def b(1) szt sub hdr rbind.simps nn if_False b(4))
qed

lemma response_items_bulks:
  "length (pre @ concat (map bulk ss) @ rest) \<le> nat INT_MAX \<Longrightarrow>
     response_items (length ss) (pre @ concat (map bulk ss) @ rest) (length pre) out =
     Inr (out @ concat (map (\<lambda>s. s @ '' '') ss))"
proof (induction ss arbitrary: pre out)
  case (Cons s ss)
  have "response_items (Suc (length ss)) (pre @ bulk s @ concat (map bulk ss) @ rest) (length pre) out =
      response_items (length ss) ((pre @ bulk s) @ concat (map bulk ss) @ rest)
        (length (pre @ bulk s)) (out @ s @ '' '')"
    using Cons.prems response_item_bulk [of pre s "concat (map bulk ss) @ rest" "length ss" out] by simp
  also have "\<dots> = Inr ((out @ s @ '' '') @ concat (map (\<lambda>s. s @ '' '') ss))"
    using Cons.prems by (intro Cons.IH) simp
  finally show ?case by simp
qed simp

text \<open>An array header that announces \<open>n\<close> elements.\<close>

lemma parse_array_header:
  assumes "length (''*'' @ show_nat n @ CRLF @ rest) \<le> nat INT_MAX" "int n \<le> INT_MAX"
  shows "parseResponse (''*'' @ show_nat n @ CRLF @ rest) =
    response_items n (''*'' @ show_nat n @ CRLF @ rest) (length (''*'' @ show_nat n @ CRLF)) []"
proof -
  define r where "r = ''*'' @ show_nat n @ CRLF @ rest"
  let ?n = "show_nat n"
  have len: "3 + length ?n < 2147483648" using assms by (simp add: INT_MAX_def)
  have "CHR 0x0D \<notin> set (''*'' @ ?n)" using show_nat_no_CR by simp
  from str_find_crlf [OF this, of "[]" rest] have f: "str_find r CRLF 0 = 1 + length ?n"
    by (simp add: r_def)
  have sub: "sz_sub (sz_sub (1 + length ?n) 0) 1 = length ?n" using len by simp
  have szt: "szt (1 + length ?n + 2) = length (''*'' @ ?n @ CRLF)" using len by simp
  have hd: "r \<noteq> []" "hd r = CHR ''*''" by (simp_all add: r_def)
  have hdr: "rbind (substr r 1 (length ?n)) stoi = Inr (int n)"
    using assms(2) by (simp add: r_def stoi_show_nat)
  show ?thesis
    unfolding r_def [symmetric]
    by (simp only: parseResponse_def hd if_False if_True Let_def f sub szt hdr rbind.simps nat_int
        char.inject simp_thms)
qed

lemma parse_array:
  assumes "length (resp_array ts @ rest) \<le> nat INT_MAX"
  shows "parseResponse (resp_array ts @ rest) = Inr (concat (map (\<lambda>t. t @ '' '') ts))"
proof -
  let ?h = "''*'' @ show_nat (length ts) @ CRLF"
  have eq: "resp_array ts @ rest = ''*'' @ show_nat (length ts) @ CRLF @ concat (map bulk ts) @ rest"
    by (simp add: resp_array_def)
  have "int (length ts) \<le> INT_MAX"
    using concat_bulk_length [of ts] assms by (simp add: resp_array_def INT_MAX_def)
  then have "parseResponse (resp_array ts @ rest) =
      response_items (length ts) (?h @ concat (map bulk ts) @ rest) (length ?h) []"
    using parse_array_header [of "length ts" "concat (map bulk ts) @ rest"] assms by (simp add: eq)
  also have "\<dots> = Inr (concat (map (\<lambda>t. t @ '' '') ts))"
    using response_items_bulks [of ?h ts rest "[]"] assms by (simp add: eq)
  finally show ?thesis .
qed

subsection \<open>Property\<close>

text \<open>C18: The client shows an array reply as its elements, each followed by a blank, and a
  bulk reply as its contents, whatever bytes they hold.\<close>

theorem client_shows_replies:
  assumes "length (resp_array ts @ rest) \<le> nat INT_MAX" "length (bulk s @ rest) \<le> nat INT_MAX"
  shows "parseResponse (resp_array ts @ rest) = Inr (concat (map (\<lambda>t. t @ '' '') ts))
    \<and> parseResponse (bulk s @ rest) = Inr s"
  using parse_array [OF assms(1)] parse_bulk [OF assms(2)] by simp

theorem client_shows_replies_witness:
  "parseResponse (resp_array [''a'', ''bc'']) = Inr ''a bc ''"
  using client_shows_replies [of "[''a'', ''bc'']" "[]" "[]"]
  by (simp add: resp_array_def bulk_def CRLF_def INT_MAX_def show_nat.simps)

end
