(* ===== verification/Handler_Accounting.thy ===== *)
theory Handler_Accounting
  imports Command_Handler
begin

text \<open>
  What the command handler counts, when it fails, and what it leaves alone.
  \<open>crash_cause\<close> gives, for a command and its tokens, the exception or the undefined step
  the handler runs into, and the equivalence with the handler's own definition shows
  that there is no other one.
\<close>

subsection \<open>Counting\<close>

definition index_miss :: string where
  "index_miss = ''$-Error: Index out of range'' @ CRLF"

definition processed :: "metrics \<Rightarrow> 32 word" where
  "processed m = totalSuccessCommands m + totalFailureComands m"

text \<open>How often a command that returns \<open>r\<close> is counted.\<close>

definition times_counted :: "string \<Rightarrow> string \<Rightarrow> nat" where
  "times_counted cmd r =
     (if cmd = ''FLUSHALL'' then 0 else if cmd = ''LINDEX'' \<and> r = index_miss then 2 else 1)"

definition kind_count :: "command_kind \<Rightarrow> string \<Rightarrow> 64 word" where
  "kind_count k cmd = (if classifyCommand cmd = k then 1 else 0)"

lemma bulk_not_miss: "bulk v \<noteq> index_miss"
proof -
  have "hd (show_nat (length v)) \<noteq> CHR ''-''"
    using show_nat_hd [of "length v"] isdigit_not_sign by blast
  moreover obtain c cs where "show_nat (length v) = c # cs"
    using show_nat_nonempty [of "length v"] by (cases "show_nat (length v)") simp_all
  ultimately show ?thesis by (simp add: bulk_def index_miss_def)
qed

lemma kinds:
  "kind_count Read cmd + kind_count Write cmd + kind_count Other cmd = 1"
  by (cases "classifyCommand cmd") (simp_all add: kind_count_def)

lemma record_counts:
  "read_commands_total (recordReadWrite c m) = read_commands_total m + kind_count Read c"
  "write_commands_total (recordReadWrite c m) = write_commands_total m + kind_count Write c"
  by (simp_all add: recordReadWrite_def kind_count_def split: command_kind.split)

lemma increment_counts [simp]:
  "processed (incrementSuccessfullCommand c m) = processed m + 1"
  "processed (incrementFailureCommand c m) = processed m + 1"
  "read_commands_total (incrementSuccessfullCommand c m) = read_commands_total m + kind_count Read c"
  "read_commands_total (incrementFailureCommand c m) = read_commands_total m + kind_count Read c"
  "write_commands_total (incrementSuccessfullCommand c m) = write_commands_total m + kind_count Write c"
  "write_commands_total (incrementFailureCommand c m) = write_commands_total m + kind_count Write c"
  "latency_by_command (incrementSuccessfullCommand c m) = latency_by_command m"
  "latency_by_command (incrementFailureCommand c m) = latency_by_command m"
  by (simp_all add: processed_def increments incrementSuccessfullCommand_def
      incrementFailureCommand_def Let_def record_counts)

definition counted :: "string \<Rightarrow> world \<Rightarrow> string \<times> world \<Rightarrow> bool" where
  "counted cmd w out \<longleftrightarrow> (case out of (r, w') \<Rightarrow>
     let n = times_counted cmd r; m = stats w; m' = stats w' in
     processed m' = processed m + of_nat n
     \<and> read_commands_total m' = read_commands_total m + of_nat n * kind_count Read cmd
     \<and> write_commands_total m' = write_commands_total m + of_nat n * kind_count Write cmd
     \<and> clients m' = clients m \<and> latency_by_command m' = latency_by_command m)"

lemma dispatch_counted: "on_ok (counted cmd w) (dispatch e cmd tokens w)"
proof (rule dispatch_all)
  show "on_ok (counted cmd w) (cmd_LSET cmd tokens w)" if "cmd = ''LSET''"
    using that
    by (auto simp: cmd_LSET_def vec_at_def case_prod_unfold counted_def times_counted_def increments
        intro!: on_okI)
  show "on_ok (counted cmd w) (cmd_LINDEX cmd tokens w)" if "cmd = ''LINDEX''"
    using that bulk_not_miss
    by (auto simp: cmd_LINDEX_def case_prod_unfold counted_def times_counted_def increments
        index_miss_def intro!: on_okI)
  show "on_ok (counted cmd w) (cmd_LREM cmd tokens w)" if "cmd = ''LREM''"
    using that
    by (auto simp: cmd_LREM_def counted_def times_counted_def increments intro!: on_okI)
  show "on_ok (counted cmd w) (cmd_EXPIRE e cmd tokens w)" if "cmd = ''EXPIRE''"
    using that
    by (auto simp: cmd_EXPIRE_def counted_def times_counted_def increments intro!: on_okI)
  show "on_ok (counted cmd w) (cmd_HMSET cmd tokens w)" if "cmd = ''HMSET''"
    using that
    by (auto simp: cmd_HMSET_def counted_def times_counted_def increments intro!: on_okI)
  show "on_ok (counted cmd w) (cmd_unknown cmd tokens w)" if "classifyCommand cmd = Other"
    using that
    by (auto simp: cmd_unknown_def counted_def times_counted_def increments kind_count_def
       classifyCommand_def readCommands_def writeCommands_def)
qed (auto simp: cmd_defs case_prod_unfold counted_def times_counted_def increments Let_def)

text \<open>The whole function: nothing is recorded for an empty token list; otherwise the command
  is counted and its own histogram takes one observation.\<close>

lemma processCommand_eq:
  "parseRespCommand line = Inr (t # ts) \<Longrightarrow>
     processCommand e line w =
       rbind (dispatch e (map toupper t) (t # ts) w) (\<lambda>(r, w1). Inr (r, w1\<lparr>stats :=
         recordCommandLatency (map toupper t) (seconds_of_ns (elapsed_ns e)) (stats w1)\<rparr>))"
  by (simp add: processCommand_def Let_def)

lemma processCommand_empty:
  "parseRespCommand line = Inr [] \<Longrightarrow>
     processCommand e line w = Inr (''-Error: Empty command'' @ CRLF, w)"
  by (simp add: processCommand_def)

lemma processCommand_counted:
  assumes "parseRespCommand line = Inr (t # ts)" "processCommand e line w = Inr (r, w')"
  defines "cmd \<equiv> map toupper t"
  shows "processed (stats w') = processed (stats w) + of_nat (times_counted cmd r)"
    "read_commands_total (stats w') =
       read_commands_total (stats w) + of_nat (times_counted cmd r) * kind_count Read cmd"
    "write_commands_total (stats w') =
       write_commands_total (stats w) + of_nat (times_counted cmd r) * kind_count Write cmd"
    "clients (stats w') = clients (stats w)"
    "stats_of c (stats w') =
       (if c = cmd \<and> cmd \<noteq> [] then observeLatency (seconds_of_ns (elapsed_ns e)) (stats_of c (stats w))
        else stats_of c (stats w))"
proof -
  from assms obtain w1 where d: "dispatch e cmd (t # ts) w = Inr (r, w1)"
    and w': "w' = w1\<lparr>stats := recordCommandLatency cmd (seconds_of_ns (elapsed_ns e)) (stats w1)\<rparr>"
    by (auto simp: processCommand_eq cmd_def)
  from on_okD [OF dispatch_counted d] have c: "counted cmd w (r, w1)" .
  then have "stats_of c (stats w1) = stats_of c (stats w)"
    by (simp add: counted_def stats_of_def Let_def)
  with c show "processed (stats w') = processed (stats w) + of_nat (times_counted cmd r)"
    "read_commands_total (stats w') =
       read_commands_total (stats w) + of_nat (times_counted cmd r) * kind_count Read cmd"
    "write_commands_total (stats w') =
       write_commands_total (stats w) + of_nat (times_counted cmd r) * kind_count Write cmd"
    "clients (stats w') = clients (stats w)"
    "stats_of c (stats w') =
       (if c = cmd \<and> cmd \<noteq> [] then observeLatency (seconds_of_ns (elapsed_ns e)) (stats_of c (stats w))
        else stats_of c (stats w))"
    by (auto simp: counted_def Let_def w' stats_of_record processed_def)
qed

subsection \<open>When the handler fails\<close>

text \<open>The exception or undefined step, if any, the command runs into.\<close>

definition number_error :: "(string \<Rightarrow> int res) \<Rightarrow> string \<Rightarrow> cpp_error option" where
  "number_error read s = (case read s of Inl err \<Rightarrow> Some err | Inr _ \<Rightarrow> None)"

definition crash_cause :: "env \<Rightarrow> string \<Rightarrow> string list \<Rightarrow> database \<Rightarrow> cpp_error option" where
  "crash_cause e cmd tokens d =
     (if cmd = ''EXPIRE'' \<and> 3 \<le> length tokens \<and> db_exists (tokens ! 1) d then
        (case stoll (tokens ! 2) of
           Inl err \<Rightarrow> Some err
         | Inr s \<Rightarrow> if in_llong (s * 1000000000) \<and> in_llong (now_ns e + s * 1000000000)
             then None else Some Undefined_Behaviour)
      else if (cmd = ''LSET'' \<or> cmd = ''LREM'') \<and> length tokens = 3 then Some Undefined_Behaviour
      else if cmd = ''LSET'' \<and> 4 \<le> length tokens then number_error stoi (tokens ! 2)
      else if cmd = ''LREM'' \<and> 4 \<le> length tokens then
        (case stoi (tokens ! 2) of
           Inl err \<Rightarrow> Some err
         | Inr c \<Rightarrow> if c = INT_MIN \<and> um_has (list_store d) (tokens ! 1)
             then Some Undefined_Behaviour else None)
      else if cmd = ''LINDEX'' \<and> 3 \<le> length tokens then number_error stoi (tokens ! 2)
      else if cmd = ''HMSET'' \<and> 4 \<le> length tokens \<and> odd (length tokens)
        then Some Undefined_Behaviour
      else None)"

lemma lrem_fails:
  "lrem k c v d = Inl err \<longleftrightarrow> c = INT_MIN \<and> um_has (list_store d) k \<and> err = Undefined_Behaviour"
  by (auto simp: lrem_def um_has_def INT_MIN_def split: option.splits prod.splits)

lemma expire_fails:
  "expire now k s d = Inl err \<longleftrightarrow> db_exists k d \<and>
     (stoll s = Inl err \<or> (\<exists>n. stoll s = Inr n \<and> err = Undefined_Behaviour \<and>
        \<not> (in_llong (n * 1000000000) \<and> in_llong (now + n * 1000000000))))"
  by (auto simp: expire_def time_add_seconds_def rbind_eq_throw)

lemma hmset_fails:
  "hmset_loop k ts d = Inl err \<longleftrightarrow> odd (length ts) \<and> err = Undefined_Behaviour"
  by (induction k ts d rule: hmset_loop.induct) auto

lemma number_error_eq: "number_error rd s = Some err \<longleftrightarrow> rd s = Inl err"
  by (simp add: number_error_def split: sum.split)

lemma length_3_cases: obtains "length ts < 3" | "length ts = 3" | "4 \<le> length (ts :: 'a list)"
  by linarith

lemma if_not_Inl: "(if b then Inr x else Inr y) \<noteq> Inl z"
  by simp

lemma other_not_number:
  assumes "classifyCommand cmd = Other"
  shows "(cmd = ''EXPIRE'') = False" "(cmd = ''LSET'') = False" "(cmd = ''LREM'') = False"
    "(cmd = ''LINDEX'') = False" "(cmd = ''HMSET'') = False"
proof -
  have "classifyCommand ''EXPIRE'' \<noteq> Other" "classifyCommand ''LSET'' \<noteq> Other"
    "classifyCommand ''LREM'' \<noteq> Other" "classifyCommand ''LINDEX'' \<noteq> Other"
    "classifyCommand ''HMSET'' \<noteq> Other"
    by (simp_all add: classifyCommand_def readCommands_def writeCommands_def)
  with assms show "(cmd = ''EXPIRE'') = False" "(cmd = ''LSET'') = False" "(cmd = ''LREM'') = False"
    "(cmd = ''LINDEX'') = False" "(cmd = ''HMSET'') = False"
    by metis+
qed

lemma dispatch_fails:
  "dispatch e cmd tokens w = Inl err \<longleftrightarrow> crash_cause e cmd tokens (wdb w) = Some err"
proof (rule dispatch_all [where P = "\<lambda>m. m = Inl err \<longleftrightarrow> crash_cause e cmd tokens (wdb w) = Some err"])
  show "cmd_EXPIRE e cmd tokens w = Inl err \<longleftrightarrow> crash_cause e cmd tokens (wdb w) = Some err"
    if "cmd = ''EXPIRE''"
    using that
    by (auto simp: cmd_EXPIRE_def crash_cause_def rbind_eq_throw expire_fails not_less split: sum.splits if_splits)
  show "cmd_LSET cmd tokens w = Inl err \<longleftrightarrow> crash_cause e cmd tokens (wdb w) = Some err"
    if "cmd = ''LSET''"
    using that
    by (cases tokens rule: length_3_cases)
       (auto simp: cmd_LSET_def crash_cause_def rbind_eq_throw number_error_eq if_not_Inl case_prod_unfold)
  show "cmd_LREM cmd tokens w = Inl err \<longleftrightarrow> crash_cause e cmd tokens (wdb w) = Some err"
    if "cmd = ''LREM''"
    using that
    by (cases tokens rule: length_3_cases)
       (auto simp: cmd_LREM_def crash_cause_def rbind_eq_throw lrem_fails case_prod_unfold split: sum.split)
  show "cmd_LINDEX cmd tokens w = Inl err \<longleftrightarrow> crash_cause e cmd tokens (wdb w) = Some err"
    if "cmd = ''LINDEX''"
    using that
    by (cases "length tokens < 3")
       (simp_all add: cmd_LINDEX_def crash_cause_def rbind_eq_throw number_error_eq case_prod_unfold
         if_not_Inl)
  show "cmd_HMSET cmd tokens w = Inl err \<longleftrightarrow> crash_cause e cmd tokens (wdb w) = Some err"
    if "cmd = ''HMSET''"
    using that
    by (auto simp: cmd_HMSET_def crash_cause_def rbind_eq_throw hmset_fails split: if_splits)
  show "cmd_unknown cmd tokens w = Inl err \<longleftrightarrow> crash_cause e cmd tokens (wdb w) = Some err"
    if "classifyCommand cmd = Other"
    using that
    by (simp add: cmd_unknown_def crash_cause_def other_not_number)
qed (auto simp: cmd_defs crash_cause_def case_prod_unfold)

subsection \<open>Properties\<close>


text \<open>C7: A processed command is counted once as success or failure, and once as read or
  write when it is one of the listed commands; \<open>FLUSHALL\<close> is never counted and a missed
  \<open>LINDEX\<close> is counted twice.  The latency enters the histogram of this command only.\<close>

theorem command_accounting:
  assumes "parseRespCommand line = Inr (t # ts)" "processCommand e line w = Inr (r, w')"
  shows "processed (stats w') = processed (stats w) + of_nat (times_counted (map toupper t) r)
    \<and> read_commands_total (stats w') = read_commands_total (stats w)
        + of_nat (times_counted (map toupper t) r) * kind_count Read (map toupper t)
    \<and> write_commands_total (stats w') = write_commands_total (stats w)
        + of_nat (times_counted (map toupper t) r) * kind_count Write (map toupper t)
    \<and> clients (stats w') = clients (stats w)
    \<and> stats_of c (stats w') =
       (if c = map toupper t \<and> c \<noteq> []
        then observeLatency (seconds_of_ns (elapsed_ns e)) (stats_of c (stats w))
        else stats_of c (stats w))"
  using processCommand_counted [OF assms] by auto

theorem command_accounting_witness:
  "\<exists>r w'. processCommand clock0 ''PING'' fresh_world = Inr (r, w')
    \<and> processed (stats w') = 1 \<and> read_commands_total (stats w') = 1"
proof -
  have p: "parseRespCommand ''PING'' = Inr [''PING'']"
    using tokens_of_word [of "''PING''" "[]"] by (simp add: parse_inline is_token_def no_space_def isspace_def)
  have up: "map toupper ''PING'' = ''PING''" by (simp add: toupper_def)
  obtain r w' where r: "processCommand clock0 ''PING'' fresh_world = Inr (r, w')"
    using processCommand_eq [OF p, of clock0 fresh_world] up by (simp add: dispatch_def cmd_PING_def)
  have "processed no_metrics = 0" "read_commands_total no_metrics = 0"
    by (simp_all add: processed_def no_metrics_def)
  then have "processed (stats w') = 1 \<and> read_commands_total (stats w') = 1"
    using command_accounting [OF p r] up
    by (simp add: times_counted_def kind_count_def classifyCommand_def readCommands_def)
  with r show ?thesis by blast
qed

end
