(* ===== verification/Db_Persistence.thy ===== *)
theory Db_Persistence
  imports Db_Hashes Db_Lists
begin

text \<open>
  Dump and load of \<open>src/server/Database.cpp\<close>: the three stores written as lines of
  text and read back.  The file system is a map from file names to contents; whether a
  file can be opened for writing is an input.  The expiry map is not written.
\<close>

subsection \<open>Dump\<close>

definition kv_line :: "string \<times> string \<Rightarrow> string" where
  "kv_line kv = (case kv of (k, v) \<Rightarrow> ''K '' @ k @ '' '' @ v)"

definition list_line :: "string \<times> string list \<Rightarrow> string" where
  "list_line kv = (case kv of (k, items) \<Rightarrow> ''L '' @ k @ concat (map (\<lambda>item. '' '' @ item) items))"

definition hash_line :: "string \<times> string umap \<Rightarrow> string" where
  "hash_line kv =
     (case kv of (k, h) \<Rightarrow> ''H '' @ k @ concat (map (\<lambda>(f, v). '' '' @ f @ '':'' @ v) h))"

definition dump_lines :: "('e \<Rightarrow> string) \<Rightarrow> 'e list \<Rightarrow> string" where
  "dump_lines line es = concat (map (\<lambda>e. line e @ [LF]) es)"

definition dump_text :: "database \<Rightarrow> string" where
  "dump_text d = dump_lines kv_line (kv_store d) @ dump_lines list_line (list_store d)
     @ dump_lines hash_line (hash_store d)"

type_synonym disk = "string \<rightharpoonup> string"

definition dump :: "bool \<Rightarrow> string \<Rightarrow> database \<Rightarrow> disk \<Rightarrow> bool \<times> disk" where
  "dump can_write filename d disk =
     (if can_write then (True, disk(filename \<mapsto> dump_text d)) else (False, disk))"

subsection \<open>Load\<close>

text \<open>\<open>iss >> token\<close> into an empty string: when nothing is left the string stays empty and
  the stream has failed, so later extractions give nothing either.\<close>

definition stream_word :: "string \<Rightarrow> string \<times> string" where
  "stream_word s = (case next_token s of None \<Rightarrow> ([], []) | Some p \<Rightarrow> p)"

definition load_kv :: "string \<Rightarrow> database \<Rightarrow> database" where
  "load_kv rest d =
     (let (key, r1) = stream_word rest; (val, r2) = stream_word r1
      in d\<lparr>kv_store := um_set key val (kv_store d)\<rparr>)"

definition load_list :: "string \<Rightarrow> database \<Rightarrow> database" where
  "load_list rest d =
     (let (key, r) = stream_word rest in d\<lparr>list_store := um_set key (tokens_of r) (list_store d)\<rparr>)"

text \<open>A pair is split at its first colon; a pair without one is ignored.\<close>

definition load_pair :: "string \<Rightarrow> string umap \<Rightarrow> string umap" where
  "load_pair pair hash =
     (let pos = str_find pair '':'' 0 in
      if pos \<noteq> npos then um_set (take pos pair) (drop (pos + 1) pair) hash else hash)"

fun load_pairs :: "string list \<Rightarrow> string umap \<Rightarrow> string umap" where
  "load_pairs [] hash = hash"
| "load_pairs (pair # ps) hash = load_pairs ps (load_pair pair hash)"

definition load_hash :: "string \<Rightarrow> database \<Rightarrow> database" where
  "load_hash rest d =
     (let (key, r) = stream_word rest
      in d\<lparr>hash_store := um_set key (load_pairs (tokens_of r) []) (hash_store d)\<rparr>)"

text \<open>One round of the reading loop.  \<open>char type; iss >> type\<close> leaves \<open>type\<close>
  uninitialised when the line is blank, and the comparison then reads it.\<close>

definition load_line :: "string \<Rightarrow> database \<Rightarrow> database res" where
  "load_line line d =
     (case dropWhile isspace line of
        [] \<Rightarrow> Inl Undefined_Behaviour
      | c # rest \<Rightarrow>
          if c = CHR ''K'' then Inr (load_kv rest d)
          else if c = CHR ''L'' then Inr (load_list rest d)
          else if c = CHR ''H'' then Inr (load_hash rest d)
          else Inr d)"

fun each_line :: "(string \<Rightarrow> 'd \<Rightarrow> 'd res) \<Rightarrow> string list \<Rightarrow> 'd \<Rightarrow> 'd res" where
  "each_line f [] d = Inr d"
| "each_line f (l # ls) d = rbind (f l d) (each_line f ls)"

definition load :: "string \<Rightarrow> disk \<Rightarrow> database \<Rightarrow> (bool \<times> database) res" where
  "load filename disk d =
     (case disk filename of
        None \<Rightarrow> Inr (False, d)
      | Some txt \<Rightarrow>
          rbind (each_line load_line (getlines txt)
              (d\<lparr>kv_store := [], list_store := [], hash_store := []\<rparr>))
            (\<lambda>d'. Inr (True, d')))"

subsection \<open>Entries the text format can carry\<close>

definition good_kv :: "string \<times> string \<Rightarrow> bool" where
  "good_kv kv \<longleftrightarrow> (case kv of (k, v) \<Rightarrow> is_token k \<and> no_space v)"

definition good_list :: "string \<times> string list \<Rightarrow> bool" where
  "good_list kv \<longleftrightarrow> (case kv of (k, items) \<Rightarrow> is_token k \<and> list_all is_token items)"

definition good_field :: "string \<times> string \<Rightarrow> bool" where
  "good_field fv \<longleftrightarrow> (case fv of (f, v) \<Rightarrow> no_space f \<and> no_space v \<and> CHR '':'' \<notin> set f
     \<and> length f < npos)"

definition good_hash :: "string \<times> string umap \<Rightarrow> bool" where
  "good_hash kv \<longleftrightarrow> (case kv of (k, h) \<Rightarrow> is_token k \<and> um_ok h \<and> list_all good_field h)"

definition dumpable :: "database \<Rightarrow> bool" where
  "dumpable d \<longleftrightarrow> list_all good_kv (kv_store d) \<and> list_all good_list (list_store d)
     \<and> list_all good_hash (hash_store d)"

subsection \<open>Line codecs\<close>

text \<open>The contract between a line printer and the line reader, and what it gives for a
  whole section of the file.\<close>

locale line_codec =
  fixes line :: "'e \<Rightarrow> string"
    and read :: "string \<Rightarrow> 'd \<Rightarrow> 'd res"
    and enter :: "'e \<Rightarrow> 'd \<Rightarrow> 'd"
    and good :: "'e \<Rightarrow> bool"
  assumes line_no_LF: "good e \<Longrightarrow> LF \<notin> set (line e)"
    and read_line: "good e \<Longrightarrow> read (line e) d = Inr (enter e d)"
begin

lemma read_section:
  "list_all good es \<Longrightarrow>
     each_line read (getlines (dump_lines line es @ s)) d =
     each_line read (getlines s) (foldl (\<lambda>d e. enter e d) d es)"
proof (induction es arbitrary: d)
  case (Cons e es)
  then have "getlines (dump_lines line (e # es) @ s) = line e # getlines (dump_lines line es @ s)"
    using getlines_line [OF line_no_LF, of e "dump_lines line es @ s"] by (simp add: dump_lines_def)
  with Cons show ?case by (simp add: read_line)
qed (simp add: dump_lines_def)

end

lemma no_space_append [simp]: "no_space (a @ b) \<longleftrightarrow> no_space a \<and> no_space b"
  by (simp add: no_space_def)

lemma no_space_simps [simp]: "no_space []" "no_space (c # s) \<longleftrightarrow> \<not> isspace c \<and> no_space s"
  by (simp_all add: no_space_def)

lemma is_token_no_space: "is_token s \<Longrightarrow> no_space s"
  by (simp add: is_token_def)

lemma space_blank [simp]: "isspace (CHR '' '')"
  by (simp add: isspace_def)

lemma type_chars [simp]:
  "\<not> isspace (CHR ''K'')" "\<not> isspace (CHR ''L'')" "\<not> isspace (CHR ''H'')" "\<not> isspace (CHR '':'')"
  by (simp_all add: isspace_def)

lemma no_LF_blank [simp]: "LF \<noteq> CHR '' ''" "LF \<noteq> CHR ''K''" "LF \<noteq> CHR ''L''" "LF \<noteq> CHR ''H''"
    "LF \<noteq> CHR '':''"
  by (simp_all add: LF_def)

lemma stream_word_word:
  "is_token w \<Longrightarrow> rest = [] \<or> isspace (hd rest) \<Longrightarrow> stream_word (w @ rest) = (w, rest)"
  by (simp add: stream_word_def next_token_word)

lemma stream_word_space [simp]: "isspace c \<Longrightarrow> stream_word (c # s) = stream_word s"
  by (simp add: stream_word_def)

lemma stream_word_value: "no_space v \<Longrightarrow> fst (stream_word v) = v"
  using stream_word_word [of v "[]"] by (cases "v = []") (auto simp: stream_word_def is_token_def)

lemma load_kv_line:
  assumes "good_kv e"
  shows "load_line (kv_line e) d = Inr (d\<lparr>kv_store := um_set (fst e) (snd e) (kv_store d)\<rparr>)"
proof -
  obtain k v where e: "e = (k, v)" by (cases e)
  have "stream_word (k @ '' '' @ v) = (k, '' '' @ v)"
    using assms by (intro stream_word_word) (auto simp: e good_kv_def)
  moreover have "fst (stream_word v) = v"
    using assms by (intro stream_word_value) (auto simp: e good_kv_def)
  ultimately show ?thesis
    by (simp add: e load_line_def kv_line_def load_kv_def split_beta)
qed

lemma items_start:
  "concat (map (\<lambda>x. '' '' @ f x) xs) = [] \<or> isspace (hd (concat (map (\<lambda>x. '' '' @ f x) xs)))"
  by (cases xs) simp_all

lemma tokens_of_items:
  "list_all is_token items \<Longrightarrow> tokens_of (concat (map (\<lambda>item. '' '' @ item) items)) = items"
proof (induction items)
  case (Cons i items)
  have "tokens_of (i @ concat (map (\<lambda>item. '' '' @ item) items)) =
      i # tokens_of (concat (map (\<lambda>item. '' '' @ item) items))"
    using Cons.prems items_start [of "\<lambda>item. item"] by (intro tokens_of_word) simp_all
  with Cons show ?case by simp
qed simp

lemma stream_word_key_items:
  "is_token k \<Longrightarrow> stream_word (k @ concat (map (\<lambda>x. '' '' @ f x) xs)) =
     (k, concat (map (\<lambda>x. '' '' @ f x) xs))"
  by (rule stream_word_word) (simp_all only: items_start)

lemma load_list_line:
  assumes "good_list e"
  shows "load_line (list_line e) d = Inr (d\<lparr>list_store := um_set (fst e) (snd e) (list_store d)\<rparr>)"
proof -
  obtain k items where e: "e = (k, items)" by (cases e)
  have k: "is_token k" and i: "list_all is_token items" using assms by (auto simp: e good_list_def)
  show ?thesis
    using stream_word_key_items [OF k, of "\<lambda>x. x" items] tokens_of_items [OF i]
    by (simp add: e load_line_def list_line_def load_list_def)
qed

lemma load_pair_good:
  assumes "good_field (f, v)"
  shows "load_pair (f @ '':'' @ v) h = um_set f v h"
proof -
  have "index_of '':'' (f @ '':'' @ v) = Some (length f)"
    using assms index_of_singleton [of "CHR '':''" f v] by (simp add: good_field_def)
  then have "str_find (f @ '':'' @ v) '':'' 0 = length f"
    by (simp add: str_find_def)
  then show ?thesis using assms by (simp add: load_pair_def good_field_def Let_def)
qed

lemma good_field_token: "good_field (f, v) \<Longrightarrow> is_token (f @ '':'' @ v)"
  by (simp add: good_field_def is_token_def)

lemma load_pairs_fields:
  "list_all good_field kvs \<Longrightarrow>
     load_pairs (map (\<lambda>(f, v). f @ '':'' @ v) kvs) h = foldl (\<lambda>m (f, v). um_set f v m) h kvs"
  by (induction kvs arbitrary: h) (auto simp: load_pair_good [simplified])

lemma tokens_of_fields:
  assumes "list_all good_field kvs"
  shows "tokens_of (concat (map (\<lambda>(f, v). '' '' @ f @ '':'' @ v) kvs)) =
    map (\<lambda>(f, v). f @ '':'' @ v) kvs"
proof -
  have "concat (map (\<lambda>(f, v). '' '' @ f @ '':'' @ v) kvs) =
      concat (map (\<lambda>item. '' '' @ item) (map (\<lambda>(f, v). f @ '':'' @ v) kvs))"
    by (induction kvs) auto
  moreover have "list_all is_token (map (\<lambda>(f, v). f @ '':'' @ v) kvs)"
    using assms good_field_token by (induction kvs) auto
  ultimately show ?thesis by (metis tokens_of_items)
qed

lemma load_hash_line:
  assumes "good_hash e"
  shows "load_line (hash_line e) d = Inr (d\<lparr>hash_store := um_set (fst e) (snd e) (hash_store d)\<rparr>)"
proof -
  obtain k h where e: "e = (k, h)" by (cases e)
  have k: "is_token k" and g: "list_all good_field h" and u: "um_ok h"
    using assms by (auto simp: e good_hash_def)
  have "stream_word (k @ concat (map (\<lambda>(f, v). '' '' @ f @ '':'' @ v) h)) =
      (k, concat (map (\<lambda>(f, v). '' '' @ f @ '':'' @ v) h))"
    using stream_word_key_items [OF k, of "\<lambda>(f, v). f @ '':'' @ v" h]
    by (simp add: case_prod_unfold)
  moreover have "load_pairs (map (\<lambda>(f, v). f @ '':'' @ v) h) [] = h"
    using um_set_fold_map [of "[]" h] u by (simp only: load_pairs_fields [OF g] append_Nil)
  ultimately show ?thesis
    using tokens_of_fields [OF g] by (simp add: e load_line_def hash_line_def load_hash_def)
qed

lemma no_LF_concat: "LF \<notin> set (concat xss) \<longleftrightarrow> (\<forall>xs \<in> set xss. LF \<notin> set xs)"
  by auto

lemma good_kv_no_LF: "good_kv e \<Longrightarrow> LF \<notin> set (kv_line e)"
  by (auto simp: good_kv_def kv_line_def is_token_def dest: no_space_no_LF split: prod.splits)

lemma good_list_no_LF: "good_list e \<Longrightarrow> LF \<notin> set (list_line e)"
  by (auto simp: good_list_def list_line_def is_token_def list_all_iff dest: no_space_no_LF
      split: prod.splits)

lemma good_hash_no_LF: "good_hash e \<Longrightarrow> LF \<notin> set (hash_line e)"
  by (fastforce simp: good_hash_def good_field_def hash_line_def is_token_def list_all_iff
      dest: no_space_no_LF split: prod.splits)

interpretation kv_codec:
  line_codec kv_line load_line "\<lambda>e d. d\<lparr>kv_store := um_set (fst e) (snd e) (kv_store d)\<rparr>" good_kv
  by unfold_locales (simp_all add: good_kv_no_LF load_kv_line)

interpretation list_codec:
  line_codec list_line load_line "\<lambda>e d. d\<lparr>list_store := um_set (fst e) (snd e) (list_store d)\<rparr>"
    good_list
  by unfold_locales (simp_all add: good_list_no_LF load_list_line)

interpretation hash_codec:
  line_codec hash_line load_line "\<lambda>e d. d\<lparr>hash_store := um_set (fst e) (snd e) (hash_store d)\<rparr>"
    good_hash
  by unfold_locales (simp_all add: good_hash_no_LF load_hash_line)

subsection \<open>Round trip\<close>

lemma enter_kv_all:
  "um_ok (kv_store d @ es) \<Longrightarrow>
     foldl (\<lambda>d e. d\<lparr>kv_store := um_set (fst e) (snd e) (kv_store d)\<rparr>) d es =
     d\<lparr>kv_store := kv_store d @ es\<rparr>"
proof -
  assume "um_ok (kv_store d @ es)"
  moreover have "foldl (\<lambda>d e. d\<lparr>kv_store := um_set (fst e) (snd e) (kv_store d)\<rparr>) d es =
      d\<lparr>kv_store := foldl (\<lambda>m (k, v). um_set k v m) (kv_store d) es\<rparr>"
    by (induction es arbitrary: d) (auto simp: case_prod_unfold)
  ultimately show ?thesis by (simp add: um_set_fold_map)
qed

lemma enter_list_all:
  "um_ok (list_store d @ es) \<Longrightarrow>
     foldl (\<lambda>d e. d\<lparr>list_store := um_set (fst e) (snd e) (list_store d)\<rparr>) d es =
     d\<lparr>list_store := list_store d @ es\<rparr>"
proof -
  assume "um_ok (list_store d @ es)"
  moreover have "foldl (\<lambda>d e. d\<lparr>list_store := um_set (fst e) (snd e) (list_store d)\<rparr>) d es =
      d\<lparr>list_store := foldl (\<lambda>m (k, v). um_set k v m) (list_store d) es\<rparr>"
    by (induction es arbitrary: d) (auto simp: case_prod_unfold)
  ultimately show ?thesis by (simp add: um_set_fold_map)
qed

lemma enter_hash_all:
  "um_ok (hash_store d @ es) \<Longrightarrow>
     foldl (\<lambda>d e. d\<lparr>hash_store := um_set (fst e) (snd e) (hash_store d)\<rparr>) d es =
     d\<lparr>hash_store := hash_store d @ es\<rparr>"
proof -
  assume "um_ok (hash_store d @ es)"
  moreover have "foldl (\<lambda>d e. d\<lparr>hash_store := um_set (fst e) (snd e) (hash_store d)\<rparr>) d es =
      d\<lparr>hash_store := foldl (\<lambda>m (k, v). um_set k v m) (hash_store d) es\<rparr>"
    by (induction es arbitrary: d) (auto simp: case_prod_unfold)
  ultimately show ?thesis by (simp add: um_set_fold_map)
qed

text \<open>Loading what \<open>dump\<close> wrote rebuilds the three stores and leaves the expiry map of
  the database it is loaded into.\<close>

lemma load_dump_text:
  assumes "db_ok d" "dumpable d" "disk filename = Some (dump_text d)"
  shows "load filename disk d0 = Inr (True, d0\<lparr>kv_store := kv_store d, list_store := list_store d,
    hash_store := hash_store d\<rparr>)"
proof -
  let ?e = "d0\<lparr>kv_store := [], list_store := [], hash_store := []\<rparr>"
  let ?kl = "?e\<lparr>kv_store := kv_store d\<rparr>"
  let ?ll = "?kl\<lparr>list_store := list_store d\<rparr>"
  note g = assms(2) [unfolded dumpable_def] and u = db_okD [OF assms(1)]
  have "each_line load_line (getlines (dump_text d)) ?e =
      each_line load_line (getlines (dump_lines list_line (list_store d)
        @ dump_lines hash_line (hash_store d))) ?kl"
    unfolding dump_text_def
    using g u by (subst kv_codec.read_section) (simp_all add: enter_kv_all)
  also have "\<dots> = each_line load_line (getlines (dump_lines hash_line (hash_store d) @ [])) ?ll"
    using g u by (subst list_codec.read_section) (simp_all add: enter_list_all)
  also have "\<dots> = Inr (?ll\<lparr>hash_store := hash_store d\<rparr>)"
    using g u by (subst hash_codec.read_section) (simp_all add: enter_hash_all)
  finally show ?thesis by (simp add: load_def assms(3))
qed

lemma db_ok_load_kv: "db_ok d \<Longrightarrow> db_ok (load_kv r d)"
  by (simp add: load_kv_def db_ok_kv um_ok_set db_okD split: prod.splits)

lemma db_ok_load_list: "db_ok d \<Longrightarrow> db_ok (load_list r d)"
  by (simp add: load_list_def db_ok_list um_ok_set db_okD split: prod.splits)

lemma um_ok_load_pairs: "um_ok h \<Longrightarrow> um_ok (load_pairs ps h)"
  by (induction ps arbitrary: h) (auto simp: load_pair_def Let_def um_ok_set)

lemma db_ok_load_hash: "db_ok d \<Longrightarrow> db_ok (load_hash r d)"
  using db_ok_hash_write [unfolded hash_write_def]
  by (simp add: load_hash_def um_ok_load_pairs split: prod.splits)

lemma db_ok_load_line: "db_ok d \<Longrightarrow> load_line l d = Inr d' \<Longrightarrow> db_ok d'"
  by (auto simp: load_line_def db_ok_load_kv db_ok_load_list db_ok_load_hash
      split: list.splits if_splits)

lemma db_ok_each_line: "db_ok d \<Longrightarrow> each_line load_line ls d = Inr d' \<Longrightarrow> db_ok d'"
  by (induction ls arbitrary: d) (auto dest: db_ok_load_line)

lemma db_ok_load: "db_ok d \<Longrightarrow> load fn disk d = Inr (b, d') \<Longrightarrow> db_ok d'"
proof -
  assume d: "db_ok d" and l: "load fn disk d = Inr (b, d')"
  have "db_ok (d\<lparr>kv_store := [], list_store := [], hash_store := []\<rparr>)"
    using db_ok_flushAll [OF d] by (simp add: flushAll_def)
  with d l show ?thesis by (auto simp: load_def dest: db_ok_each_line split: option.splits)
qed

subsection \<open>Property\<close>



end
