(* ===== verification/Handler_Invariant.thy ===== *)
theory Handler_Invariant
  imports Command_Handler Db_Persistence
begin

text \<open>
  What every command keeps.  The locale \<open>db_invariant\<close> is the contract between the
  command handler and an invariant of the database: a predicate on states that each
  database operation the handler calls keeps, given that the arguments are admissible
  tokens.  Two invariants are supplied by the model: uniqueness of the keys
  (\<open>db_ok\<close>), for arbitrary tokens, and \<open>storable\<close>, the states the dump format can
  carry, for tokens without white space and colons.
\<close>

subsection \<open>The contract\<close>

locale db_invariant =
  fixes I :: "database \<Rightarrow> bool"
    and T :: "string \<Rightarrow> bool"
  assumes inv_flushAll: "I d \<Longrightarrow> I (snd (flushAll d))"
    and inv_set: "I d \<Longrightarrow> T k \<Longrightarrow> T v \<Longrightarrow> I (db_set k v d)"
    and inv_del: "I d \<Longrightarrow> I (snd (del k d))"
    and inv_expire: "I d \<Longrightarrow> expire now k s d = Inr (b, d') \<Longrightarrow> I d'"
    and inv_rename: "I d \<Longrightarrow> T k \<Longrightarrow> T l \<Longrightarrow> I (snd (rename k l d))"
    and inv_lset: "I d \<Longrightarrow> T k \<Longrightarrow> T v \<Longrightarrow> I (snd (lset k i v d))"
    and inv_list_ref: "I d \<Longrightarrow> T k \<Longrightarrow> I (snd (list_ref k d))"
    and inv_lpush: "I d \<Longrightarrow> T k \<Longrightarrow> list_all T vs \<Longrightarrow> I (snd (lpush k vs d))"
    and inv_rpush: "I d \<Longrightarrow> T k \<Longrightarrow> list_all T vs \<Longrightarrow> I (snd (rpush k vs d))"
    and inv_lpop: "I d \<Longrightarrow> T k \<Longrightarrow> I (snd (lpop k d))"
    and inv_rpop: "I d \<Longrightarrow> T k \<Longrightarrow> I (snd (rpop k d))"
    and inv_lrem: "I d \<Longrightarrow> lrem k c v d = Inr (n, d') \<Longrightarrow> I d'"
    and inv_hash_ref: "I d \<Longrightarrow> T k \<Longrightarrow> I (snd (hash_ref k d))"
    and inv_hset: "I d \<Longrightarrow> T k \<Longrightarrow> T f \<Longrightarrow> T v \<Longrightarrow> I (snd (hset k f v d))"
    and inv_hdel: "I d \<Longrightarrow> I (snd (hdel k f d))"
begin

lemma inv_reads:
  assumes "I d" "T k"
  shows "I (snd (lget k d))" "I (snd (llen k d))" "I (snd (lindex k i d))"
    "I (snd (hlen k d))" "I (snd (hkeys k d))" "I (snd (hvals k d))" "I (snd (hgetall k d))"
  using inv_list_ref [OF assms] inv_hash_ref [OF assms]
  by (simp_all add: lget_def llen_def lindex_def hlen_def hkeys_def hvals_def hgetall_def Let_def
      case_prod_unfold)

lemma inv_hmset:
  "I d \<Longrightarrow> T k \<Longrightarrow> list_all T ts \<Longrightarrow> on_ok I (hmset_loop k ts d)"
  by (induction k ts d rule: hmset_loop.induct) (auto simp: inv_hset)

lemma token_at: "list_all T (tl ts) \<Longrightarrow> i < length ts \<Longrightarrow> 0 < i \<Longrightarrow> T (ts ! i)"
  by (cases ts) (auto simp: list_all_length nth_Cons')

lemma tokens_from: "list_all T (tl ts) \<Longrightarrow> list_all T (drop 2 ts)"
  by (cases ts; cases "tl ts") auto

lemma dispatch_inv:
  assumes d: "I (wdb w)" and ts: "list_all T (tl tokens)"
  shows "on_ok (\<lambda>(r, w'). I (wdb w')) (dispatch e cmd tokens w)"
proof (rule dispatch_all)
  note t = token_at [OF ts]
  show "on_ok (\<lambda>(r, w'). I (wdb w')) (cmd_EXPIRE e cmd tokens w)"
    using d by (auto simp: cmd_EXPIRE_def dest: inv_expire intro!: on_okI split: if_splits)
  show "on_ok (\<lambda>(r, w'). I (wdb w')) (cmd_LSET cmd tokens w)"
    using d t by (auto simp: cmd_LSET_def vec_at_def case_prod_unfold inv_lset intro!: on_okI)
  show "on_ok (\<lambda>(r, w'). I (wdb w')) (cmd_LINDEX cmd tokens w)"
    using d t by (auto simp: cmd_LINDEX_def case_prod_unfold inv_reads intro!: on_okI)
  show "on_ok (\<lambda>(r, w'). I (wdb w')) (cmd_LREM cmd tokens w)"
    using d by (auto simp: cmd_LREM_def dest: inv_lrem intro!: on_okI split: if_splits)
  show "on_ok (\<lambda>(r, w'). I (wdb w')) (cmd_HMSET cmd tokens w)"
    using inv_hmset [OF d _ tokens_from [OF ts]] d t by (simp add: cmd_HMSET_def)
qed (insert d token_at [OF ts] tokens_from [OF ts],
    simp_all add: cmd_defs case_prod_unfold vec_at_def on_ok_def
      inv_reads inv_flushAll inv_set inv_del inv_rename inv_lset inv_lpush inv_rpush inv_lpop
      inv_rpop inv_hset inv_hdel)

lemma processCommand_inv:
  assumes "I (wdb w)" "parseRespCommand line = Inr tokens" "list_all T (tl tokens)"
    "processCommand e line w = Inr (r, w')"
  shows "I (wdb w')"
  using assms dispatch_inv [OF assms(1,3)]
  by (auto simp: processCommand_def Let_def on_ok_def split: if_splits prod.splits)

end

subsection \<open>Unique keys\<close>

interpretation unique_keys: db_invariant db_ok "\<lambda>_. True"
  by unfold_locales
    (auto simp: db_ok_flushAll db_ok_set db_ok_del db_ok_rename db_ok_list_ops db_ok_list_ref
      db_ok_hash_ref hash_ref_eq db_ok_hash_ops dest: db_ok_expire db_ok_lrem)

subsection \<open>Storable states\<close>

definition storable :: "database \<Rightarrow> bool" where
  "storable d \<longleftrightarrow> db_ok d \<and> dumpable d"

definition plain_token :: "string \<Rightarrow> bool" where
  "plain_token t \<longleftrightarrow> is_token t \<and> CHR '':'' \<notin> set t \<and> length t < npos"

lemma list_all_um_set: "list_all P m \<Longrightarrow> P (k, v) \<Longrightarrow> list_all P (um_set k v m)"
  by (induction m) (auto simp: um_set_def)

lemma list_all_um_erase: "list_all P m \<Longrightarrow> list_all P (um_erase k m)"
  by (auto simp: um_erase_def AList.delete_eq list_all_iff)

lemma list_all_um_index: "list_all P m \<Longrightarrow> P (k, d) \<Longrightarrow> list_all P (snd (um_index d k m))"
  by (simp add: um_index_def list_all_um_set split: option.splits)

lemma list_all_find: "list_all P m \<Longrightarrow> um_find m k = Some v \<Longrightarrow> P (k, v)"
  by (auto simp: list_all_iff um_find_def dest: map_of_SomeD)

lemmas list_all_um = list_all_um_set list_all_um_erase list_all_um_index

lemma list_all_move:
  assumes "list_all P m" "\<And>v. P (k, v) \<Longrightarrow> P (l, v)"
  shows "list_all P (snd (move_key k l m))"
  using assms by (auto simp: move_key_def intro!: list_all_um dest: list_all_find split: option.splits)

lemma db_ok_move_hash:
  "db_ok d \<Longrightarrow> list_all good_hash (hash_store d) \<Longrightarrow> is_token l \<Longrightarrow>
     list_all good_hash (snd (move_key k l (hash_store d)))"
  by (rule list_all_move) (auto simp: good_hash_def)

lemma plain_token_good:
  assumes "plain_token t"
  shows "is_token t" "no_space t" "CHR '':'' \<notin> set t" "length t < npos"
  using assms by (simp_all add: plain_token_def is_token_def)

lemma plain_tokens_good: "list_all plain_token ts \<Longrightarrow> list_all is_token ts"
  by (auto simp: list_all_iff plain_token_def)

lemma dumpable_updates:
  "dumpable d \<Longrightarrow> list_all good_kv m \<Longrightarrow> dumpable (d\<lparr>kv_store := m\<rparr>)"
  "dumpable d \<Longrightarrow> list_all good_list l \<Longrightarrow> dumpable (d\<lparr>list_store := l\<rparr>)"
  "dumpable d \<Longrightarrow> list_all good_hash h \<Longrightarrow> dumpable (d\<lparr>hash_store := h\<rparr>)"
  "dumpable d \<Longrightarrow> dumpable (d\<lparr>expirey_map := x\<rparr>)"
  by (simp_all add: dumpable_def)

lemma dumpable_list_at: "dumpable d \<Longrightarrow> list_all is_token (list_at k d)"
  by (auto simp: dumpable_def list_at_def good_list_def dest: list_all_find split: option.splits)

lemma dumpable_hash_at: "dumpable d \<Longrightarrow> list_all good_field (hash_at k d)"
  by (auto simp: dumpable_def hash_at_def good_hash_def dest: list_all_find split: option.splits)

lemma dumpable_list_write:
  "dumpable d \<Longrightarrow> is_token k \<Longrightarrow> list_all is_token l \<Longrightarrow> dumpable (list_write k l d)"
  unfolding list_write_def
  by (rule dumpable_updates) (auto simp: dumpable_def good_list_def intro: list_all_um_set)

lemma dumpable_hash_write:
  "dumpable d \<Longrightarrow> is_token k \<Longrightarrow> um_ok h \<Longrightarrow> list_all good_field h \<Longrightarrow> dumpable (hash_write k h d)"
  unfolding hash_write_def
  by (rule dumpable_updates) (auto simp: dumpable_def good_hash_def intro: list_all_um_set)

lemma dumpable_list_ref: "dumpable d \<Longrightarrow> is_token k \<Longrightarrow> dumpable (snd (list_ref k d))"
  unfolding list_ref_snd
  by (rule dumpable_updates) (auto simp: dumpable_def good_list_def intro: list_all_um_index)

lemma dumpable_hash_ref: "dumpable d \<Longrightarrow> is_token k \<Longrightarrow> dumpable (snd (hash_ref k d))"
  unfolding hash_ref_eq snd_conv
  by (rule dumpable_updates) (auto simp: dumpable_def good_hash_def intro: list_all_um_index)

lemma list_all_sub: "list_all P xs \<Longrightarrow> set ys \<subseteq> set xs \<Longrightarrow> list_all P ys"
  by (auto simp: list_all_iff)

lemma list_all_update: "list_all P xs \<Longrightarrow> P v \<Longrightarrow> list_all P (xs[i := v])"
  by (auto simp: list_all_iff dest!: set_update_subset_insert [THEN subsetD])

lemma erase_at_subset: "set (erase_at i xs) \<subseteq> set xs"
  by (auto simp: erase_at_def dest: in_set_takeD in_set_dropD)

lemma lrem_loops_subset:
  "set (fst (lrem_fwd v xs c)) \<subseteq> set xs" "set (fst (lrem_bwd i v ys c r)) \<subseteq> set ys"
proof -
  show "set (fst (lrem_fwd v xs c)) \<subseteq> set xs"
    by (induction v xs c rule: lrem_fwd.induct) (auto split: prod.splits)
  show "set (fst (lrem_bwd i v ys c r)) \<subseteq> set ys"
    by (induction i v ys c r rule: lrem_bwd.induct) (auto dest: erase_at_subset [THEN subsetD])
qed

lemma dumpable_lrem:
  assumes "dumpable d" "lrem k c v d = Inr (n, d')"
  shows "dumpable d'"
proof (cases "um_find (list_store d) k")
  case (Some l)
  then have k: "is_token k" and l: "list_all is_token l"
    using assms(1) list_all_find [of good_list "list_store d" k l]
    by (auto simp: dumpable_def good_list_def)
  then show ?thesis
    using assms Some
    by (auto simp: lrem_def split: if_splits prod.splits
        intro!: dumpable_list_write list_all_sub [OF l] dest: lrem_loops_subset [THEN subsetD])
       (metis fst_conv lrem_loops_subset subsetD)+
qed (use assms in \<open>auto simp: lrem_def\<close>)

lemma dumpable_hash_found:
  "dumpable d \<Longrightarrow> um_find (hash_store d) k = Some h \<Longrightarrow> is_token k \<and> um_ok h \<and> list_all good_field h"
  using list_all_find [of good_hash "hash_store d" k h] by (auto simp: dumpable_def good_hash_def)

lemma dumpable_hdel: "dumpable d \<Longrightarrow> dumpable (snd (hdel k f d))"
  using dumpable_hash_found [of d k]
  by (auto simp: hdel_def intro!: dumpable_hash_write um_ok_erase list_all_um_erase split: option.splits)

lemma dumpable_hset:
  "dumpable d \<Longrightarrow> db_ok d \<Longrightarrow> is_token k \<Longrightarrow> good_field (f, v) \<Longrightarrow> dumpable (snd (hset k f v d))"
  using dumpable_hash_at [of d k] dumpable_hash_ref [of d k] um_ok_hash_at [of d k]
  by (auto simp: hset_def hash_ref_eq intro!: dumpable_hash_write um_ok_set list_all_um_set)

lemma dumpable_rename:
  assumes "dumpable d" "is_token k" "is_token l"
  shows "dumpable (snd (rename k l d))"
proof -
  have "list_all good_kv (snd (move_key k l (kv_store d)))"
    "list_all good_list (snd (move_key k l (list_store d)))"
    "list_all good_hash (snd (move_key k l (hash_store d)))"
    using assms
    by (auto intro!: list_all_move simp: dumpable_def good_kv_def good_list_def good_hash_def)
  then show ?thesis by (simp add: rename_def dumpable_def case_prod_unfold Let_def)
qed

lemma dumpable_del: "dumpable d \<Longrightarrow> dumpable (snd (del k d))"
  by (simp add: dumpable_def del_def list_all_um)

lemma dumpable_list_ops:
  assumes d: "dumpable d" and k: "is_token k"
  shows "is_token v \<Longrightarrow> dumpable (snd (lset k i v d))"
    "list_all is_token vs \<Longrightarrow> dumpable (snd (lpush k vs d))"
    "list_all is_token vs \<Longrightarrow> dumpable (snd (rpush k vs d))"
    "dumpable (snd (lpop k d))" "dumpable (snd (rpop k d))"
proof -
  note r = dumpable_list_ref [OF d k, unfolded list_ref_snd]
  note l = dumpable_list_at [OF d, of k]
  note wr = dumpable_list_write [OF r k]
  show "is_token v \<Longrightarrow> dumpable (snd (lset k i v d))"
    using r l by (auto simp: lset_def list_ref_eq intro!: wr list_all_update)
  show "list_all is_token vs \<Longrightarrow> dumpable (snd (lpush k vs d))"
    using l by (auto simp: lpush_def list_ref_eq insert_front_eq intro!: wr)
  show "list_all is_token vs \<Longrightarrow> dumpable (snd (rpush k vs d))"
    using l by (auto simp: rpush_def list_ref_eq insert_back_eq intro!: wr)
  show "dumpable (snd (lpop k d))"
    using r l by (auto simp: lpop_def list_ref_eq intro!: wr split: list.splits)
  show "dumpable (snd (rpop k d))"
    using r list_all_sub [OF l, of "butlast (list_at k d)"]
    by (auto simp: rpop_def list_ref_eq intro!: wr dest: in_set_butlastD)
qed

lemma dumpable_others:
  "dumpable d \<Longrightarrow> dumpable (snd (flushAll d))"
  "dumpable d \<Longrightarrow> is_token k \<Longrightarrow> no_space v \<Longrightarrow> dumpable (db_set k v d)"
  "dumpable d \<Longrightarrow> expire now k s d = Inr (b, d') \<Longrightarrow> dumpable d'"
  by (auto simp: dumpable_def flushAll_def db_set_def good_kv_def expire_def list_all_um split: if_splits)

interpretation storable_states: db_invariant storable plain_token
  by unfold_locales
    (auto simp: storable_def dumpable_others dumpable_del dumpable_rename dumpable_list_ops
      dumpable_list_ref dumpable_hash_ref dumpable_hdel dumpable_hset good_field_def
      plain_token_good plain_tokens_good
      unique_keys.inv_flushAll unique_keys.inv_set unique_keys.inv_del unique_keys.inv_rename
      unique_keys.inv_lset unique_keys.inv_list_ref unique_keys.inv_lpush unique_keys.inv_rpush
      unique_keys.inv_lpop unique_keys.inv_rpop unique_keys.inv_hash_ref unique_keys.inv_hset
      unique_keys.inv_hdel list_all_iff
      dest: unique_keys.inv_expire unique_keys.inv_lrem dumpable_lrem dumpable_others(3))

end
