(* ===== verification/Session.thy ===== *)
theory Session
  imports Client Handler_Accounting Handler_Invariant
begin

text \<open>
  Client and server together: what a command typed at the prompt of \<open>src/client/main.cpp\<close>
  shows, when the request and the reply each fit in one \<open>recv\<close> of 4095 bytes.  The
  second part says what the commands counted as reads leave alone.
\<close>

subsection \<open>One exchange\<close>

text \<open>The answer of a server in state \<open>w\<close> to the bytes it receives, as \<open>Server::run\<close>
  gives it: one \<open>recv\<close>, one call of \<open>processCommand\<close>, one \<open>send\<close>.\<close>

definition serve :: "env \<Rightarrow> string \<Rightarrow> world \<Rightarrow> reply" where
  "serve e bytes w = processCommand e (take 4095 bytes) w"

definition exchange :: "env \<Rightarrow> world \<Rightarrow> string \<Rightarrow> string option" where
  "exchange e w bytes =
     (case serve e bytes w of Inr (r, _) \<Rightarrow> if r = [] then None else Some r | Inl _ \<Rightarrow> None)"

definition request_of :: "string list \<Rightarrow> string" where
  "request_of tokens = send_data (parseSendCommand tokens)"

lemma toupper_comp [simp]: "toupper \<circ> toupper = toupper"
  by (simp add: fun_eq_iff toupper_idem)

lemma small_int_max: "n \<le> 4095 \<Longrightarrow> n \<le> nat INT_MAX"
  by (simp add: INT_MAX_def)

lemma parse_request:
  "length (request_of ts) \<le> 4095 \<Longrightarrow> parseRespCommand (request_of ts) = Inr ts"
  by (simp add: request_of_def send_data_def parseSendCommand_eq parse_resp_array small_int_max)

lemma serve_request:
  assumes "length (request_of (t # ts)) \<le> 4095"
  shows "serve e (request_of (t # ts)) w =
    rbind (dispatch e (map toupper t) (t # ts) w) (\<lambda>(r, w1). Inr (r, w1\<lparr>stats :=
      recordCommandLatency (map toupper t) (seconds_of_ns (elapsed_ns e)) (stats w1)\<rparr>))"
  using assms processCommand_eq [OF parse_request [OF assms]] by (simp add: serve_def)

text \<open>A typed line: its reply is shown as the client's parser reads it.\<close>

lemma typed_line:
  assumes "tokens_of line = t # ts" "toUpper t \<noteq> ''EXIT''" "ts \<noteq> []"
    "length (request_of (toUpper t # ts)) \<le> 4095"
    "dispatch e (toUpper t) (toUpper t # ts) w = Inr (r, w1)"
    "r \<noteq> []" "length r \<le> 4095" "parseResponse r = Inr shown"
  shows "cli_round (exchange e w) line = Inr (Cli_print (shown @ [LF]))"
proof -
  have "serve e (request_of (toUpper t # ts)) w = Inr (r, w1\<lparr>stats :=
      recordCommandLatency (toUpper t) (seconds_of_ns (elapsed_ns e)) (stats w1)\<rparr>)"
    using serve_request [OF assms(4)] assms(5) by (simp add: toUpper_def)
  then have "exchange e w (send_data (parseSendCommand (toUpper t # ts))) = Some r"
    using assms(6) by (simp add: exchange_def request_of_def)
  then show ?thesis
    using assms by (simp add: cli_round_def receiveResponse_def)
qed

lemma typed_get:
  assumes "tokens_of line = [t, k]" "toUpper t = ''GET''" "length (request_of [''GET'', k]) \<le> 4095"
    "db_get k [] (wdb w) = (True, v)" "length (bulk v) \<le> 4095"
  shows "cli_round (exchange e w) line = Inr (Cli_print (v @ [LF]))"
proof (rule typed_line [OF assms(1)])
  show "dispatch e (toUpper t) (toUpper t # [k]) w = Inr (bulk v, succeeded ''GET'' w)"
    using assms by (simp add: dispatch_def cmd_GET_def)
  show "parseResponse (bulk v) = Inr v"
    using parse_bulk [of v "[]"] assms(5) by (simp add: small_int_max)
qed (use assms in \<open>auto simp: bulk_def\<close>)

lemma typed_get_missing:
  assumes "tokens_of line = [t, k]" "toUpper t = ''GET''" "length (request_of [''GET'', k]) \<le> 4095"
    "fst (db_get k [] (wdb w)) = False"
  shows "cli_round (exchange e w) line = Inr (Cli_print (''NULL'' @ [LF]))"
proof (rule typed_line [OF assms(1)])
  show "dispatch e (toUpper t) (toUpper t # [k]) w = Inr (''$-1'' @ CRLF, succeeded ''GET'' w)"
    using assms by (simp add: dispatch_def cmd_GET_def case_prod_unfold)
  show "parseResponse (''$-1'' @ CRLF) = Inr ''NULL''"
    using parse_null [of "[]"] by simp
qed (use assms in auto)

lemma typed_set:
  assumes "tokens_of line = [t, k, v]" "toUpper t = ''SET''"
    "length (request_of [''SET'', k, v]) \<le> 4095"
  shows "cli_round (exchange e w) line = Inr (Cli_print (''OK'' @ [LF]))"
    "\<exists>w'. serve e (request_of [''SET'', k, v]) w = Inr (''+OK'' @ CRLF, w')
        \<and> wdb w' = db_set k v (wdb w)"
proof -
  have d: "dispatch e ''SET'' [''SET'', k, v] w =
      Inr (''+OK'' @ CRLF, succeeded ''SET'' (with_db w (db_set k v (wdb w))))"
    by (simp add: dispatch_def cmd_SET_def)
  show "cli_round (exchange e w) line = Inr (Cli_print (''OK'' @ [LF]))"
  proof (rule typed_line [OF assms(1)])
    show "parseResponse (''+OK'' @ CRLF) = Inr ''OK''"
      using parse_simple [of "''OK''" "[]"] by (simp add: INT_MAX_def)
  qed (use assms d in auto)
  have "map toupper ''SET'' = ''SET''" by (simp add: toupper_def)
  then show "\<exists>w'. serve e (request_of [''SET'', k, v]) w = Inr (''+OK'' @ CRLF, w')
        \<and> wdb w' = db_set k v (wdb w)"
    using serve_request [OF assms(3)] d by simp
qed

lemma typed_lget:
  assumes "tokens_of line = [t, k]" "toUpper t = ''LGET''" "length (request_of [''LGET'', k]) \<le> 4095"
    "length (resp_array (list_at k (wdb w))) \<le> 4095"
  shows "cli_round (exchange e w) line =
    Inr (Cli_print (concat (map (\<lambda>s. s @ '' '') (list_at k (wdb w))) @ [LF]))"
proof (rule typed_line [OF assms(1)])
  show "dispatch e (toUpper t) (toUpper t # [k]) w = Inr (resp_array (list_at k (wdb w)),
      succeeded ''LGET'' (with_db w (snd (lget k (wdb w)))))"
    using assms by (simp add: dispatch_def cmd_LGET_def case_prod_unfold lget_result)
  show "parseResponse (resp_array (list_at k (wdb w))) =
      Inr (concat (map (\<lambda>s. s @ '' '') (list_at k (wdb w))))"
    using parse_array [of "list_at k (wdb w)" "[]"] assms(4) by (simp add: small_int_max)
qed (use assms in \<open>auto simp: resp_array_def\<close>)

subsection \<open>What reads leave alone\<close>

text \<open>The contents of a database as the commands can observe them, keys that denote an
  empty list or hash apart.\<close>

definition same_contents :: "database \<Rightarrow> database \<Rightarrow> bool" where
  "same_contents d d' \<longleftrightarrow> kv_store d' = kv_store d \<and> expirey_map d' = expirey_map d
     \<and> (\<forall>k. list_at k d' = list_at k d) \<and> (\<forall>k. hash_at k d' = hash_at k d)"

lemma same_contents_refl [simp]: "same_contents d d"
  by (simp add: same_contents_def)

lemma same_contents_list_ref: "same_contents d (snd (list_ref k d))"
  by (simp add: same_contents_def list_ref_snd hash_at_def)

lemma same_contents_hash_ref: "same_contents d (snd (hash_ref k d))"
  by (simp add: same_contents_def hash_ref_eq list_at_def)

lemma same_contents_reads:
  "same_contents d (snd (lget k d))" "same_contents d (snd (llen k d))"
  "same_contents d (snd (lindex k i d))" "same_contents d (snd (hlen k d))"
  "same_contents d (snd (hkeys k d))" "same_contents d (snd (hvals k d))"
  "same_contents d (snd (hgetall k d))"
  using same_contents_list_ref [of d k] same_contents_hash_ref [of d k]
  by (simp_all add: lget_def llen_def lindex_def hlen_def hkeys_def hvals_def hgetall_def Let_def
      case_prod_unfold)

lemma write_not_read:
  assumes "classifyCommand cmd = Read"
  shows "cmd \<notin> set writeCommands"
  using assms kinds_disjoint by (auto simp: classifyCommand_def split: if_splits)

lemma read_keeps_contents:
  assumes "classifyCommand cmd = Read"
  shows "on_ok (\<lambda>(r, w'). same_contents (wdb w) (wdb w')) (dispatch e cmd tokens w)"
proof (rule dispatch_all)
  show "on_ok (\<lambda>(r, w'). same_contents (wdb w) (wdb w')) (cmd_LINDEX cmd tokens w)"
    by (auto simp: cmd_LINDEX_def case_prod_unfold same_contents_reads intro!: on_okI)
qed (use write_not_read [OF assms] in
    \<open>auto simp: cmd_defs case_prod_unfold same_contents_reads writeCommands_def\<close>)

lemma request_lengths:
  assumes "length (request_of [''SET'', k, v]) \<le> 4095"
  shows "length (request_of [''GET'', k]) \<le> 4095" "length (bulk v) \<le> 4095"
  using assms
  by (simp_all add: request_of_def send_data_def parseSendCommand_eq resp_array_def bulk_def
      show_nat.simps [of 2] show_nat.simps [of 3] show_nat.simps [of "Suc _"])

subsection \<open>Properties\<close>

text \<open>C9: What a user types and sees: after \<open>SET key value\<close> has been answered with \<open>OK\<close>,
  \<open>GET key\<close> shows the value, through the client's encoder, the server's parser and
  dispatcher, the database, and the client's reply parser, when the request fits one
  read.\<close>

theorem set_then_get:
  assumes "tokens_of line1 = [t1, k, v]" "toUpper t1 = ''SET''"
    "tokens_of line2 = [t2, k]" "toUpper t2 = ''GET''"
    "length (request_of [''SET'', k, v]) \<le> 4095"
  shows "\<exists>w1. serve e1 (request_of [''SET'', k, v]) w = Inr (''+OK'' @ CRLF, w1)
    \<and> cli_round (exchange e1 w) line1 = Inr (Cli_print (''OK'' @ [LF]))
    \<and> cli_round (exchange e2 w1) line2 = Inr (Cli_print (v @ [LF]))"
proof -
  obtain w1 where w1: "serve e1 (request_of [''SET'', k, v]) w = Inr (''+OK'' @ CRLF, w1)"
    "wdb w1 = db_set k v (wdb w)"
    using typed_set(2) [OF assms(1,2,5)] by blast
  have "db_get k [] (wdb w1) = (True, v)" using get_set [of k "[]" k v "wdb w"] w1(2) by simp
  with w1(1) show ?thesis
    using typed_set(1) [OF assms(1,2,5)] typed_get [OF assms(3,4)] request_lengths [OF assms(5)] by blast
qed

theorem set_then_get_witness:
  "\<exists>w1. cli_round (exchange clock0 w1) ''get k'' = Inr (Cli_print (''v'' @ [LF]))"
proof -
  have "tokens_of ''set k v'' = [''set'', ''k'', ''v'']" "tokens_of ''get k'' = [''get'', ''k'']"
    using tokens_of_word [of "''set''" "'' k v''"] tokens_of_word [of "''k''" "'' v''"]
      tokens_of_word [of "''v''" "[]"] tokens_of_word [of "''get''" "'' k''"] tokens_of_word [of "''k''" "[]"]
    by (simp_all add: is_token_def no_space_def isspace_def)
  moreover have "toUpper ''set'' = ''SET''" "toUpper ''get'' = ''GET''"
    by code_simp+
  moreover have "length (request_of [''SET'', ''k'', ''v'']) \<le> 4095"
    by (simp add: request_of_def send_data_def parseSendCommand_eq resp_array_def bulk_def show_nat.simps)
  ultimately show ?thesis using set_then_get [of "''set k v''" "''set''" "''k''" "''v''" "''get k''" "''get''"
        clock0 fresh_world clock0]
    by blast
qed

text \<open>The commands counted as reads do not change what the commands observe: no string,
  list, hash or deadline is different afterwards; at most an empty list or hash appears
  under the key that was read.\<close>

theorem reads_change_nothing:
  assumes "classifyCommand cmd = Read" "dispatch e cmd tokens w = Inr (r, w')"
  shows "same_contents (wdb w) (wdb w')"
  using on_okD [OF read_keeps_contents [OF assms(1)] assms(2)] by simp

theorem reads_change_nothing_witness:
  "\<exists>r w'. dispatch clock0 ''LLEN'' [''LLEN'', ''k''] fresh_world = Inr (r, w')
     \<and> same_contents empty_db (wdb w')"
proof -
  obtain r w' where d: "dispatch clock0 ''LLEN'' [''LLEN'', ''k''] fresh_world = Inr (r, w')"
    by (cases "llen ''k'' empty_db") (simp add: dispatch_def cmd_LLEN_def)
  have "classifyCommand ''LLEN'' = Read" by (simp add: classifyCommand_def readCommands_def)
  from reads_change_nothing [OF this d] d show ?thesis by auto
qed

end
