(* ===== verification/Server_Loop.thy ===== *)
theory Server_Loop
  imports Session
begin

text \<open>
  The server process: \<open>src/server/Server.cpp\<close>, \<open>src/server/main.cpp\<close> and the metrics
  endpoint of \<open>src/utils/MetricsServer.cpp\<close>.  The answers of the system calls are
  inputs.  The operations are functions on the server's state; \<open>srv_step\<close> puts them
  together as the event loop does, with the signal handler and the metrics thread as
  steps that may come in between.
\<close>

subsection \<open>State\<close>

text \<open>\<open>watched\<close> are the client descriptors registered with epoll, \<open>closed\<close> the descriptors
  closed so far and \<open>outbox\<close> what was passed to \<open>send\<close>.\<close>

record server =
  port :: int
  server_socket :: int
  running :: bool
  watched :: "int list"
  closed :: "int list"
  outbox :: "(int \<times> string) list"
  lastDump :: int
  world :: world
  files :: disk

definition dumpInterval :: int where "dumpInterval = 300 * 1000000000"

definition MAX_EVENTS :: nat where "MAX_EVENTS = 1000"

definition O_NONBLOCK :: int where "O_NONBLOCK = 2048"

definition dump_file :: string where "dump_file = ''dump.my_db''"

definition new_server :: "int \<Rightarrow> int \<Rightarrow> world \<Rightarrow> disk \<Rightarrow> server" where
  "new_server p now w fs =
     \<lparr>port = p, server_socket = -1, running = True, watched = [], closed = [], outbox = [],
      lastDump = now, world = w, files = fs\<rparr>"

text \<open>\<open>getfl\<close> is the result of \<open>F_GETFL\<close>, \<open>setfl\<close> the one of \<open>F_SETFL\<close> for its argument.\<close>

definition setNonBlocking :: "int \<Rightarrow> (int \<Rightarrow> int) \<Rightarrow> bool" where
  "setNonBlocking getfl setfl = (if getfl < 0 then False else setfl (or getfl O_NONBLOCK) = 0)"

definition shutdown :: "server \<Rightarrow> server" where
  "shutdown s =
     (let s1 = s\<lparr>running := False\<rparr> in
      if server_socket s1 \<noteq> -1 then s1\<lparr>closed := closed s1 @ [server_socket s1]\<rparr> else s1)"

text \<open>The handler of \<open>SIGINT\<close> runs \<open>shutdown\<close> on the global server.\<close>

definition signalHandler :: "int \<Rightarrow> server \<Rightarrow> server" where
  "signalHandler signum s = shutdown s"

subsection \<open>Start\<close>

record boot =
  socket_res :: int
  bind_res :: int
  listen_res :: int
  epoll_res :: int
  ctl_res :: int

text \<open>The first part of \<open>run\<close>.  \<open>None\<close> stands for an early return, after which the process
  ends without writing the database.  \<open>htons\<close> keeps the low 16 bits of the port.\<close>

definition bound_port :: "int \<Rightarrow> int" where
  "bound_port p = p mod 65536"

definition run_start :: "boot \<Rightarrow> server \<Rightarrow> server \<times> bool" where
  "run_start b s =
     (let s1 = s\<lparr>server_socket := socket_res b\<rparr> in
      if server_socket s1 < 0 then (s1, False)
      else if bind_res b < 0 then (s1, False)
      else if listen_res b < 0 then (s1, False)
      else if epoll_res b < 0 then (s1, False)
      else if ctl_res b \<noteq> 0 then (s1, False)
      else (s1, True))"

text \<open>\<open>main\<close> up to the call of \<open>run\<close>: the port argument, then the database file.\<close>

definition main_start :: "string list \<Rightarrow> int \<Rightarrow> disk \<Rightarrow> server res" where
  "main_start argv now fs =
     rbind (if 2 \<le> length argv then stoi (argv ! 1) else Inr 6379) (\<lambda>p.
       rbind (load dump_file fs empty_db) (\<lambda>(loaded, d).
         Inr (new_server p now \<lparr>wdb = d, stats = no_metrics\<rparr> fs)))"

subsection \<open>Events\<close>

text \<open>What \<open>epoll_wait\<close> reports.  For the listening socket: the successful \<open>accept\<close>s, each
  with the outcome of registering the descriptor, before the one that fails.  For a
  client: the clock readings of the command and the outcome of \<open>recv\<close>, which is asked
  for 4095 bytes.\<close>

datatype recv_result = Received string | Peer_closed | Recv_again | Recv_failed

datatype event =
    Listening "(int \<times> bool) list"
  | Client int env recv_result

fun accept_loop :: "(int \<times> bool) list \<Rightarrow> server \<Rightarrow> server" where
  "accept_loop [] s = s"
| "accept_loop ((client_socket, registered) # rest) s =
     (if \<not> registered then accept_loop rest (s\<lparr>closed := closed s @ [client_socket]\<rparr>)
      else accept_loop rest
        (s\<lparr>watched := watched s @ [client_socket],
           world := (world s)\<lparr>stats := addClient (stats (world s))\<rparr>\<rparr>))"

definition drop_client :: "int \<Rightarrow> server \<Rightarrow> server" where
  "drop_client fd s =
     s\<lparr>watched := remove1 fd (watched s), closed := closed s @ [fd],
       world := (world s)\<lparr>stats := removeClient (stats (world s))\<rparr>\<rparr>"

fun handle_event :: "event \<Rightarrow> server \<Rightarrow> server res" where
  "handle_event (Listening accepted) s = Inr (accept_loop accepted s)"
| "handle_event (Client fd e (Received bytes)) s =
     rbind (processCommand e (take 4095 bytes) (world s)) (\<lambda>(response, w).
       Inr (s\<lparr>world := w, outbox := outbox s @ [(fd, response)]\<rparr>))"
| "handle_event (Client fd e Peer_closed) s = Inr (drop_client fd s)"
| "handle_event (Client fd e Recv_again) s = Inr s"
| "handle_event (Client fd e Recv_failed) s = Inr (drop_client fd s)"

fun handle_events :: "event list \<Rightarrow> server \<Rightarrow> server res" where
  "handle_events [] s = Inr s"
| "handle_events (ev # evs) s = rbind (handle_event ev s) (handle_events evs)"

text \<open>The end of a round, and what follows the loop.  \<open>opened\<close>: the dump file could be
  opened.  \<open>now - lastDump\<close> is a difference of two clock readings.\<close>

definition write_dump :: "bool \<Rightarrow> server \<Rightarrow> server" where
  "write_dump opened s = s\<lparr>files := snd (dump opened dump_file (wdb (world s)) (files s))\<rparr>"

definition end_round :: "int \<Rightarrow> bool \<Rightarrow> server \<Rightarrow> server" where
  "end_round now opened s =
     (if dumpInterval \<le> now - lastDump s then (write_dump opened s)\<lparr>lastDump := now\<rparr> else s)"

subsection \<open>The loop over given inputs\<close>

text \<open>One round: whether the signal handler ran while the server was waiting, and what
  \<open>epoll_wait\<close> gave.\<close>

datatype wait_result = Wait_ready "event list" | Wait_interrupted | Wait_failed

record round_input =
  signalled :: bool
  waited :: wait_result
  clock :: int
  can_open :: bool

text \<open>\<open>Some\<close>: the loop is still waiting after the given rounds; \<open>None\<close>: it has ended.\<close>

fun run_loop :: "round_input list \<Rightarrow> server \<Rightarrow> (server \<times> bool) res" where
  "run_loop [] s = Inr (s, running s)"
| "run_loop (r # rs) s =
     (if \<not> running s then Inr (s, False)
      else let s1 = (if signalled r then signalHandler 2 s else s) in
        case waited r of
          Wait_interrupted \<Rightarrow> run_loop rs s1
        | Wait_failed \<Rightarrow> Inr (s1, False)
        | Wait_ready evs \<Rightarrow>
            rbind (handle_events evs s1) (\<lambda>s2. run_loop rs (end_round (clock r) (can_open r) s2)))"

text \<open>The rest of \<open>run\<close> after the loop.\<close>

definition run_end :: "bool \<Rightarrow> server \<Rightarrow> server" where
  "run_end opened s = write_dump opened s"

subsection \<open>The metrics endpoint\<close>

text \<open>The handler registered for \<open>/metrics\<close>: body and content type.\<close>

definition metrics_handler ::
    "string option \<Rightarrow> cpu_reading \<Rightarrow> metrics \<Rightarrow> ((string \<times> string) \<times> metrics) res" where
  "metrics_handler status reading m =
     rbind (exportMetrics status reading m) (\<lambda>(body, m1). Inr ((body, ''text/plain''), m1))"

definition scrape :: "string option \<Rightarrow> cpu_reading \<Rightarrow> server \<Rightarrow> server res" where
  "scrape status reading s =
     rbind (metrics_handler status reading (stats (world s))) (\<lambda>(page, m1).
       Inr (s\<lparr>world := (world s)\<lparr>stats := m1\<rparr>\<rparr>))"

end
