(* ===== verification/Server_Steps.thy ===== *)
theory Server_Steps
  imports Server_Loop
begin

text \<open>
  The server as a transition system.  A configuration is a control point and the
  server's state; \<open>srv_step\<close> has one rule per action of \<open>Server::run\<close>, and lets the
  signal handler and a scrape of the metrics happen between any two of them.  The
  conditions on descriptors are what the kernel guarantees: \<open>accept\<close> returns a
  descriptor that is not open, and \<open>epoll_wait\<close> reports registered descriptors, each
  once.  The invariants follow by induction over the reachable configurations.
\<close>

subsection \<open>Configurations and steps\<close>

datatype control =
    Waiting                     \<comment> \<open>at the head of the loop\<close>
  | Handling "event list"       \<comment> \<open>in the \<open>for\<close> loop, the remaining events\<close>
  | Leaving                     \<comment> \<open>after the loop\<close>
  | Finished bool               \<comment> \<open>\<open>run\<close> has returned; whether the last dump could be opened\<close>
  | Crashed cpp_error           \<comment> \<open>an exception left \<open>processCommand\<close>\<close>

type_synonym config = "control \<times> server"

fun client_of :: "event \<Rightarrow> int list" where
  "client_of (Client fd e r) = [fd]"
| "client_of (Listening accepted) = []"

definition clients_in :: "event list \<Rightarrow> int list" where
  "clients_in evs = concat (map client_of evs)"

definition registered_fds :: "(int \<times> bool) list \<Rightarrow> int list" where
  "registered_fds accepted = map fst (filter snd accepted)"

text \<open>The kernel's side: descriptors handed out by \<open>accept\<close>, events reported by epoll.\<close>

definition fresh_fds :: "(int \<times> bool) list \<Rightarrow> server \<Rightarrow> bool" where
  "fresh_fds accepted s \<longleftrightarrow>
     distinct (registered_fds accepted) \<and> set (registered_fds accepted) \<inter> set (watched s) = {}"

definition reported :: "event list \<Rightarrow> server \<Rightarrow> bool" where
  "reported evs s \<longleftrightarrow> length evs \<le> MAX_EVENTS \<and> distinct (clients_in evs)
     \<and> set (clients_in evs) \<subseteq> set (watched s)"

fun event_allowed :: "event \<Rightarrow> server \<Rightarrow> bool" where
  "event_allowed (Listening accepted) s = fresh_fds accepted s"
| "event_allowed (Client fd e r) s = True"

inductive srv_step :: "config \<Rightarrow> config \<Rightarrow> bool" where
  wait_ready: "running s \<Longrightarrow> reported evs s \<Longrightarrow> srv_step (Waiting, s) (Handling evs, s)"
| wait_interrupted: "running s \<Longrightarrow> srv_step (Waiting, s) (Waiting, s)"
| wait_failed: "running s \<Longrightarrow> srv_step (Waiting, s) (Leaving, s)"
| stopped: "\<not> running s \<Longrightarrow> srv_step (Waiting, s) (Leaving, s)"
| event: "event_allowed ev s \<Longrightarrow> handle_event ev s = Inr s' \<Longrightarrow>
    srv_step (Handling (ev # evs), s) (Handling evs, s')"
| crash: "handle_event ev s = Inl err \<Longrightarrow> srv_step (Handling (ev # evs), s) (Crashed err, s)"
| round_end: "srv_step (Handling [], s) (Waiting, end_round now opened s)"
| last_dump: "srv_step (Leaving, s) (Finished opened, run_end opened s)"
| signal: "pc \<in> {Waiting, Leaving} \<or> (\<exists>evs. pc = Handling evs) \<Longrightarrow>
    srv_step (pc, s) (pc, signalHandler signum s)"
| scraped: "pc \<in> {Waiting, Leaving} \<or> (\<exists>evs. pc = Handling evs) \<Longrightarrow>
    scrape status reading s = Inr s' \<Longrightarrow> srv_step (pc, s) (pc, s')"
| scrape_crash: "pc \<in> {Waiting, Leaving} \<or> (\<exists>evs. pc = Handling evs) \<Longrightarrow>
    scrape status reading s = Inl err \<Longrightarrow> srv_step (pc, s) (Crashed err, s)"

inductive_cases finished_stepE: "srv_step (Finished b, s) c"
inductive_cases crashed_stepE: "srv_step (Crashed err, s) c"
inductive_cases waiting_stepE: "srv_step (Waiting, s) c"
inductive_cases handling_stepE: "srv_step (Handling evs, s) c"

inductive_simps leaving_step: "srv_step (Leaving, s) (Finished b, s')"
inductive_simps waiting_handling: "srv_step (Waiting, s) (Handling evs, s')"

inductive reachable :: "server \<Rightarrow> config \<Rightarrow> bool" for s0 where
  start: "reachable s0 (Waiting, s0)"
| more_steps: "reachable s0 c \<Longrightarrow> srv_step c c' \<Longrightarrow> reachable s0 c'"

lemma finished_final: "\<not> srv_step (Finished b, s) c"
  by (auto elim: finished_stepE)

lemma crashed_final: "\<not> srv_step (Crashed err, s) c"
  by (auto elim: crashed_stepE)

subsection \<open>What the operations do to the state\<close>

lemma shutdown_frame [simp]:
  "world (shutdown s) = world s" "watched (shutdown s) = watched s" "files (shutdown s) = files s"
  "lastDump (shutdown s) = lastDump s" "running (shutdown s) = False" "outbox (shutdown s) = outbox s"
  by (simp_all add: shutdown_def Let_def)

lemma write_dump_frame [simp]:
  "world (write_dump b s) = world s" "watched (write_dump b s) = watched s"
  "running (write_dump b s) = running s" "lastDump (write_dump b s) = lastDump s"
  by (simp_all add: write_dump_def)

lemma write_dump_files:
  "files (write_dump b s) dump_file = (if b then Some (dump_text (wdb (world s))) else files s dump_file)"
  by (simp add: write_dump_def dump_def)

lemma end_round_frame [simp]:
  "world (end_round now b s) = world s" "watched (end_round now b s) = watched s"
  "running (end_round now b s) = running s"
  by (simp_all add: end_round_def)

lemma accept_loop_watched: "watched (accept_loop acc s) = watched s @ registered_fds acc"
  by (induction acc s rule: accept_loop.induct) (auto simp: registered_fds_def)

lemma accept_loop_world:
  "wdb (world (accept_loop acc s)) = wdb (world s)"
  "clients (stats (world (accept_loop acc s))) =
     clients (stats (world s)) + of_nat (length (registered_fds acc))"
  by (induction acc s rule: accept_loop.induct)
     (auto simp: registered_fds_def addClient_def)

lemma drop_client_frame [simp]:
  "watched (drop_client fd s) = remove1 fd (watched s)"
  "wdb (world (drop_client fd s)) = wdb (world s)"
  "clients (stats (world (drop_client fd s))) = clients (stats (world s)) - 1"
  by (simp_all add: drop_client_def removeClient_def)

lemma handler_clients:
  "processCommand e line w = Inr (r, w') \<Longrightarrow> clients (stats w') = clients (stats w)"
  by (cases "parseRespCommand line")
     (auto simp: processCommand_def processCommand_counted(4) split: if_splits
       dest: on_okD [OF dispatch_counted] simp: counted_def Let_def)

lemma scrape_frame:
  assumes "scrape status reading s = Inr s'"
  shows "watched s' = watched s" "wdb (world s') = wdb (world s)" "files s' = files s"
    "clients (stats (world s')) = clients (stats (world s))" "running s' = running s"
    "lastDump s' = lastDump s"
  using assms
  by (auto simp: scrape_def metrics_handler_def exportMetrics_def getCpuUsagePercent_def Let_def
      split: if_splits prod.splits)

subsection \<open>The client gauge counts the registered descriptors\<close>

fun pending :: "control \<Rightarrow> int list" where
  "pending (Handling evs) = clients_in evs"
| "pending pc = []"

definition gauge_ok :: "config \<Rightarrow> bool" where
  "gauge_ok c \<longleftrightarrow> (case c of (pc, s) \<Rightarrow>
     distinct (watched s) \<and> clients (stats (world s)) = of_nat (length (watched s))
     \<and> distinct (pending pc) \<and> set (pending pc) \<subseteq> set (watched s))"

lemma clients_in_simps [simp]:
  "clients_in [] = []" "clients_in (Client fd e r # evs) = fd # clients_in evs"
  "clients_in (Listening acc # evs) = clients_in evs"
  by (simp_all add: clients_in_def)

lemma gauge_drop:
  assumes "gauge_ok (Handling (Client fd e r # evs), s)"
  shows "gauge_ok (Handling evs, drop_client fd s)"
proof -
  from assms have fd: "fd \<in> set (watched s)" by (simp add: gauge_ok_def)
  then have "length (watched s) = Suc (length (remove1 fd (watched s)))"
    by (simp add: length_remove1) (metis Suc_pred length_pos_if_in_set)
  with assms show ?thesis by (auto simp: gauge_ok_def)
qed

lemma gauge_event:
  assumes "gauge_ok (Handling (ev # evs), s)" "event_allowed ev s" "handle_event ev s = Inr s'"
  shows "gauge_ok (Handling evs, s')"
proof (cases ev)
  case (Listening acc)
  with assms show ?thesis
    by (auto simp: gauge_ok_def accept_loop_watched accept_loop_world fresh_fds_def)
next
  case (Client fd e r)
  show ?thesis
  proof (cases r)
    case (Received bytes)
    with Client assms show ?thesis
      by (auto simp: gauge_ok_def handler_clients split: prod.splits)
  next
    case Peer_closed
    with Client assms gauge_drop [of fd e r evs s] show ?thesis by simp
  next
    case Recv_again
    with Client assms show ?thesis by (simp add: gauge_ok_def)
  next
    case Recv_failed
    with Client assms gauge_drop [of fd e r evs s] show ?thesis by simp
  qed
qed

lemma gauge_step: "srv_step c c' \<Longrightarrow> gauge_ok c \<Longrightarrow> gauge_ok c'"
proof (induction rule: srv_step.induct)
  case (event ev s s' evs)
  then show ?case by (auto intro: gauge_event)
qed (auto simp: gauge_ok_def reported_def run_end_def signalHandler_def scrape_frame)

lemma gauge_reachable: "reachable s0 c \<Longrightarrow> gauge_ok (Waiting, s0) \<Longrightarrow> gauge_ok c"
  by (induction rule: reachable.induct) (auto intro: gauge_step)

subsection \<open>The keys stay unique\<close>

lemma processCommand_db_ok:
  "processCommand e line w = Inr (r, w') \<Longrightarrow> db_ok (wdb w) \<Longrightarrow> db_ok (wdb w')"
proof -
  assume a: "processCommand e line w = Inr (r, w')" "db_ok (wdb w)"
  then obtain ts where "parseRespCommand line = Inr ts" by (auto simp: processCommand_def)
  with a show ?thesis using unique_keys.processCommand_inv by (simp add: list_all_iff)
qed

lemma handle_event_db_ok: "handle_event ev s = Inr s' \<Longrightarrow> db_ok (wdb (world s)) \<Longrightarrow> db_ok (wdb (world s'))"
  by (cases "(ev, s)" rule: handle_event.cases)
     (auto simp: accept_loop_world processCommand_db_ok split: prod.splits)

lemma db_ok_step: "srv_step c c' \<Longrightarrow> db_ok (wdb (world (snd c))) \<Longrightarrow> db_ok (wdb (world (snd c')))"
  by (induction rule: srv_step.induct)
     (auto simp: run_end_def signalHandler_def scrape_frame dest: handle_event_db_ok)

lemma db_ok_reachable: "reachable s0 c \<Longrightarrow> db_ok (wdb (world s0)) \<Longrightarrow> db_ok (wdb (world (snd c)))"
  by (induction rule: reachable.induct) (auto intro: db_ok_step)

subsection \<open>Shutting down and starting again\<close>

lemma finished_dumped:
  "reachable s0 (Finished True, s) \<Longrightarrow> files s dump_file = Some (dump_text (wdb (world s)))"
  by (cases rule: reachable.cases, assumption)
     (auto elim!: srv_step.cases simp: run_end_def write_dump_files)

lemma end_round_dumped:
  "now - lastDump (end_round now opened s) < dumpInterval"
  "end_round now opened s = s \<or> (opened \<longrightarrow>
     files (end_round now opened s) dump_file = Some (dump_text (wdb (world s))))"
  by (auto simp: end_round_def dumpInterval_def write_dump_files)

lemma main_start_db_ok: "main_start argv now fs = Inr s \<Longrightarrow> db_ok (wdb (world s))"
  by (auto simp: main_start_def new_server_def dest: db_ok_load [OF db_ok_empty] split: prod.splits)

lemma main_start_gauge: "main_start argv now fs = Inr s \<Longrightarrow> gauge_ok (Waiting, s)"
  by (auto simp: main_start_def new_server_def gauge_ok_def no_metrics_def split: prod.splits)

lemma main_start_restores:
  assumes "storable d" "fs dump_file = Some (dump_text d)"
  shows "\<exists>s. main_start [] now fs = Inr s \<and> kv_store (wdb (world s)) = kv_store d
    \<and> list_store (wdb (world s)) = list_store d \<and> hash_store (wdb (world s)) = hash_store d
    \<and> expirey_map (wdb (world s)) = []"
  using load_dump_text [of d fs dump_file empty_db] assms
  by (simp add: main_start_def new_server_def storable_def empty_db_def)

subsection \<open>Property\<close>

text \<open>At the end of every round less than the dump interval has passed since the last
  dump that was attempted, and when one was due and the file could be opened, the file
  holds the database as it is then.\<close>

theorem dump_is_fresh:
  "now - lastDump (end_round now opened s) < dumpInterval
    \<and> (end_round now opened s = s \<or> (opened \<longrightarrow>
        files (end_round now opened s) dump_file = Some (dump_text (wdb (world s)))))"
  using end_round_dumped [of now opened s] by simp

theorem dump_is_fresh_witness:
  "5 - lastDump (end_round 5 True (new_server 6379 0 fresh_world Map.empty)) < dumpInterval"
  using dump_is_fresh [of 5 True "new_server 6379 0 fresh_world Map.empty"] by simp

end
