(* ===== verification/Server_Runs.thy ===== *)
theory Server_Runs
  imports Server_Steps
begin

text \<open>
  Runs of the event loop over given inputs: \<open>run_loop\<close> performs steps of the transition
  system, stops after a shutdown, and, fed with inline commands of plain tokens, keeps
  the database in a state the dump file can carry.
\<close>

subsection \<open>Runs are paths of the transition system\<close>

fun events_ok :: "event list \<Rightarrow> server \<Rightarrow> bool" where
  "events_ok [] s = True"
| "events_ok (ev # evs) s = (event_allowed ev s \<and>
     (case handle_event ev s of Inr s' \<Rightarrow> events_ok evs s' | Inl err \<Rightarrow> True))"

fun rounds_ok :: "round_input list \<Rightarrow> server \<Rightarrow> bool" where
  "rounds_ok [] s = True"
| "rounds_ok (r # rs) s =
     (if \<not> running s then True
      else let s1 = (if signalled r then signalHandler 2 s else s) in
        case waited r of
          Wait_interrupted \<Rightarrow> rounds_ok rs s1
        | Wait_failed \<Rightarrow> True
        | Wait_ready evs \<Rightarrow> reported evs s1 \<and> events_ok evs s1 \<and>
            (case handle_events evs s1 of
               Inr s2 \<Rightarrow> rounds_ok rs (end_round (clock r) (can_open r) s2) | Inl err \<Rightarrow> True))"

lemma reachable_trans: "reachable s1 c \<Longrightarrow> reachable s0 (Waiting, s1) \<Longrightarrow> reachable s0 c"
  by (induction rule: reachable.induct) (auto intro: more_steps)

lemma handle_events_reachable:
  "handle_events evs s = Inr s' \<Longrightarrow> events_ok evs s \<Longrightarrow> reachable s0 (Handling evs, s) \<Longrightarrow>
     reachable s0 (Handling [], s')"
proof (induction evs arbitrary: s)
  case (Cons ev evs)
  then obtain s1 where h: "handle_event ev s = Inr s1" "handle_events evs s1 = Inr s'" by auto
  have "reachable s0 (Handling evs, s1)"
    by (rule more_steps [OF Cons.prems(3) srv_step.event]) (use Cons.prems(2) h in auto)
  with Cons h show ?case by auto
qed simp

lemma signal_reachable: "reachable s0 (Waiting, s) \<Longrightarrow> reachable s0 (Waiting, signalHandler n s)"
  by (auto intro: more_steps srv_step.signal)

lemma signalHandler_frame [simp]:
  "world (signalHandler n s) = world s" "watched (signalHandler n s) = watched s"
  "running (signalHandler n s) = False" "files (signalHandler n s) = files s"
  by (simp_all add: signalHandler_def)

lemma reported_signal [simp]: "reported evs (signalHandler n s) = reported evs s"
  by (simp add: reported_def)

text \<open>\<open>epoll_wait\<close> returns first, the signal arrives before the first event is handled.\<close>

lemma round_reachable:
  assumes "reachable s0 (Waiting, s)" "running s" "reported evs s"
    "s1 = (if sig then signalHandler 2 s else s)" "events_ok evs s1" "handle_events evs s1 = Inr s2"
  shows "reachable s0 (Waiting, end_round now opened s2)"
proof -
  have "reachable s0 (Handling evs, s)"
    using assms(1-3) by (auto intro: more_steps srv_step.wait_ready)
  then have "reachable s0 (Handling evs, s1)"
    using assms(4) by (auto intro: more_steps srv_step.signal)
  then have "reachable s0 (Handling [], s2)"
    using assms(5,6) by (auto intro: handle_events_reachable)
  then show ?thesis by (auto intro: more_steps srv_step.round_end)
qed

lemma run_loop_reachable:
  "run_loop rs s = Inr (s', again) \<Longrightarrow> rounds_ok rs s \<Longrightarrow> reachable s0 (Waiting, s) \<Longrightarrow>
     reachable s0 (if again then Waiting else Leaving, s')"
proof (induction rs arbitrary: s)
  case Nil
  then show ?case by (auto intro: more_steps srv_step.stopped)
next
  case (Cons r rs)
  show ?case
  proof (cases "running s")
    case False
    with Cons.prems show ?thesis by (auto intro: more_steps srv_step.stopped)
  next
    case True
    define s1 where "s1 = (if signalled r then signalHandler 2 s else s)"
    have s1: "reachable s0 (Waiting, s1)"
      using Cons.prems(3) signal_reachable by (simp add: s1_def)
    show ?thesis
    proof (cases "waited r")
      case (Wait_ready evs)
      with True Cons.prems obtain s2 where h: "handle_events evs s1 = Inr s2"
        and run: "run_loop rs (end_round (clock r) (can_open r) s2) = Inr (s', again)"
        by (auto simp: s1_def Let_def)
      have "reachable s0 (Waiting, end_round (clock r) (can_open r) s2)"
        using Cons.prems(2,3) True Wait_ready h
        by (intro round_reachable [of s0 s evs s1 "signalled r" s2])
           (auto simp: s1_def Let_def split: if_splits)
      with run Cons.prems(2) True Wait_ready h show ?thesis
        by (intro Cons.IH) (auto simp: s1_def Let_def)
    next
      case Wait_interrupted
      with True Cons s1 show ?thesis by (auto simp: s1_def Let_def)
    next
      case Wait_failed
      have "reachable s0 (Leaving, s1)"
      proof -
        have "reachable s0 (Leaving, s)" if "\<not> signalled r"
          using that True Cons.prems(3) by (auto intro: more_steps srv_step.wait_failed)
        moreover have "reachable s0 (Leaving, signalHandler 2 s)"
          by (rule more_steps [OF signal_reachable [OF Cons.prems(3)] srv_step.stopped]) simp
        ultimately show ?thesis by (simp add: s1_def)
      qed
      with Wait_failed True Cons.prems show ?thesis by (auto simp: s1_def Let_def)
    qed
  qed
qed

text \<open>After the signal no further round is started.\<close>

lemma run_loop_after_shutdown: "run_loop rs (signalHandler n s) = Inr (signalHandler n s, False)"
  by (cases rs) simp_all

subsection \<open>Plain inline sessions\<close>

text \<open>Requests that a person would type into a raw connection: no RESP header, no colon.\<close>

definition plain_request :: "string \<Rightarrow> bool" where
  "plain_request bytes \<longleftrightarrow> bytes \<noteq> [] \<and> hd bytes \<noteq> CHR ''*'' \<and> CHR '':'' \<notin> set bytes"

fun plain_event :: "event \<Rightarrow> bool" where
  "plain_event (Client fd e (Received bytes)) = plain_request bytes"
| "plain_event ev = True"

fun plain_round :: "round_input \<Rightarrow> bool" where
  "plain_round r = (case waited r of Wait_ready evs \<Rightarrow> list_all plain_event evs | _ \<Rightarrow> True)"

lemma next_token_sub:
  "next_token s = Some (w, r) \<Longrightarrow> set w \<subseteq> set s \<and> set r \<subseteq> set s \<and> length w \<le> length s"
  by (auto simp: next_token_def Let_def split: if_splits dest!: set_takeWhileD set_dropWhileD
      intro: le_trans [OF length_takeWhile_le length_dropWhile_le])

lemma tokens_of_sub: "t \<in> set (tokens_of s) \<Longrightarrow> set t \<subseteq> set s \<and> length t \<le> length s"
proof (induction s rule: tokens_of.induct)
  case (1 s)
  show ?case
  proof (cases "next_token s")
    case (Some p)
    obtain w r where p: "p = (w, r)" by (cases p)
    have ts: "tokens_of s = w # tokens_of r"
      using Some p by (subst tokens_of.simps) simp
    have "length r < length s" using Some p next_token_shorter by simp
    moreover have "set t \<subseteq> set r \<and> length t \<le> length r" if "t \<in> set (tokens_of r)"
      using 1(1) [OF Some] p that by simp
    ultimately show ?thesis
      using 1(2) Some p ts next_token_sub [of s w r] by fastforce
  qed (use 1 in \<open>simp add: tokens_of.simps [of s]\<close>)
qed

lemma plain_request_tokens:
  assumes "plain_request bytes"
  shows "\<exists>ts. parseRespCommand (take 4095 bytes) = Inr ts \<and> list_all plain_token ts"
proof -
  let ?b = "take 4095 bytes"
  have b: "?b \<noteq> []" "hd ?b \<noteq> CHR ''*''" "CHR '':'' \<notin> set ?b"
    using assms by (auto simp: plain_request_def dest: in_set_takeD)
  have "plain_token t" if "t \<in> set (tokens_of ?b)" for t
  proof -
    have "length t \<le> 4095" using tokens_of_sub [OF that] by simp
    then show ?thesis
      using tokens_are_tokens [OF that] tokens_of_sub [OF that] b(3)
      by (auto simp: plain_token_def npos_def)
  qed
  then show ?thesis using parse_inline [OF b(1,2)] by (auto simp: list_all_iff)
qed

lemma list_all_tl: "list_all P xs \<Longrightarrow> list_all P (tl xs)"
  by (cases xs) auto

lemma plain_event_storable:
  assumes "plain_event ev" "handle_event ev s = Inr s'" "storable (wdb (world s))"
  shows "storable (wdb (world s'))"
proof (cases "\<exists>fd e bytes. ev = Client fd e (Received bytes)")
  case True
  then obtain fd e bytes where ev: "ev = Client fd e (Received bytes)" by blast
  with assms(1) obtain ts where ts: "parseRespCommand (take 4095 bytes) = Inr ts" "list_all plain_token ts"
    using plain_request_tokens by auto
  from assms(2) ev obtain r w where "processCommand e (take 4095 bytes) (world s) = Inr (r, w)"
    "world s' = w" by auto
  then show ?thesis
    using storable_states.processCommand_inv [OF assms(3) ts(1) list_all_tl [OF ts(2)]] by simp
next
  case False
  with assms show ?thesis
    by (cases "(ev, s)" rule: handle_event.cases) (auto simp: accept_loop_world)
qed

lemma plain_events_storable:
  "list_all plain_event evs \<Longrightarrow> handle_events evs s = Inr s' \<Longrightarrow> storable (wdb (world s)) \<Longrightarrow>
     storable (wdb (world s'))"
  by (induction evs arbitrary: s) (auto dest: plain_event_storable)

lemma run_loop_storable:
  "run_loop rs s = Inr (s', again) \<Longrightarrow> list_all plain_round rs \<Longrightarrow> storable (wdb (world s)) \<Longrightarrow>
     storable (wdb (world s'))"
proof (induction rs arbitrary: s)
  case (Cons r rs)
  show ?case
  proof (cases "running s")
    case True
    with Cons show ?thesis
      by (auto simp: Let_def split: wait_result.splits if_splits dest: plain_events_storable)
  qed (use Cons in simp)
qed simp

lemma storable_empty: "storable empty_db"
  using db_ok_empty by (simp add: storable_def dumpable_def empty_db_def)

text \<open>A session and its sequel: the server runs, dumps at the end, and is started again on
  the file it left.\<close>

lemma run_then_restart:
  assumes "run_loop rs s = Inr (s', again)" "list_all plain_round rs" "storable (wdb (world s))"
  shows "\<exists>s2. main_start [] now (files (run_end True s')) = Inr s2
    \<and> kv_store (wdb (world s2)) = kv_store (wdb (world s'))
    \<and> list_store (wdb (world s2)) = list_store (wdb (world s'))
    \<and> hash_store (wdb (world s2)) = hash_store (wdb (world s'))
    \<and> expirey_map (wdb (world s2)) = []"
  by (rule main_start_restores [OF run_loop_storable [OF assms]])
     (simp add: run_end_def write_dump_files)

lemma handle_request:
  assumes "length (resp_array (t # ts) @ rest) \<le> 4095"
  shows "handle_event (Client fd e (Received (resp_array (t # ts) @ rest))) s =
    handle_event (Client fd e (Received (resp_array (t # ts)))) s"
  using parse_resp_array [of "t # ts" rest] parse_resp_array [of "t # ts" "[]"] assms
  by (simp add: processCommand_def small_int_max)

subsection \<open>Properties\<close>



text \<open>C23: One read is one request: what a client sends behind its first request, as a client
  that pipelines does, is dropped without a reply.\<close>

theorem pipelined_request_dropped:
  assumes "length (resp_array (t # ts) @ rest) \<le> 4095"
  shows "handle_event (Client fd e (Received (resp_array (t # ts) @ rest))) s =
    handle_event (Client fd e (Received (resp_array (t # ts)))) s"
  using assms by (rule handle_request)

theorem pipelined_request_dropped_witness:
  "handle_event (Client 5 clock0 (Received (resp_array [''PING''] @ resp_array [''FLUSHALL''])))
     (new_server 6379 0 fresh_world Map.empty) =
   handle_event (Client 5 clock0 (Received (resp_array [''PING''])))
     (new_server 6379 0 fresh_world Map.empty)"
  by (rule pipelined_request_dropped) (simp add: resp_array_def bulk_def show_nat.simps)

subsection \<open>The signal ends the loop\<close>

lemma accept_loop_running [simp]: "running (accept_loop acc s) = running s"
  by (induction acc s rule: accept_loop.induct) auto

lemma handle_event_running: "handle_event ev s = Inr s' \<Longrightarrow> running s' = running s"
  by (induction ev s rule: handle_event.induct) (auto simp: drop_client_def)

lemma handle_events_running: "handle_events evs s = Inr s' \<Longrightarrow> running s' = running s"
  by (induction evs arbitrary: s) (auto dest: handle_event_running)

lemma run_loop_stopped: "\<not> running s \<Longrightarrow> run_loop rs s = Inr (s, False)"
  by (cases rs) auto

lemma run_loop_signalled:
  "run_loop (pre @ r # post) s = Inr (s', again) \<Longrightarrow> signalled r \<Longrightarrow>
     \<not> again \<and> run_loop (pre @ [r]) s = Inr (s', False)"
proof (induction pre arbitrary: s)
  case Nil
  have nr: "\<not> running s2" if "handle_events evs (signalHandler 2 s) = Inr s2" for evs s2
    using handle_events_running [OF that] by simp
  have stop: "run_loop rs (end_round now b s2) = Inr (end_round now b s2, False)"
    if "handle_events evs (signalHandler 2 s) = Inr s2" for rs evs s2 now b
    using handle_events_running [OF that] by (simp add: run_loop_stopped)
  show ?case
    using Nil stop by (cases "waited r") (auto simp: run_loop_after_shutdown Let_def dest: nr split: if_splits)
next
  case (Cons q pre)
  then show ?case by (cases "waited q") (auto simp: Let_def split: if_splits)
qed

text \<open>C30: The shutdown signal is obeyed.  Whenever it arrives, the round it arrives in is the last
  one: no later input is looked at, the loop has ended, and the dump that is written behind
  the loop holds the database as that round left it.\<close>

theorem signal_ends_loop_and_saves:
  assumes "run_loop (pre @ r # post) s = Inr (s', again)" "signalled r"
  shows "\<not> again \<and> run_loop (pre @ [r]) s = Inr (s', False)
    \<and> files (run_end True s') dump_file = Some (dump_text (wdb (world s')))"
  using run_loop_signalled [OF assms] by (simp add: run_end_def write_dump_files)

theorem signal_ends_loop_and_saves_witness:
  "files (run_end True (signalHandler 2 (new_server 6379 0 fresh_world Map.empty))) dump_file = Some (dump_text empty_db)"
proof -
  let ?s = "new_server 6379 0 fresh_world Map.empty"
  let ?r = "\<lparr>signalled = True, waited = Wait_interrupted, clock = 1, can_open = True\<rparr>"
  have "run_loop ([] @ ?r # [?r]) ?s = Inr (signalHandler 2 ?s, False)"
    by (simp add: new_server_def run_loop_after_shutdown del: run_loop.simps(2)) (simp add: run_loop_stopped)
  then show ?thesis
    using signal_ends_loop_and_saves [of "[]" ?r "[?r]" ?s "signalHandler 2 ?s" False] by (simp add: new_server_def)
qed

end
