(* ===== verification/Handler_Replies.thy ===== *)
theory Handler_Replies
  imports Command_Handler
begin

text \<open>
  The type of every reply of \<open>commandHandler::processCommand\<close>: the first byte, by which a
  RESP client tells a status, an error, a number, a bulk string and an array apart.
\<close>

definition reply_marks :: "string \<Rightarrow> string" where
  "reply_marks cmd =
     (if cmd \<in> {''PING'', ''ECHO'', ''FLUSHALL'', ''SET'', ''TYPE'', ''RENAME'', ''LSET'', ''HMSET''} then ''+''
      else if cmd \<in> {''GET'', ''LPOP'', ''RPOP'', ''LINDEX'', ''HGET''} then ''$''
      else if cmd = ''EXPIRE'' then ''+$''
      else if cmd \<in> {''DEL'', ''UNLINK'', ''LLEN'', ''LPUSH'', ''RPUSH'', ''LREM'', ''HSET'', ''HEXISTS'', ''HDEL'', ''HLEN''} then '':''
      else if cmd \<in> {''KEYS'', ''LGET'', ''HKEYS'', ''HVALS'', ''HGETALL''} then ''*''
      else [])"

definition marked :: "string \<Rightarrow> string \<times> world \<Rightarrow> bool" where
  "marked cmd x \<longleftrightarrow> (case fst x of [] \<Rightarrow> False | c # r \<Rightarrow> c = CHR ''-'' \<or> c \<in> set (reply_marks cmd))"

lemma marked_Cons [simp]: "marked cmd (c # r, w) \<longleftrightarrow> c = CHR ''-'' \<or> c \<in> set (reply_marks cmd)"
  by (simp add: marked_def)

lemma marked_Nil [simp]: "\<not> marked cmd ([], w)"
  by (simp add: marked_def)

lemma marked_bulk: "marked cmd (bulk v, w) \<longleftrightarrow> CHR ''$'' \<in> set (reply_marks cmd)"
  "marked cmd (resp_array vs, w) \<longleftrightarrow> CHR ''*'' \<in> set (reply_marks cmd)"
  by (simp_all add: bulk_def resp_array_def)

lemma dispatch_marked: "on_ok (marked cmd) (dispatch e cmd tokens w)"
  by (rule dispatch_all)
     (auto simp: cmd_defs marked_bulk reply_marks_def vec_at_def case_prod_unfold intro!: on_okI split: if_splits)

text \<open>C31: Every reply has the type its command promises.  It is an error, or it begins with the mark
  of the command: \<open>+\<close> for a status, \<open>$\<close> for a string, \<open>:\<close> for a number, \<open>*\<close> for a list; only
  \<open>EXPIRE\<close> has two; an unknown command has none but the error.\<close>

theorem replies_are_typed:
  assumes "processCommand e bytes w = Inr (reply, w')" "parseRespCommand bytes = Inr tokens"
  shows "reply \<noteq> [] \<and> (hd reply = CHR ''-'' \<or> tokens \<noteq> [] \<and> hd reply \<in> set (reply_marks (map toupper (hd tokens))))"
proof (cases tokens)
  case Nil
  then show ?thesis using assms by (auto simp: processCommand_def)
next
  case (Cons t ts)
  obtain w1 where "dispatch e (map toupper t) tokens w = Inr (reply, w1)"
    using assms Cons by (auto simp: processCommand_def Let_def)
  then have "marked (map toupper t) (reply, w1)" by (rule on_okD [OF dispatch_marked])
  then show ?thesis using Cons by (cases reply) auto
qed

theorem replies_are_typed_witness:
  "\<exists>reply w'. processCommand clock0 ''KEYS'' fresh_world = Inr (reply, w') \<and> hd reply \<in> {CHR ''-'', CHR ''*''}"
proof -
  have "tokens_of ''KEYS'' = [''KEYS'']"
    using tokens_of_word [of "''KEYS''" "[]"] by (simp add: is_token_def no_space_def isspace_def)
  then have p: "parseRespCommand ''KEYS'' = Inr [''KEYS'']" by (simp add: parse_inline)
  have up: "map toupper ''KEYS'' = ''KEYS''" by (simp add: toupper_def)
  obtain reply w' where r: "processCommand clock0 ''KEYS'' fresh_world = Inr (reply, w')"
    using up by (auto simp: processCommand_def p dispatch_def cmd_KEYS_def Let_def)
  then show ?thesis using replies_are_typed [OF r p] up by (auto simp: reply_marks_def)
qed

end
