(* ===== verification/Http_Text.thy ===== *)
theory Http_Text
  imports Cpp_String
begin

text \<open>
  The HTTP server behind \<open>/metrics\<close> is the header \<open>include/httplib.h\<close>.  This theory has
  its character classes, the case-insensitive comparison and hash of header names, and
  its number parsers.  A \<open>char\<close> is a HOL character; \<open>byte c\<close> is its value as an
  \<open>unsigned char\<close>.
\<close>

subsection \<open>Characters\<close>

definition byte :: "char \<Rightarrow> nat" where "byte c = of_char c"

definition is_ascii_digit :: "char \<Rightarrow> bool" where
  "is_ascii_digit c \<longleftrightarrow> 48 \<le> byte c \<and> byte c \<le> 57"

definition is_ascii_alpha :: "char \<Rightarrow> bool" where
  "is_ascii_alpha c \<longleftrightarrow> 97 \<le> byte c \<and> byte c \<le> 122 \<or> 65 \<le> byte c \<and> byte c \<le> 90"

definition is_ascii_alnum :: "char \<Rightarrow> bool" where
  "is_ascii_alnum c \<longleftrightarrow> is_ascii_digit c \<or> is_ascii_alpha c"

text \<open>The table of \<open>to_lower\<close> is the one of Latin-1: 65 to 90, and 192 to 222 except 215, go
  up by 32.\<close>

definition lower_byte :: "nat \<Rightarrow> nat" where
  "lower_byte n =
     (if 65 \<le> n \<and> n \<le> 90 \<or> 192 \<le> n \<and> n \<le> 222 \<and> n \<noteq> 215 then n + 32 else n)"

definition to_lower :: "char \<Rightarrow> char" where
  "to_lower c = char_of (lower_byte (byte c))"

definition to_lower_str :: "string \<Rightarrow> string" where
  "to_lower_str s = map to_lower s"

definition case_equal :: "string \<Rightarrow> string \<Rightarrow> bool" where
  "case_equal a b \<longleftrightarrow> length a = length b \<and> list_all2 (\<lambda>ca cb. to_lower ca = to_lower cb) a b"

unbundle bit_operations_syntax

text \<open>\<open>SIZE_MAX >> 6\<close>.\<close>

definition hash_mask :: "64 word" where "hash_mask = drop_bit 6 (- 1)"

fun hash_core :: "string \<Rightarrow> 64 word \<Rightarrow> 64 word" where
  "hash_core [] h = h"
| "hash_core (c # s) h =
     hash_core s ((hash_mask AND (h * 33)) XOR of_nat (byte (to_lower c)))"

definition case_hash :: "string \<Rightarrow> 64 word" where
  "case_hash key = hash_core key 0"

subsection \<open>Numbers\<close>

datatype errc = Errc_ok | Errc_invalid_argument | Errc_out_of_range

text \<open>\<open>from_chars\<close> for an integer type with the greatest value \<open>max\<close>: the characters it
  leaves unread, the error, the sign and the magnitude.\<close>

definition base_digit :: "char \<Rightarrow> nat option" where
  "base_digit c =
     (if is_ascii_digit c then Some (byte c - 48)
      else if 97 \<le> byte c \<and> byte c \<le> 122 then Some (byte c - 97 + 10)
      else if 65 \<le> byte c \<and> byte c \<le> 90 then Some (byte c - 65 + 10)
      else None)"

fun from_chars_loop :: "nat \<Rightarrow> nat \<Rightarrow> string \<Rightarrow> nat \<Rightarrow> string \<times> errc \<times> nat" where
  "from_chars_loop mx base [] acc = ([], Errc_ok, acc)"
| "from_chars_loop mx base (c # p) acc =
     (case base_digit c of
        None \<Rightarrow> (c # p, Errc_ok, acc)
      | Some digit \<Rightarrow>
          if base \<le> digit then (c # p, Errc_ok, acc)
          else if (mx - digit) div base < acc then (c # p, Errc_out_of_range, 0)
          else from_chars_loop mx base p (acc * base + digit))"

definition from_chars :: "nat \<Rightarrow> nat \<Rightarrow> string \<Rightarrow> string \<times> errc \<times> bool \<times> nat" where
  "from_chars mx base s =
     (let negative = (s \<noteq> [] \<and> hd s = CHR ''-''); p = (if negative then tl s else s) in
      if p = [] then (s, Errc_invalid_argument, False, 0)
      else (case from_chars_loop mx base p 0 of (rest, ec, result) \<Rightarrow>
        if ec \<noteq> Errc_ok then (rest, ec, False, 0)
        else if rest = p then (s, Errc_invalid_argument, False, 0)
        else (rest, Errc_ok, negative, result)))"

definition from_chars_int :: "string \<Rightarrow> errc \<times> int" where
  "from_chars_int s = (case from_chars (nat INT_MAX) 10 s of
     (rest, ec, negative, n) \<Rightarrow> (ec, if negative then - int n else int n))"

definition from_chars_size :: "nat \<Rightarrow> string \<Rightarrow> string \<times> errc \<times> nat" where
  "from_chars_size base s = (case from_chars npos base s of
     (rest, ec, negative, n) \<Rightarrow> (rest, ec, if negative then sz_sub 0 n else n))"

definition parse_port :: "string \<Rightarrow> int option" where
  "parse_port s =
     (case from_chars_int s of (ec, val) \<Rightarrow>
        if ec \<noteq> Errc_ok \<or> val < 1 \<or> 65535 < val then None else Some val)"

definition is_numeric :: "string \<Rightarrow> bool" where
  "is_numeric str \<longleftrightarrow> str \<noteq> [] \<and> list_all is_ascii_digit str"

subsection \<open>Hexadecimal\<close>

definition is_hex :: "char \<Rightarrow> nat option" where
  "is_hex c =
     (if is_ascii_digit c then Some (byte c - 48)
      else if 65 \<le> byte c \<and> byte c \<le> 70 then Some (byte c - 65 + 10)
      else if 97 \<le> byte c \<and> byte c \<le> 102 then Some (byte c - 97 + 10)
      else None)"

text \<open>\<open>s[i]\<close> for \<open>i = s.size()\<close> is the terminating null, which ends the loop.\<close>

fun hex_loop :: "string \<Rightarrow> nat \<Rightarrow> nat \<Rightarrow> nat option" where
  "hex_loop s 0 val = Some val"
| "hex_loop [] (Suc cnt) val = None"
| "hex_loop (c # s) (Suc cnt) val =
     (case is_hex c of None \<Rightarrow> None | Some v \<Rightarrow> hex_loop s cnt (val * 16 + v))"

definition from_hex_to_i :: "string \<Rightarrow> nat \<Rightarrow> nat \<Rightarrow> nat option" where
  "from_hex_to_i s i cnt = (if length s \<le> i then None else hex_loop (drop i s) cnt 0)"

definition hex_charset :: string where "hex_charset = ''0123456789abcdef''"

fun from_i_to_hex :: "nat \<Rightarrow> string" where
  "from_i_to_hex n =
     (if n div 16 = 0 then [hex_charset ! (n mod 16)]
      else from_i_to_hex (n div 16) @ [hex_charset ! (n mod 16)])"

declare from_i_to_hex.simps [simp del]

subsection \<open>Entity tags\<close>

definition is_weak_etag :: "string \<Rightarrow> bool" where
  "is_weak_etag s \<longleftrightarrow> 3 < length s \<and> s ! 0 = CHR ''W'' \<and> s ! 1 = CHR ''/'' \<and> s ! 2 = CHR 0x22"

definition is_strong_etag :: "string \<Rightarrow> bool" where
  "is_strong_etag s \<longleftrightarrow> 2 \<le> length s \<and> s ! 0 = CHR 0x22 \<and> last s = CHR 0x22"

subsection \<open>Names that compare equal hash equal\<close>

text \<open>What an unordered container asks of its comparison and its hash.\<close>

locale hashed_keys =
  fixes eq :: "'k \<Rightarrow> 'k \<Rightarrow> bool"
    and hash :: "'k \<Rightarrow> 'h"
  assumes eq_refl: "eq a a"
    and eq_sym: "eq a b \<Longrightarrow> eq b a"
    and eq_trans: "eq a b \<Longrightarrow> eq b c \<Longrightarrow> eq a c"
    and eq_hash: "eq a b \<Longrightarrow> hash a = hash b"
begin

text \<open>Looking only at the entries with the same hash finds the entries with an equal key.\<close>

lemma bucket_lookup:
  "filter (\<lambda>e. eq k (fst e)) (filter (\<lambda>e. hash (fst e) = hash k) es) = filter (\<lambda>e. eq k (fst e)) es"
  by (induction es) (auto dest: eq_hash)

lemma lookup_equal_keys: "eq k l \<Longrightarrow> filter (\<lambda>e. eq k (fst e)) es = filter (\<lambda>e. eq l (fst e)) es"
  by (induction es) (auto intro: eq_trans eq_sym)

end

lemma case_equal_map: "case_equal a b \<longleftrightarrow> to_lower_str a = to_lower_str b"
  by (auto simp: case_equal_def to_lower_str_def list_all2_conv_all_nth list_eq_iff_nth_eq)

lemma hash_core_lower:
  "map to_lower a = map to_lower b \<Longrightarrow> hash_core a h = hash_core b h"
proof (induction a arbitrary: b h)
  case (Cons c a)
  then obtain d b' where b: "b = d # b'" "to_lower c = to_lower d" "map to_lower a = map to_lower b'"
    by (cases b) auto
  show ?case by (simp only: b(1,2) hash_core.simps Cons.IH [OF b(3)])
qed simp

interpretation header_names: hashed_keys case_equal case_hash
proof unfold_locales
  show "case_equal a b \<Longrightarrow> case_hash a = case_hash b" for a b
    unfolding case_equal_map case_hash_def to_lower_str_def by (rule hash_core_lower)
qed (simp_all add: case_equal_map)

lemma byte_less: "byte c < 256"
  by (simp add: byte_def)

lemma byte_char_of: "n < 256 \<Longrightarrow> byte (char_of n) = n"
  by (simp add: byte_def)

lemma to_lower_idem: "to_lower (to_lower c) = to_lower c"
proof -
  have "lower_byte (byte c) < 256" using byte_less [of c] by (simp add: lower_byte_def)
  moreover have "lower_byte (lower_byte (byte c)) = lower_byte (byte c)" by (auto simp: lower_byte_def)
  ultimately show ?thesis by (simp add: to_lower_def byte_char_of)
qed

subsection \<open>Numbers are exact or refused\<close>

lemma ascii_digit_isdigit: "is_ascii_digit c \<longleftrightarrow> isdigit c"
  by (simp add: is_ascii_digit_def isdigit_def byte_def)

lemma base_digit_digit: "is_ascii_digit c \<Longrightarrow> base_digit c = Some (digit_val c) \<and> digit_val c < 10"
  by (auto simp: base_digit_def digit_val_def is_ascii_digit_def byte_def)

lemma read_digits_ge: "acc \<le> read_digits acc s"
proof (induction s arbitrary: acc)
  case (Cons c s)
  have "acc \<le> 10 * acc + digit_val c" by simp
  also have "\<dots> \<le> read_digits (10 * acc + digit_val c) s" by (rule Cons.IH)
  finally show ?case by simp
qed simp

lemma overflow_check: "d \<le> mx \<Longrightarrow> (mx - d) div 10 < acc \<longleftrightarrow> mx < acc * 10 + (d::nat)"
  by (subst div_less_iff_less_mult) auto

lemma from_chars_digits:
  assumes "list_all is_ascii_digit s" "10 \<le> mx" "acc \<le> mx"
  shows "read_digits acc s \<le> mx \<Longrightarrow> from_chars_loop mx 10 s acc = ([], Errc_ok, read_digits acc s)"
    and "mx < read_digits acc s \<Longrightarrow> \<exists>rest. from_chars_loop mx 10 s acc = (rest, Errc_out_of_range, 0)"
proof -
  have "(read_digits acc s \<le> mx \<longrightarrow> from_chars_loop mx 10 s acc = ([], Errc_ok, read_digits acc s))
    \<and> (mx < read_digits acc s \<longrightarrow> (\<exists>rest. from_chars_loop mx 10 s acc = (rest, Errc_out_of_range, 0)))"
    using assms(1,3)
  proof (induction s arbitrary: acc)
    case (Cons c s)
    have d: "base_digit c = Some (digit_val c)" "digit_val c < 10"
      using Cons.prems base_digit_digit [of c] by simp_all
    have chk: "(mx - digit_val c) div 10 < acc \<longleftrightarrow> mx < acc * 10 + digit_val c"
      using d(2) assms(2) by (intro overflow_check) simp
    show ?case
    proof (cases "mx < acc * 10 + digit_val c")
      case True
      then have "mx < read_digits acc (c # s)"
        using read_digits_ge [of "10 * acc + digit_val c" s] by simp
      with True d chk show ?thesis by simp
    next
      case False
      with Cons d chk show ?thesis by (simp add: mult.commute)
    qed
  qed simp
  then show "read_digits acc s \<le> mx \<Longrightarrow> from_chars_loop mx 10 s acc = ([], Errc_ok, read_digits acc s)"
    and "mx < read_digits acc s \<Longrightarrow> \<exists>rest. from_chars_loop mx 10 s acc = (rest, Errc_out_of_range, 0)"
    by auto
qed

lemma from_chars_numeric:
  assumes "is_numeric s"
  shows "read_digits 0 s \<le> npos \<Longrightarrow> from_chars_size 10 s = ([], Errc_ok, read_digits 0 s)"
    and "npos < read_digits 0 s \<Longrightarrow> \<exists>rest. from_chars_size 10 s = (rest, Errc_out_of_range, 0)"
proof -
  have s: "s \<noteq> []" "list_all is_ascii_digit s" using assms by (simp_all add: is_numeric_def)
  then have "hd s \<noteq> CHR ''-''" by (cases s) (auto simp: is_ascii_digit_def byte_def)
  with s show "read_digits 0 s \<le> npos \<Longrightarrow> from_chars_size 10 s = ([], Errc_ok, read_digits 0 s)"
    using from_chars_digits(1) [of s npos 0] by (simp add: from_chars_size_def from_chars_def npos_def)
  from s \<open>hd s \<noteq> CHR ''-''\<close>
  show "npos < read_digits 0 s \<Longrightarrow> \<exists>rest. from_chars_size 10 s = (rest, Errc_out_of_range, 0)"
    using from_chars_digits(2) [of s npos 0] by (auto simp: from_chars_size_def from_chars_def npos_def)
qed

subsection \<open>Hexadecimal round trip\<close>

lemma is_hex_charset: "d < 16 \<Longrightarrow> is_hex (hex_charset ! d) = Some d"
proof -
  have "list_all (\<lambda>d. is_hex (hex_charset ! d) = Some d) [0..<16]" by code_simp
  then show "d < 16 \<Longrightarrow> is_hex (hex_charset ! d) = Some d" by (simp add: list_all_iff)
qed

lemma hex_loop_append:
  "hex_loop (s @ t) (length s + n) acc = (case hex_loop s (length s) acc of None \<Rightarrow> None | Some v \<Rightarrow> hex_loop t n v)"
  by (induction s arbitrary: acc) (auto split: option.split)

lemma hex_loop_i_to_hex: "hex_loop (from_i_to_hex n) (length (from_i_to_hex n)) 0 = Some n"
proof (induction n rule: from_i_to_hex.induct)
  case (1 n)
  show ?case
  proof (cases "n div 16 = 0")
    case True
    then show ?thesis
      using is_hex_charset [of n] by (simp add: from_i_to_hex.simps [of n] div_eq_0_iff)
  next
    case False
    have "hex_loop (from_i_to_hex n) (length (from_i_to_hex n)) 0 =
        hex_loop [hex_charset ! (n mod 16)] 1 (n div 16)"
      using False 1 hex_loop_append [of "from_i_to_hex (n div 16)" "[hex_charset ! (n mod 16)]" 1 0]
      by (subst (1 2) from_i_to_hex.simps) simp
    also have "\<dots> = Some n"
      using is_hex_charset [of "n mod 16"] by simp
    finally show ?thesis .
  qed
qed

lemma from_i_to_hex_nonempty [simp]: "from_i_to_hex n \<noteq> []"
  by (subst from_i_to_hex.simps) simp

lemma hex_roundtrip: "from_hex_to_i (from_i_to_hex n) 0 (length (from_i_to_hex n)) = Some n"
  by (simp add: from_hex_to_i_def hex_loop_i_to_hex)

end
