(* ===== verification/Http_Uri.thy ===== *)
theory Http_Uri
  imports Http_Text
begin

text \<open>
  The percent codings of \<open>include/httplib.h\<close>.  Every encoder escapes the characters
  outside a set of its own; every decoder reads an escape of two hexadecimal digits back
  and leaves a malformed one as it is.  The locale \<open>percent_coding\<close> has what the pairs
  share, and an interpretation per pair gives the round trips.
\<close>

subsection \<open>Encoders\<close>

definition upper_hex :: string where "upper_hex = ''0123456789ABCDEF''"

text \<open>\<open>'%'\<close> and two upper-case hexadecimal digits.\<close>

definition escape :: "char \<Rightarrow> string" where
  "escape c = [CHR ''%'', upper_hex ! (byte c div 16), upper_hex ! (byte c mod 16)]"

definition unreserved :: "char \<Rightarrow> bool" where
  "unreserved c \<longleftrightarrow> is_ascii_alnum c \<or> c \<in> set ''-._~''"

definition component_safe :: "char \<Rightarrow> bool" where
  "component_safe c \<longleftrightarrow> is_ascii_alnum c \<or> c \<in> set ''-_.!~*()'' \<or> c = CHR 0x27"

definition uri_safe :: "char \<Rightarrow> bool" where
  "uri_safe c \<longleftrightarrow> component_safe c \<or> c \<in> set '';/?:@&=+$,#''"

definition path_safe :: "char \<Rightarrow> bool" where
  "path_safe c \<longleftrightarrow> unreserved c \<or> c \<in> set ''!$&()*+,;='' \<or> c = CHR 0x27 \<or> c = CHR '':'' \<or> c = CHR ''@''"

definition query_safe :: "char \<Rightarrow> bool" where
  "query_safe c \<longleftrightarrow> unreserved c \<or> c \<in> set ''!$()*,;'' \<or> c = CHR 0x27 \<or> c \<in> set '':@/?''"

definition encode_uri_component :: "string \<Rightarrow> string" where
  "encode_uri_component s = concat (map (\<lambda>c. if component_safe c then [c] else escape c) s)"

definition encode_uri :: "string \<Rightarrow> string" where
  "encode_uri s = concat (map (\<lambda>c. if uri_safe c then [c] else escape c) s)"

definition encode_path_component :: "string \<Rightarrow> string" where
  "encode_path_component s = concat (map (\<lambda>c. if path_safe c then [c] else escape c) s)"

definition encode_query_component :: "bool \<Rightarrow> string \<Rightarrow> string" where
  "encode_query_component space_as_plus s = concat (map (\<lambda>c.
     if unreserved c then [c]
     else if c = CHR '' '' then (if space_as_plus then ''+'' else ''%20'')
     else if c = CHR ''+'' then (if space_as_plus then ''%2B'' else [c])
     else if query_safe c then [c]
     else escape c) s)"

text \<open>\<open>encode_path\<close> stops at a null character.\<close>

definition encode_path :: "string \<Rightarrow> string" where
  "encode_path s = concat (map (\<lambda>c.
     if c = CHR '' '' then ''%20'' else if c = CHR ''+'' then ''%2B''
     else if c = CR then ''%0D'' else if c = LF then ''%0A''
     else if c = CHR 0x27 then ''%27'' else if c = CHR '','' then ''%2C''
     else if c = CHR '';'' then ''%3B''
     else if 128 \<le> byte c then escape c else [c]) (takeWhile (\<lambda>c. c \<noteq> CHR 0x00) s))"

subsection \<open>Decoders\<close>

text \<open>The index loops, on the part of the string from the index on.\<close>

fun decode_uri_component :: "string \<Rightarrow> string" where
  "decode_uri_component [] = []"
| "decode_uri_component (c # s) =
     (if c = CHR ''%'' \<and> 2 \<le> length s then
        (case from_hex_to_i s 0 2 of
           Some val \<Rightarrow> char_of val # decode_uri_component (drop 2 s)
         | None \<Rightarrow> c # decode_uri_component s)
      else c # decode_uri_component s)"

fun decode_uri :: "string \<Rightarrow> string" where
  "decode_uri [] = []"
| "decode_uri (c # s) =
     (if c = CHR ''%'' \<and> 2 \<le> length s then
        (case from_hex_to_i s 0 2 of
           Some val \<Rightarrow> char_of val # decode_uri (drop 2 s)
         | None \<Rightarrow> c # decode_uri s)
      else c # decode_uri s)"

text \<open>\<open>to_utf8\<close>: the bytes for a code point; none for a surrogate or beyond the range.\<close>

definition to_utf8 :: "nat \<Rightarrow> nat list" where
  "to_utf8 code =
     (if code < 0x80 then [code]
      else if code < 0x800 then [0xC0 + code div 0x40, 0x80 + code mod 0x40]
      else if code < 0xD800 then
        [0xE0 + code div 0x1000, 0x80 + code div 0x40 mod 0x40, 0x80 + code mod 0x40]
      else if code < 0xE000 then []
      else if code < 0x10000 then
        [0xE0 + code div 0x1000, 0x80 + code div 0x40 mod 0x40, 0x80 + code mod 0x40]
      else if code < 0x110000 then
        [0xF0 + code div 0x40000, 0x80 + code div 0x1000 mod 0x40, 0x80 + code div 0x40 mod 0x40,
         0x80 + code mod 0x40]
      else [])"

fun decode_path_component :: "string \<Rightarrow> string" where
  "decode_path_component [] = []"
| "decode_path_component (c # s) =
     (if c = CHR ''%'' \<and> s \<noteq> [] then
        if hd s = CHR ''u'' then
          (case from_hex_to_i s 1 4 of
             Some val \<Rightarrow> map char_of (to_utf8 val) @ decode_path_component (drop 5 s)
           | None \<Rightarrow> c # decode_path_component s)
        else
          (case from_hex_to_i s 0 2 of
             Some val \<Rightarrow> char_of val # decode_path_component (drop 2 s)
           | None \<Rightarrow> c # decode_path_component s)
      else c # decode_path_component s)"

fun decode_query_component :: "bool \<Rightarrow> string \<Rightarrow> string" where
  "decode_query_component plus_as_space [] = []"
| "decode_query_component plus_as_space (c # s) =
     (if c = CHR ''%'' \<and> 2 \<le> length s then
        (case from_hex_to_i s 0 2 of
           Some val \<Rightarrow> char_of val # decode_query_component plus_as_space (drop 2 s)
         | None \<Rightarrow> c # decode_query_component plus_as_space s)
      else if c = CHR ''+'' \<and> plus_as_space then CHR '' '' # decode_query_component plus_as_space s
      else c # decode_query_component plus_as_space s)"

subsection \<open>File names\<close>

definition sanitize_filename :: "string \<Rightarrow> string" where
  "sanitize_filename filename =
     (let base = rev (takeWhile (\<lambda>c. c \<noteq> CHR ''/'' \<and> c \<noteq> CHR 0x5C) (rev filename));
          result = filter (\<lambda>c. c \<noteq> CHR 0x00) base;
          blank = (\<lambda>c. c = CHR '' '' \<or> c = CHR 0x09);
          result = rev (dropWhile blank (rev (dropWhile blank result)))
      in if result = ''.'' \<or> result = ''..'' then [] else result)"

subsection \<open>Round trips\<close>

text \<open>A coding: an encoder that works character by character, and a decoder that reads what
  the encoder wrote for one character and goes on behind it.\<close>

locale percent_coding =
  fixes enc :: "char \<Rightarrow> string" and decode :: "string \<Rightarrow> string"
  assumes decode_Nil: "decode [] = []"
    and decode_enc: "decode (enc c @ rest) = c # decode rest"
begin

lemma decode_encode_append: "decode (concat (map enc s) @ rest) = s @ decode rest"
  by (induction s) (simp_all add: decode_enc)

lemma decode_encode: "decode (concat (map enc s)) = s"
  using decode_encode_append [of s "[]"] by (simp add: decode_Nil)

lemma encode_inj: "concat (map enc s) = concat (map enc t) \<Longrightarrow> s = t"
  by (metis decode_encode)

end

lemma is_hex_upper: "d < 16 \<Longrightarrow> is_hex (upper_hex ! d) = Some d"
proof -
  have "list_all (\<lambda>d. is_hex (upper_hex ! d) = Some d) [0..<16]" by code_simp
  then show "d < 16 \<Longrightarrow> is_hex (upper_hex ! d) = Some d" by (simp add: list_all_iff)
qed

lemma char_of_byte [simp]: "char_of (byte c) = c"
  by (simp add: byte_def)

lemma upper_hex_not_u: "d < 16 \<Longrightarrow> upper_hex ! d \<noteq> CHR ''u''"
proof -
  have "list_all (\<lambda>d. upper_hex ! d \<noteq> CHR ''u'') [0..<16]" by code_simp
  then show "d < 16 \<Longrightarrow> upper_hex ! d \<noteq> CHR ''u''" by (simp add: list_all_iff)
qed

lemma escape_read:
  "from_hex_to_i (tl (escape c) @ rest) 0 2 = Some (byte c)" "length (tl (escape c)) = 2"
  "hd (escape c) = CHR ''%''" "hd (tl (escape c)) \<noteq> CHR ''u''" "tl (escape c) \<noteq> []"
  using is_hex_upper [of "byte c div 16"] is_hex_upper [of "byte c mod 16"] byte_less [of c]
    upper_hex_not_u [of "byte c div 16"]
  by (simp_all add: escape_def from_hex_to_i_def numeral_2_eq_2)

lemma escape_split: "escape c @ rest = CHR ''%'' # (tl (escape c) @ rest)"
  by (simp add: escape_def)

lemma decode_escape:
  "decode_uri_component (escape c @ rest) = c # decode_uri_component rest"
  "decode_uri (escape c @ rest) = c # decode_uri rest"
  "decode_query_component b (escape c @ rest) = c # decode_query_component b rest"
  "decode_path_component (escape c @ rest) = c # decode_path_component rest"
proof -
  have t: "drop 2 (tl (escape c) @ rest) = rest" "2 \<le> length (tl (escape c) @ rest)"
    "hd (tl (escape c) @ rest) \<noteq> CHR ''u''" "tl (escape c) @ rest \<noteq> []"
    using escape_read(2,4,5) [of c] by simp_all
  show "decode_uri_component (escape c @ rest) = c # decode_uri_component rest"
    "decode_uri (escape c @ rest) = c # decode_uri rest"
    "decode_query_component b (escape c @ rest) = c # decode_query_component b rest"
    "decode_path_component (escape c @ rest) = c # decode_path_component rest"
    by (simp_all only: escape_split decode_uri_component.simps decode_uri.simps
        decode_query_component.simps decode_path_component.simps t escape_read(1) option.case
        char_of_byte simp_thms if_True if_False)
qed

lemma decode_other:
  "c \<noteq> CHR ''%'' \<Longrightarrow> decode_uri_component (c # s) = c # decode_uri_component s"
  "c \<noteq> CHR ''%'' \<Longrightarrow> decode_uri (c # s) = c # decode_uri s"
  "c \<noteq> CHR ''%'' \<Longrightarrow> decode_path_component (c # s) = c # decode_path_component s"
  "c \<noteq> CHR ''%'' \<Longrightarrow> \<not> (b \<and> c = CHR ''+'') \<Longrightarrow>
     decode_query_component b (c # s) = c # decode_query_component b s"
  by auto

lemma percent_not_safe:
  "\<not> unreserved (CHR ''%'')" "\<not> component_safe (CHR ''%'')" "\<not> uri_safe (CHR ''%'')"
  "\<not> path_safe (CHR ''%'')" "\<not> query_safe (CHR ''%'')" "\<not> unreserved (CHR ''+'')"
  by (simp_all add: unreserved_def component_safe_def uri_safe_def path_safe_def query_safe_def
      is_ascii_alnum_def is_ascii_alpha_def is_ascii_digit_def byte_def)

interpretation uri_component: percent_coding "\<lambda>c. if component_safe c then [c] else escape c"
    decode_uri_component
proof unfold_locales
  show "decode_uri_component ((if component_safe c then [c] else escape c) @ rest) =
      c # decode_uri_component rest" for c rest
    using percent_not_safe(2) by (cases "component_safe c") (auto simp: decode_escape simp del: decode_uri_component.simps intro!: decode_other)
qed simp

interpretation uri: percent_coding "\<lambda>c. if uri_safe c then [c] else escape c" decode_uri
proof unfold_locales
  show "decode_uri ((if uri_safe c then [c] else escape c) @ rest) = c # decode_uri rest" for c rest
    using percent_not_safe(3) by (cases "uri_safe c") (auto simp: decode_escape simp del: decode_uri.simps intro!: decode_other)
qed simp

interpretation path_component: percent_coding "\<lambda>c. if path_safe c then [c] else escape c"
    decode_path_component
proof unfold_locales
  show "decode_path_component ((if path_safe c then [c] else escape c) @ rest) =
      c # decode_path_component rest" for c rest
    using percent_not_safe(4) by (cases "path_safe c") (auto simp: decode_escape simp del: decode_path_component.simps intro!: decode_other)
qed simp

text \<open>For queries, the two flags must agree.\<close>

lemma decode_query_char:
  "decode_query_component b ((if unreserved c then [c]
     else if c = CHR '' '' then (if b then ''+'' else ''%20'')
     else if c = CHR ''+'' then (if b then ''%2B'' else [c])
     else if query_safe c then [c] else escape c) @ rest) = c # decode_query_component b rest"
proof -
  have sp: "''%20'' = escape (CHR '' '')" and pl: "''%2B'' = escape (CHR ''+'')"
    by (simp_all add: escape_def byte_def upper_hex_def)
  show ?thesis
  proof (cases "unreserved c \<or> c \<noteq> CHR '' '' \<and> (c = CHR ''+'' \<longrightarrow> \<not> b) \<and> (c \<noteq> CHR ''+'' \<longrightarrow> query_safe c)")
    case True
    then have "c \<noteq> CHR ''%''" "\<not> (b \<and> c = CHR ''+'')" using percent_not_safe by auto
    then show ?thesis using True decode_other(4) by (auto simp del: decode_query_component.simps)
  next
    case False
    have plus: "decode_query_component True (CHR ''+'' # rest) = CHR '' '' # decode_query_component True rest"
      by simp
    from False show ?thesis unfolding sp pl
      by (auto simp: decode_escape plus simp del: decode_query_component.simps)
  qed
qed

interpretation query_component: percent_coding "\<lambda>c. if unreserved c then [c]
     else if c = CHR '' '' then (if b then ''+'' else ''%20'')
     else if c = CHR ''+'' then (if b then ''%2B'' else [c])
     else if query_safe c then [c] else escape c" "decode_query_component b" for b
  by unfold_locales (simp_all only: decode_query_char decode_query_component.simps(1))

subsection \<open>Sanitized names\<close>

lemma dropWhile_rev_subset: "set (rev (dropWhile P (rev (dropWhile P xs)))) \<subseteq> set xs"
  using set_dropWhileD [of _ P "rev (dropWhile P xs)"] set_dropWhileD [of _ P xs] by auto

lemma sanitize_filename_safe:
  "CHR ''/'' \<notin> set (sanitize_filename f) \<and> CHR 0x5C \<notin> set (sanitize_filename f)
    \<and> CHR 0x00 \<notin> set (sanitize_filename f) \<and> sanitize_filename f \<notin> {''.'', ''..''}"
proof -
  let ?b = "filter (\<lambda>c. c \<noteq> CHR 0x00) (rev (takeWhile (\<lambda>c. c \<noteq> CHR ''/'' \<and> c \<noteq> CHR 0x5C) (rev f)))"
  have "set (sanitize_filename f) \<subseteq> set ?b"
    using dropWhile_rev_subset [of "\<lambda>c. c = CHR '' '' \<or> c = CHR 0x09" ?b]
    by (simp add: sanitize_filename_def Let_def)
  moreover have "CHR ''/'' \<notin> set ?b" "CHR 0x5C \<notin> set ?b" "CHR 0x00 \<notin> set ?b"
    by (auto dest: set_takeWhileD)
  moreover have "sanitize_filename f \<notin> {''.'', ''..''}"
    by (simp add: sanitize_filename_def Let_def)
  ultimately show ?thesis by blast
qed

end
