(* ===== verification/Http_Fields.thy ===== *)
theory Http_Fields
  imports Http_Uri
begin

text \<open>
  Trimming, splitting and the grammar of header fields of \<open>include/httplib.h\<close>.  The
  callbacks of \<open>split\<close> and \<open>divide\<close> become the list of pieces they are called with.
\<close>

subsection \<open>Trimming and splitting\<close>

definition is_space_or_tab :: "char \<Rightarrow> bool" where
  "is_space_or_tab c \<longleftrightarrow> c = CHR '' '' \<or> c = CHR 0x09"

definition trim_copy :: "string \<Rightarrow> string" where
  "trim_copy s = rev (dropWhile is_space_or_tab (rev (dropWhile is_space_or_tab s)))"

definition trim_double_quotes_copy :: "string \<Rightarrow> string" where
  "trim_double_quotes_copy s =
     (if 2 \<le> length s \<and> hd s = CHR 0x22 \<and> last s = CHR 0x22 then butlast (tl s) else s)"

text \<open>Around the first \<open>d\<close>; without one, the second part is empty.\<close>

definition divide :: "char \<Rightarrow> string \<Rightarrow> string \<times> string" where
  "divide d s = (takeWhile (\<lambda>c. c \<noteq> d) s, tl (dropWhile (\<lambda>c. c \<noteq> d) s))"

text \<open>The pieces between the separators, at most \<open>m\<close> of them, before trimming.\<close>

fun segments :: "char \<Rightarrow> nat \<Rightarrow> string \<Rightarrow> string \<Rightarrow> string list" where
  "segments d m acc [] = [acc]"
| "segments d m acc (c # s) =
     (if c = d \<and> 1 < m then acc # segments d (m - 1) [] s else segments d m (acc @ [c]) s)"

definition split_max :: "char \<Rightarrow> nat \<Rightarrow> string \<Rightarrow> string list" where
  "split_max d m s = filter (\<lambda>p. p \<noteq> []) (map trim_copy (segments d m [] s))"

definition split :: "char \<Rightarrow> string \<Rightarrow> string list" where
  "split d s = split_max d npos s"

text \<open>\<open>split_find\<close> stops at the first piece on which the callback returns true; here the
  callback returns \<open>Some\<close> for such a piece.\<close>

fun first_some :: "('a \<Rightarrow> 'b option) \<Rightarrow> 'a list \<Rightarrow> 'b option" where
  "first_some f [] = None"
| "first_some f (x # xs) = (case f x of Some y \<Rightarrow> Some y | None \<Rightarrow> first_some f xs)"

definition split_find :: "char \<Rightarrow> string \<Rightarrow> (string \<Rightarrow> 'b option) \<Rightarrow> 'b option" where
  "split_find d s f = first_some f (split d s)"

subsection \<open>Field grammar\<close>

definition is_token_char :: "char \<Rightarrow> bool" where
  "is_token_char c \<longleftrightarrow> is_ascii_alnum c \<or> c \<in> set ''!#$%&*+-.^_`|~'' \<or> c = CHR 0x27"

definition is_field_token :: "string \<Rightarrow> bool" where
  "is_field_token s \<longleftrightarrow> s \<noteq> [] \<and> list_all is_token_char s"

definition is_field_name :: "string \<Rightarrow> bool" where
  "is_field_name s \<longleftrightarrow> is_field_token s"

definition is_vchar :: "char \<Rightarrow> bool" where
  "is_vchar c \<longleftrightarrow> 33 \<le> byte c \<and> byte c \<le> 126"

definition is_obs_text :: "char \<Rightarrow> bool" where
  "is_obs_text c \<longleftrightarrow> 128 \<le> byte c"

definition is_field_vchar :: "char \<Rightarrow> bool" where
  "is_field_vchar c \<longleftrightarrow> is_vchar c \<or> is_obs_text c"

definition is_field_content :: "string \<Rightarrow> bool" where
  "is_field_content s =
     (if s = [] then True
      else if length s = 1 then is_field_vchar (s ! 0)
      else if length s = 2 then is_field_vchar (s ! 0) \<and> is_field_vchar (s ! 1)
      else is_field_vchar (hd s)
        \<and> list_all (\<lambda>c. c = CHR '' '' \<or> c = CHR 0x09 \<or> is_field_vchar c) (butlast (tl s))
        \<and> is_field_vchar (last s))"

definition is_field_value :: "string \<Rightarrow> bool" where
  "is_field_value s \<longleftrightarrow> is_field_content s"

definition is_field_valid :: "string \<Rightarrow> string \<Rightarrow> bool" where
  "is_field_valid name value \<longleftrightarrow> is_field_name name \<and> is_field_value value"

text \<open>\<open>parse_header\<close> on the bytes of a line without its terminator; \<open>None\<close> is \<open>false\<close>,
  \<open>Some\<close> what the callback gets.\<close>

definition parse_header :: "string \<Rightarrow> (string \<times> string) option" where
  "parse_header line =
     (let line = rev (dropWhile is_space_or_tab (rev line));
          name = takeWhile (\<lambda>c. c \<noteq> CHR '':'') line;
          rest = dropWhile (\<lambda>c. c \<noteq> CHR '':'') line in
      if \<not> is_field_name name then None
      else if rest = [] then None
      else (let val = dropWhile is_space_or_tab (tl rest) in
        if \<not> is_field_value val then None else Some (name, val)))"

subsection \<open>Field grammar: what it excludes\<close>

lemma token_char_facts:
  assumes "is_token_char c"
  shows "c \<noteq> CHR '':''" "\<not> is_space_or_tab c" "c \<noteq> CR" "c \<noteq> LF" "c \<noteq> CHR 0x00"
  using assms
  by (auto simp: is_token_char_def is_ascii_alnum_def is_ascii_alpha_def is_ascii_digit_def byte_def
      is_space_or_tab_def CR_def LF_def)

lemma field_vchar_facts:
  assumes "is_field_vchar c"
  shows "\<not> is_space_or_tab c" "c \<noteq> CR" "c \<noteq> LF" "c \<noteq> CHR 0x00"
  using assms
  by (auto simp: is_field_vchar_def is_vchar_def is_obs_text_def byte_def is_space_or_tab_def CR_def LF_def)

lemma field_content_iff:
  "is_field_content s \<longleftrightarrow> s = [] \<or> (is_field_vchar (hd s) \<and> is_field_vchar (last s)
     \<and> list_all (\<lambda>c. is_space_or_tab c \<or> is_field_vchar c) s)"
proof (cases s)
  case (Cons a t)
  show ?thesis
  proof (cases t rule: rev_cases)
    case (snoc u b)
    then show ?thesis
      using Cons by (cases u) (auto simp: is_field_content_def is_space_or_tab_def)
  qed (use Cons in \<open>auto simp: is_field_content_def\<close>)
qed (simp add: is_field_content_def)

lemma field_value_chars:
  assumes "is_field_value v" "c \<in> set v"
  shows "c \<noteq> CR" "c \<noteq> LF" "c \<noteq> CHR 0x00"
proof -
  have "is_space_or_tab c \<or> is_field_vchar c"
    using assms by (auto simp: is_field_value_def field_content_iff list_all_iff)
  then show "c \<noteq> CR" "c \<noteq> LF" "c \<noteq> CHR 0x00"
    using field_vchar_facts [of c] by (auto simp: is_space_or_tab_def CR_def LF_def)
qed

lemma field_valid_no_break:
  assumes "is_field_valid n v"
  shows "CR \<notin> set n \<and> LF \<notin> set n \<and> CR \<notin> set v \<and> LF \<notin> set v"
proof -
  have "\<not> is_token_char CR" "\<not> is_token_char LF" using token_char_facts by blast+
  then show ?thesis
    using assms field_value_chars [of v]
    by (auto simp: is_field_valid_def is_field_name_def is_field_token_def list_all_iff)
qed

text \<open>What the writer prints for a valid field, the parser reads back.\<close>

lemma parse_header_line:
  assumes "is_field_valid n v"
  shows "parse_header (n @ '': '' @ v) = Some (n, v)"
proof -
  have n: "list_all is_token_char n" "n \<noteq> []" and v: "is_field_content v"
    using assms by (auto simp: is_field_valid_def is_field_name_def is_field_token_def is_field_value_def)
  have colon: "CHR '':'' \<notin> set n" using n(1) token_char_facts(1) by (auto simp: list_all_iff)
  have tw: "takeWhile (\<lambda>c. c \<noteq> CHR '':'') (n @ CHR '':'' # t) = n"
    "dropWhile (\<lambda>c. c \<noteq> CHR '':'') (n @ CHR '':'' # t) = CHR '':'' # t" for t
    using colon by (induction n) auto
  show ?thesis
  proof (cases "v = []")
    case True
    have "rev (dropWhile is_space_or_tab (rev (n @ '': ''))) = n @ '':''"
      by (simp add: is_space_or_tab_def)
    then show ?thesis
      using True tw n by (simp add: parse_header_def Let_def is_field_name_def is_field_token_def
          is_field_value_def is_field_content_def)
  next
    case False
    then have e: "is_field_vchar (hd v)" "is_field_vchar (last v)" using v by (auto simp: field_content_iff)
    have "rev (dropWhile is_space_or_tab (rev (n @ '': '' @ v))) = n @ '': '' @ v"
      using field_vchar_facts(1) [OF e(2)] False by (cases v rule: rev_cases) auto
    moreover have "dropWhile is_space_or_tab (CHR '' '' # v) = v"
      using field_vchar_facts(1) [OF e(1)] False by (cases v) (auto simp: is_space_or_tab_def)
    ultimately show ?thesis
      using tw n v by (simp add: parse_header_def Let_def is_field_name_def is_field_token_def
          is_field_value_def)
  qed
qed

lemma parse_header_valid: "parse_header line = Some (n, v) \<Longrightarrow> is_field_valid n v"
  by (auto simp: parse_header_def is_field_valid_def Let_def split: if_splits)

end
