(* ===== verification/Http_Headers.thy ===== *)
theory Http_Headers
  imports Http_Fields
begin

text \<open>
  Header collections of \<open>include/httplib.h\<close>, the line reader, and the header block on the
  wire.  An \<open>unordered_multimap\<close> is the list of its entries in iteration order; a stream
  that is read from is the list of the bytes still to come.
\<close>

subsection \<open>Collections\<close>

type_synonym headers = "(string \<times> string) list"

definition equal_range :: "headers \<Rightarrow> string \<Rightarrow> string list" where
  "equal_range h key = map snd (filter (\<lambda>e. case_equal key (fst e)) h)"

text \<open>\<open>emplace\<close> keeps the entries that are there.\<close>

definition emplace :: "string \<Rightarrow> string \<Rightarrow> headers \<Rightarrow> headers" where
  "emplace key val h = h @ [(key, val)]"

text \<open>The tag by which the code compares some strings: 26 bits of a hash.\<close>

unbundle bit_operations_syntax

definition str2tag :: "string \<Rightarrow> nat" where
  "str2tag s = foldl (\<lambda>h c. ((h * 33) mod 67108864) XOR byte c) 0 s"

definition is_prohibited_header_name :: "string \<Rightarrow> bool" where
  "is_prohibited_header_name name \<longleftrightarrow>
     str2tag name \<in> {str2tag ''REMOTE_ADDR'', str2tag ''REMOTE_PORT'', str2tag ''LOCAL_ADDR'',
       str2tag ''LOCAL_PORT''}"

definition has_header :: "headers \<Rightarrow> string \<Rightarrow> bool" where
  "has_header h key \<longleftrightarrow> (if is_prohibited_header_name key then False else equal_range h key \<noteq> [])"

text \<open>A prohibited name is an exception.  The value is returned as a C string, so it ends at
  a null character.\<close>

definition c_str :: "string \<Rightarrow> string" where
  "c_str s = takeWhile (\<lambda>c. c \<noteq> CHR 0x00) s"

definition get_header_value :: "headers \<Rightarrow> string \<Rightarrow> string \<Rightarrow> nat \<Rightarrow> string res" where
  "get_header_value h key dflt n =
     (if is_prohibited_header_name key then Inl Invalid_Argument
      else let r = equal_range h key in Inr (if n < length r then c_str (r ! n) else dflt))"

definition get_header_value_count :: "headers \<Rightarrow> string \<Rightarrow> nat" where
  "get_header_value_count h key = length (equal_range h key)"

definition get_multimap_value :: "headers \<Rightarrow> string \<Rightarrow> nat \<Rightarrow> string" where
  "get_multimap_value m key n = (let r = equal_range m key in if n < length r then r ! n else [])"

text \<open>The number and whether it is invalid.\<close>

definition get_header_value_u64 :: "headers \<Rightarrow> string \<Rightarrow> nat \<Rightarrow> nat \<Rightarrow> nat \<times> bool" where
  "get_header_value_u64 h key dflt n =
     (let r = equal_range h key in
      if n < length r then
        (if is_numeric (r ! n) then
           (case from_chars_size 10 (r ! n) of (rest, ec, val) \<Rightarrow>
              if ec = Errc_out_of_range then (npos, True) else (val, False))
         else (dflt, True))
      else (dflt, False))"

definition set_header :: "string \<Rightarrow> string \<Rightarrow> headers \<Rightarrow> headers" where
  "set_header key val h = (if is_field_valid key val then emplace key val h else h)"

definition erase_header :: "string \<Rightarrow> headers \<Rightarrow> headers" where
  "erase_header key h = filter (\<lambda>e. \<not> case_equal key (fst e)) h"

subsection \<open>Reading lines\<close>

definition MAX_LINE_LENGTH :: nat where "MAX_LINE_LENGTH = 32768"
definition HEADER_MAX_LENGTH :: nat where "HEADER_MAX_LENGTH = 8192"
definition HEADER_MAX_COUNT :: nat where "HEADER_MAX_COUNT = 100"

text \<open>\<open>getline\<close>: the line with its terminator and the rest of the stream; at the end of the
  stream what is left, if anything.  The first argument is the line so far.\<close>

fun getline_loop :: "string \<Rightarrow> string \<Rightarrow> (string \<times> string) option" where
  "getline_loop line [] =
     (if MAX_LINE_LENGTH \<le> length line then None
      else if line = [] then None else Some (line, []))"
| "getline_loop line (b # s) =
     (if MAX_LINE_LENGTH \<le> length line then None
      else if line \<noteq> [] \<and> last line = CR \<and> b = LF then Some (line @ [b], s)
      else getline_loop (line @ [b]) s)"

definition getline :: "string \<Rightarrow> (string \<times> string) option" where
  "getline s = getline_loop [] s"

definition end_with_crlf :: "string \<Rightarrow> bool" where
  "end_with_crlf line \<longleftrightarrow> 2 \<le> length line \<and> drop (length line - 2) line = CRLF"

lemma getline_loop_shorter: "getline_loop line s = Some (l, r) \<Longrightarrow> length r \<le> length s \<and> (line = [] \<longrightarrow> length r < length s)"
proof (induction line s rule: getline_loop.induct)
  case (2 line b s)
  then show ?case by (auto split: if_splits)
qed (auto split: if_splits)

text \<open>The loop of \<open>read_headers\<close>.\<close>

function read_header_lines :: "string \<Rightarrow> nat \<Rightarrow> headers \<Rightarrow> (headers \<times> string) option" where
  "read_header_lines s count h =
     (case getline s of
        None \<Rightarrow> None
      | Some (line, rest) \<Rightarrow>
          if \<not> end_with_crlf line then read_header_lines rest count h
          else if length line = 2 then Some (h, rest)
          else if HEADER_MAX_LENGTH < length line then None
          else if HEADER_MAX_COUNT \<le> count then None
          else (case parse_header (take (length line - 2) line) of
                  None \<Rightarrow> None
                | Some (key, val) \<Rightarrow> read_header_lines rest (count + 1) (emplace key val h)))"
  by pat_completeness auto
termination
  by (relation "measure (\<lambda>(s, count, h). length s)")
     (auto simp: getline_def dest: getline_loop_shorter)

declare read_header_lines.simps [simp del]

text \<open>Different values of \<open>Content-Length\<close> are refused.\<close>

definition one_content_length :: "headers \<Rightarrow> bool" where
  "one_content_length h =
     (case equal_range h ''Content-Length'' of [] \<Rightarrow> True | v # vs \<Rightarrow> list_all (\<lambda>w. w = v) vs)"

definition read_headers :: "string \<Rightarrow> (headers \<times> string) option" where
  "read_headers s =
     (case read_header_lines s 0 [] of
        None \<Rightarrow> None
      | Some (h, rest) \<Rightarrow> if one_content_length h then Some (h, rest) else None)"

subsection \<open>Writing\<close>

definition header_line :: "string \<times> string \<Rightarrow> string" where
  "header_line x = fst x @ '': '' @ snd x @ CRLF"

definition write_headers :: "headers \<Rightarrow> string" where
  "write_headers h = concat (map header_line (filter (\<lambda>x. is_field_valid (fst x) (snd x)) h)) @ CRLF"

subsection \<open>What is written is read back\<close>

lemma CRLF_split: "CRLF = [CR, LF]"
  by (simp add: CRLF_def CR_def LF_def)

lemma getline_loop_crlf:
  "LF \<notin> set t \<Longrightarrow> length line + length t < MAX_LINE_LENGTH - 1 \<Longrightarrow>
     getline_loop line (t @ CRLF @ rest) = Some (line @ t @ CRLF, rest)"
proof (induction t arbitrary: line)
  case Nil
  then show ?case by (auto simp: CRLF_split CR_def LF_def MAX_LINE_LENGTH_def)
next
  case (Cons b t)
  then show ?case by (auto simp: MAX_LINE_LENGTH_def)
qed

lemma getline_crlf:
  "LF \<notin> set t \<Longrightarrow> length t < MAX_LINE_LENGTH - 1 \<Longrightarrow> getline (t @ CRLF @ rest) = Some (t @ CRLF, rest)"
  using getline_loop_crlf [of t "[]" rest] by (simp add: getline_def)

lemma end_with_crlf_append [simp]: "end_with_crlf (t @ CRLF)"
  by (simp add: end_with_crlf_def CRLF_split)

lemma read_header_lines_step:
  assumes "is_field_valid n v" "length n + length v < 8188" "count < HEADER_MAX_COUNT"
  shows "read_header_lines (header_line (n, v) @ rest) count h =
    read_header_lines rest (count + 1) (h @ [(n, v)])"
proof -
  let ?t = "n @ '': '' @ v"
  have "LF \<notin> set ?t" using field_valid_no_break [OF assms(1)] by (simp add: LF_def)
  then have g: "getline (?t @ CRLF @ rest) = Some (?t @ CRLF, rest)"
    using assms(2) by (intro getline_crlf) (auto simp: MAX_LINE_LENGTH_def)
  have e: "header_line (n, v) @ rest = ?t @ CRLF @ rest" by (simp add: header_line_def)
  have l: "length (?t @ CRLF) = length n + length v + 4" by (simp add: CRLF_split)
  have tk: "take (length (?t @ CRLF) - 2) (?t @ CRLF) = ?t" by (simp add: CRLF_split)
  show ?thesis
    unfolding e
    by (subst read_header_lines.simps)
       (use g l tk assms(2,3) parse_header_line [OF assms(1)] end_with_crlf_append [of ?t] in
        \<open>simp only: option.case prod.case, simp add: HEADER_MAX_LENGTH_def emplace_def\<close>)
qed

lemma read_header_lines_end: "read_header_lines (CRLF @ rest) count h = Some (h, rest)"
  using getline_crlf [of "[]" rest] end_with_crlf_append [of "[]"]
  by (subst read_header_lines.simps) (simp add: MAX_LINE_LENGTH_def CRLF_split)

definition short_field :: "string \<times> string \<Rightarrow> bool" where
  "short_field x \<longleftrightarrow> length (fst x) + length (snd x) < 8188"

lemma read_written_lines:
  "list_all (\<lambda>x. is_field_valid (fst x) (snd x)) es \<Longrightarrow> list_all short_field es \<Longrightarrow>
     count + length es \<le> HEADER_MAX_COUNT \<Longrightarrow>
     read_header_lines (concat (map header_line es) @ CRLF @ rest) count h = Some (h @ es, rest)"
proof (induction es arbitrary: count h)
  case (Cons x es)
  obtain n v where x: "x = (n, v)" by (cases x)
  have "read_header_lines (header_line (n, v) @ concat (map header_line es) @ CRLF @ rest) count h =
      read_header_lines (concat (map header_line es) @ CRLF @ rest) (count + 1) (h @ [(n, v)])"
    using Cons.prems x by (intro read_header_lines_step) (auto simp: short_field_def)
  also have "\<dots> = Some ((h @ [(n, v)]) @ es, rest)"
    using Cons.prems by (intro Cons.IH) auto
  finally show ?case by (simp add: x)
qed (simp add: read_header_lines_end)

lemma headers_roundtrip:
  assumes "list_all short_field h" "length (filter (\<lambda>x. is_field_valid (fst x) (snd x)) h) \<le> HEADER_MAX_COUNT"
    "one_content_length (filter (\<lambda>x. is_field_valid (fst x) (snd x)) h)"
  shows "read_headers (write_headers h @ rest) = Some (filter (\<lambda>x. is_field_valid (fst x) (snd x)) h, rest)"
proof -
  let ?v = "filter (\<lambda>x. is_field_valid (fst x) (snd x)) h"
  have "read_header_lines (concat (map header_line ?v) @ CRLF @ rest) 0 [] = Some ([] @ ?v, rest)"
    using assms by (intro read_written_lines) (auto simp: list_all_iff)
  then show ?thesis using assms(3) by (simp add: read_headers_def write_headers_def)
qed

subsection \<open>Lookups\<close>

lemma equal_range_emplace:
  "equal_range (emplace k v h) key = equal_range h key @ (if case_equal key k then [v] else [])"
  by (simp add: equal_range_def emplace_def)

lemma equal_range_erase:
  "equal_range (erase_header k h) key = (if case_equal k key then [] else equal_range h key)"
proof -
  have "filter (\<lambda>e. case_equal key (fst e) \<and> \<not> case_equal k (fst e)) h =
      (if case_equal k key then [] else filter (\<lambda>e. case_equal key (fst e)) h)"
    by (induction h) (auto simp: case_equal_map)
  then show ?thesis by (simp add: equal_range_def erase_header_def conj_commute)
qed

lemma equal_range_case: "case_equal k l \<Longrightarrow> equal_range h k = equal_range h l"
  by (simp add: equal_range_def case_equal_map)

text \<open>A length header is read exactly, or reported as invalid.\<close>

lemma header_number:
  assumes "n < length (equal_range h key)"
  shows "get_header_value_u64 h key d n =
    (let v = equal_range h key ! n in
     if is_numeric v then (if read_digits 0 v \<le> npos then (read_digits 0 v, False) else (npos, True))
     else (d, True))"
proof (cases "is_numeric (equal_range h key ! n)")
  case True
  then show ?thesis
    using assms from_chars_numeric [OF True]
    by (cases "read_digits 0 (equal_range h key ! n) \<le> npos")
       (auto simp: get_header_value_u64_def Let_def)
qed (use assms in \<open>simp add: get_header_value_u64_def Let_def\<close>)

end
