(* ===== verification/Http_Query.thy ===== *)
theory Http_Query
  imports Http_Status Cpp_Double "HOL-Library.List_Lexorder" "HOL-Library.Char_ord"
    "HOL-Library.Multiset"
begin

text \<open>
  Query strings, and the headers of \<open>include/httplib.h\<close> with a grammar of their own:
  \<open>Range\<close> and \<open>Accept\<close>.  A \<open>std::multimap\<close> is the list of its entries in the order of
  the keys, bytewise, entries with equal keys in the order they came.
\<close>

subsection \<open>Query strings\<close>

type_synonym params = "(string \<times> string) list"

fun params_emplace :: "string \<times> string \<Rightarrow> params \<Rightarrow> params" where
  "params_emplace kv [] = [kv]"
| "params_emplace kv (x # xs) =
     (if fst kv < fst x then kv # x # xs else x # params_emplace kv xs)"

fun join :: "string \<Rightarrow> string list \<Rightarrow> string" where
  "join sep [] = []"
| "join sep [x] = x"
| "join sep (x # y # ys) = x @ sep @ join sep (y # ys)"

definition query_pair :: "string \<times> string \<Rightarrow> string" where
  "query_pair kv = encode_query_component True (fst kv) @ ''='' @ encode_query_component True (snd kv)"

definition params_to_query_str :: "params \<Rightarrow> string" where
  "params_to_query_str ps = join ''&'' (map query_pair ps)"

text \<open>The callback of \<open>parse_query_text\<close>; a pair that came before, letter by letter, is
  skipped.\<close>

fun query_loop :: "string list \<Rightarrow> string list \<Rightarrow> params \<Rightarrow> params" where
  "query_loop [] cache ps = ps"
| "query_loop (kv # rest) cache ps =
     (if kv \<in> set cache then query_loop rest cache ps
      else (case divide CHR ''='' kv of (key, val) \<Rightarrow>
        query_loop rest (kv # cache)
          (if key \<noteq> [] then
             params_emplace (decode_query_component True key, decode_query_component True val) ps
           else ps)))"

definition parse_query_text :: "string \<Rightarrow> params \<Rightarrow> params" where
  "parse_query_text s ps = query_loop (split CHR ''&'' s) [] ps"

definition normalize_piece :: "string \<Rightarrow> string list" where
  "normalize_piece p =
     (case divide CHR ''='' p of (key, val) \<Rightarrow>
        if key = [] then []
        else [encode_query_component True (decode_query_component True key) @
          (if val \<noteq> [] \<or> CHR ''='' \<in> set p
           then ''='' @ encode_query_component True (decode_query_component True val) else [])])"

definition normalize_query_string :: "string \<Rightarrow> string" where
  "normalize_query_string query = join ''&'' (concat (map normalize_piece (split CHR ''&'' query)))"

subsection \<open>Disposition parameters\<close>

definition disposition_pair :: "string \<Rightarrow> (string \<times> string) option" where
  "disposition_pair kv =
     (case split CHR ''='' kv of
        [] \<Rightarrow> None
      | key # vals \<Rightarrow> Some (trim_double_quotes_copy key,
          trim_double_quotes_copy (if vals = [] then [] else last vals)))"

fun disposition_loop :: "string list \<Rightarrow> string list \<Rightarrow> params \<Rightarrow> params" where
  "disposition_loop [] cache ps = ps"
| "disposition_loop (kv # rest) cache ps =
     (if kv \<in> set cache then disposition_loop rest cache ps
      else disposition_loop rest (kv # cache)
        (case disposition_pair kv of None \<Rightarrow> ps | Some p \<Rightarrow> params_emplace p ps))"

definition parse_disposition_params :: "string \<Rightarrow> params \<Rightarrow> params" where
  "parse_disposition_params s ps = disposition_loop (split CHR '';'' s) [] ps"

subsection \<open>Ranges\<close>

text \<open>A missing end is \<open>-1\<close>.\<close>

type_synonym range_t = "int \<times> int"

definition range_number :: "string \<Rightarrow> int" where
  "range_number s =
     (if s = [] then -1
      else (case from_chars (nat LLONG_MAX) 10 s of
        (rest, ec, negative, n) \<Rightarrow> if ec = Errc_ok then (if negative then - int n else int n) else -1))"

definition parse_range :: "string \<Rightarrow> range_t option" where
  "parse_range p =
     (if CHR ''-'' \<notin> set p then None
      else (case divide CHR ''-'' p of (lhs, rhs) \<Rightarrow>
        if \<not> (list_all is_ascii_digit lhs \<and> list_all is_ascii_digit rhs) then None
        else (let first = range_number lhs; last = range_number rhs in
          if first = -1 \<and> last = -1 \<or> first \<noteq> -1 \<and> last \<noteq> -1 \<and> last < first then None
          else Some (first, last))))"

definition parse_range_header :: "string \<Rightarrow> range_t list option" where
  "parse_range_header s =
     (if 7 < length s \<and> take 6 s = ''bytes='' then
        (let ranges = map parse_range (split CHR '','' (drop 6 s)) in
         if None \<in> set ranges \<or> ranges = [] then None else Some (map the ranges))
      else None)"

definition range_text :: "range_t \<Rightarrow> string" where
  "range_text r = (if fst r \<noteq> -1 then show_int (fst r) else []) @ ''-''
     @ (if snd r \<noteq> -1 then show_int (snd r) else [])"

definition make_range_header :: "range_t list \<Rightarrow> string \<times> string" where
  "make_range_header ranges = (''Range'', ''bytes='' @ join '', '' (map range_text ranges))"

subsection \<open>Quality values and Accept\<close>

text \<open>The hand-written number parser: at most 18 fractional digits, and digits that no longer
  fit the accumulator are dropped.\<close>

definition mantissa_limit :: nat where "mantissa_limit = (18446744073709551615 - 9) div 10"

fun quality_int :: "string \<Rightarrow> nat \<Rightarrow> nat" where
  "quality_int [] m = m"
| "quality_int (c # s) m = quality_int s (if m \<le> mantissa_limit then m * 10 + (byte c - 48) else m)"

fun quality_frac :: "string \<Rightarrow> nat \<Rightarrow> nat \<Rightarrow> nat \<times> nat" where
  "quality_frac [] m k = (m, k)"
| "quality_frac (c # s) m k =
     (if k < 18 \<and> m \<le> mantissa_limit then quality_frac s (m * 10 + (byte c - 48)) (k + 1)
      else quality_frac s m k)"

definition from_chars_double :: "string \<Rightarrow> rat option" where
  "from_chars_double s =
     (let whole = takeWhile is_ascii_digit s; rest = dropWhile is_ascii_digit s;
          frac = (if rest \<noteq> [] \<and> hd rest = CHR ''.'' then takeWhile is_ascii_digit (tl rest) else [])
      in if whole = [] \<and> frac = [] then None
         else (case quality_frac frac (quality_int whole 0) 0 of (m, k) \<Rightarrow>
           Some (fl (fl (of_nat m) / 10 ^ k))))"

text \<open>The parameter \<open>q=\<close>: \<open>Some None\<close> when it is there and invalid.\<close>

definition quality_param :: "string \<Rightarrow> rat option option" where
  "quality_param p =
     (if length p < 2 then None
      else if (p ! 0 \<noteq> CHR ''q'' \<and> p ! 0 \<noteq> CHR ''Q'') \<or> p ! 1 \<noteq> CHR ''='' then None
      else (let v = trim_copy (drop 2 p) in
        if v = [] then Some None
        else (case from_chars_double v of
          None \<Rightarrow> Some None
        | Some q \<Rightarrow> if q < 0 \<or> 1 < q then Some None else Some (Some q))))"

definition parse_quality :: "string \<Rightarrow> (string \<times> rat) option" where
  "parse_quality s =
     (case divide CHR '';'' s of (name, params) \<Rightarrow>
        let token = trim_copy name in
        if token = [] then None
        else if params = [] then Some (token, 1)
        else (case split_find CHR '';'' params quality_param of
          None \<Rightarrow> Some (token, 1)
        | Some None \<Rightarrow> None
        | Some (Some q) \<Rightarrow> Some (token, q)))"

definition accept_entry :: "string \<Rightarrow> (string \<times> rat) option" where
  "accept_entry piece =
     (let entry = trim_copy piece in
      if entry = [] then None
      else (case parse_quality entry of
        None \<Rightarrow> None
      | Some (media, q) \<Rightarrow>
          let media_type = fst (extract_media_type media) in
          if media_type = [] then None
          else if media_type \<noteq> ''*'' \<and> CHR ''/'' \<notin> set media_type then None
          else Some (media_type, q)))"

text \<open>\<open>std::sort\<close> by quality, the order of the header breaking ties: a stable insertion sort
  gives the same sequence, since no two entries compare equal.\<close>

fun accept_insert :: "string \<times> rat \<Rightarrow> (string \<times> rat) list \<Rightarrow> (string \<times> rat) list" where
  "accept_insert x [] = [x]"
| "accept_insert x (y # ys) = (if snd y \<le> snd x then x # y # ys else y # accept_insert x ys)"

definition accept_sort :: "(string \<times> rat) list \<Rightarrow> (string \<times> rat) list" where
  "accept_sort es = foldr accept_insert es []"

definition has_infix :: "string \<Rightarrow> string \<Rightarrow> bool" where
  "has_infix pat s \<longleftrightarrow> index_of pat s \<noteq> None"

definition parse_accept_header :: "string \<Rightarrow> string list option" where
  "parse_accept_header s =
     (if s = [] then Some []
      else if hd s = CHR '','' \<or> last s = CHR '','' \<or> has_infix '',,'' s then None
      else (let entries = map accept_entry (split CHR '','' s) in
        if None \<in> set entries then None else Some (map fst (accept_sort (map the entries)))))"

subsection \<open>Splitting what was joined\<close>

lemma segments_no_sep: "d \<notin> set s \<Longrightarrow> segments d m acc s = [acc @ s]"
  by (induction s arbitrary: acc) auto

lemma segments_sep:
  "d \<notin> set s \<Longrightarrow> 1 < m \<Longrightarrow> segments d m acc (s @ d # rest) = (acc @ s) # segments d (m - 1) [] rest"
  by (induction s arbitrary: acc) auto

lemma segments_prefix: "d \<notin> set bl \<Longrightarrow> segments d m acc (bl @ s) = segments d m (acc @ bl) s"
  by (induction bl arbitrary: acc) auto

lemma segments_join:
  "list_all (\<lambda>x. d \<notin> set x) (x # xs) \<Longrightarrow> d \<notin> set bl \<Longrightarrow> length xs < m \<Longrightarrow>
     segments d m acc (join (d # bl) (x # xs)) = (acc @ x) # map (\<lambda>y. bl @ y) xs"
proof (induction xs arbitrary: x m acc)
  case Nil
  then show ?case by (simp add: segments_no_sep)
next
  case (Cons y ys)
  have "segments d m acc (join (d # bl) (x # y # ys)) =
      (acc @ x) # segments d (m - 1) [] (bl @ join (d # bl) (y # ys))"
    using Cons.prems by (simp add: segments_sep)
  also have "segments d (m - 1) [] (bl @ join (d # bl) (y # ys)) = segments d (m - 1) bl (join (d # bl) (y # ys))"
    using Cons.prems(2) by (simp add: segments_prefix)
  also have "\<dots> = (bl @ y) # map (\<lambda>y. bl @ y) ys"
    using Cons.prems by (intro Cons.IH) auto
  finally show ?case by simp
qed

definition trimmed :: "string \<Rightarrow> bool" where
  "trimmed s \<longleftrightarrow> s \<noteq> [] \<and> \<not> is_space_or_tab (hd s) \<and> \<not> is_space_or_tab (last s)"

lemma trim_trimmed:
  assumes "trimmed s" "list_all is_space_or_tab bl"
  shows "trim_copy (bl @ s) = s"
proof -
  have "dropWhile is_space_or_tab (bl @ s) = s"
    using assms by (intro dropWhile_append_stop) (auto simp: trimmed_def list_all_iff)
  moreover have "dropWhile is_space_or_tab (rev s) = rev s"
    using assms(1) by (intro dropWhile_stop) (auto simp: trimmed_def hd_rev)
  ultimately show ?thesis by (simp add: trim_copy_def)
qed

lemma split_join:
  assumes "list_all trimmed xs" "list_all (\<lambda>x. d \<notin> set x) xs" "list_all is_space_or_tab bl"
    "d \<notin> set bl" "length xs < npos"
  shows "split d (join (d # bl) xs) = xs"
proof (cases xs)
  case Nil
  then show ?thesis by (simp add: split_def split_max_def trim_copy_def)
next
  case (Cons y ys)
  have "map trim_copy (segments d npos [] (join (d # bl) xs)) = xs"
    using assms segments_join [of d y ys bl npos "[]"] trim_trimmed [of y "[]"] trim_trimmed [of _ bl]
    by (auto simp: Cons list_all_iff intro!: map_idI)
  then show ?thesis
    using assms(1) by (auto simp: split_def split_max_def list_all_iff trimmed_def intro!: filter_True)
qed

lemma split_single: "d \<notin> set s \<Longrightarrow> trimmed s \<Longrightarrow> split d s = [s]"
  using split_join [of "[s]" d "[]"] by (simp add: npos_def)

lemma divide_at: "d \<notin> set k \<Longrightarrow> divide d (k @ d # v) = (k, v)"
  by (induction k) (auto simp: divide_def)

subsection \<open>Query round trip\<close>

text \<open>No separator of a query survives the coding of a component.\<close>

definition separators :: "char list" where "separators = [CHR ''&'', CHR ''='', CHR '' '', CHR 0x09]"

lemma separators_upper_hex: "list_all (\<lambda>c. c \<notin> set upper_hex) separators"
  by (simp add: separators_def upper_hex_def)

lemma separators_unsafe: "list_all (\<lambda>c. \<not> unreserved c \<and> \<not> query_safe c \<and> c \<notin> set ''+%2B'') separators"
  by (simp add: separators_def) code_simp

lemma upper_hex_nth: "d < 16 \<Longrightarrow> upper_hex ! d \<in> set upper_hex"
  by (rule nth_mem) (simp add: upper_hex_def)

lemma escape_no_separator:
  assumes "x \<in> set separators"
  shows "x \<notin> set (escape c)"
proof -
  have h: "x \<notin> set upper_hex" and p: "x \<noteq> CHR ''%''"
    using assms separators_upper_hex separators_unsafe by (simp_all add: list_all_iff)
  have "upper_hex ! (byte c div 16) \<noteq> x" "upper_hex ! (byte c mod 16) \<noteq> x"
    using h upper_hex_nth [of "byte c div 16"] upper_hex_nth [of "byte c mod 16"] byte_less [of c] by auto
  then show ?thesis using p by (simp add: escape_def)
qed

lemma encode_query_Cons:
  "encode_query_component True (c # s) =
     (if unreserved c then [c] else if c = CHR '' '' then ''+'' else if c = CHR ''+'' then ''%2B''
      else if query_safe c then [c] else escape c) @ encode_query_component True s"
  by (simp add: encode_query_component_def)

lemma query_chars: "x \<in> set separators \<Longrightarrow> x \<notin> set (encode_query_component True s)"
proof (induction s)
  case (Cons c s)
  have x: "\<not> unreserved x" "\<not> query_safe x" "x \<notin> set ''+%2B''"
    using Cons.prems separators_unsafe unfolding list_all_iff by blast+
  have "x \<notin> set (if unreserved c then [c] else if c = CHR '' '' then ''+'' else if c = CHR ''+''
      then ''%2B'' else if query_safe c then [c] else escape c)"
    using x escape_no_separator [OF Cons.prems, of c] by (simp split: if_split) metis
  then show ?case using Cons unfolding encode_query_Cons by simp
qed (simp add: encode_query_component_def)

lemma query_no_separator:
  "CHR ''&'' \<notin> set (encode_query_component True s)" "CHR ''='' \<notin> set (encode_query_component True s)"
  "c \<in> set (encode_query_component True s) \<Longrightarrow> \<not> is_space_or_tab c"
  using query_chars [of _ s] by (auto simp: separators_def is_space_or_tab_def)

lemma encode_query_nonempty: "s \<noteq> [] \<Longrightarrow> encode_query_component True s \<noteq> []"
  by (cases s) (auto simp: encode_query_component_def escape_def)

lemma decode_encode_query: "decode_query_component b (encode_query_component b s) = s"
  unfolding encode_query_component_def by (rule query_component.decode_encode)

lemma query_pair_divide:
  "divide CHR ''='' (query_pair kv) = (encode_query_component True (fst kv), encode_query_component True (snd kv))"
  using query_no_separator(2) by (simp add: query_pair_def divide_at)

lemma query_pair_inj:
  assumes "query_pair kv = query_pair kv'"
  shows "kv = kv'"
proof -
  have "encode_query_component True (fst kv) = encode_query_component True (fst kv')"
    "encode_query_component True (snd kv) = encode_query_component True (snd kv')"
    using assms query_pair_divide [of kv] query_pair_divide [of kv'] by simp_all
  then have "fst kv = fst kv'" "snd kv = snd kv'"
    using decode_encode_query [of True] by metis+
  then show ?thesis by (rule prod_eqI)
qed

lemma query_pair_trimmed:
  assumes "fst kv \<noteq> []"
  shows "trimmed (query_pair kv)" "CHR ''&'' \<notin> set (query_pair kv)"
proof -
  have b: "\<not> is_space_or_tab c" if "c \<in> set (query_pair kv)" for c
    using that query_no_separator(3) by (auto simp: query_pair_def is_space_or_tab_def)
  have "query_pair kv \<noteq> []" by (simp add: query_pair_def)
  then show "trimmed (query_pair kv)"
    using b [OF hd_in_set] b [OF last_in_set] by (simp add: trimmed_def)
  show "CHR ''&'' \<notin> set (query_pair kv)"
    using query_no_separator(1) by (simp add: query_pair_def)
qed

lemma params_emplace_end: "\<forall>x \<in> set ps. fst x \<le> fst kv \<Longrightarrow> params_emplace kv ps = ps @ [kv]"
  by (induction ps) (auto simp: not_less)

lemma query_loop_pairs:
  "sorted (map fst (ps @ kvs)) \<Longrightarrow> distinct kvs \<Longrightarrow> list_all (\<lambda>kv. fst kv \<noteq> []) kvs \<Longrightarrow>
     set (map query_pair kvs) \<inter> set cache = {} \<Longrightarrow>
     query_loop (map query_pair kvs) cache ps = ps @ kvs"
proof (induction kvs arbitrary: ps cache)
  case (Cons kv kvs)
  have e: "params_emplace kv ps = ps @ [kv]"
    using Cons.prems(1) by (intro params_emplace_end) (auto simp: sorted_append)
  have "query_loop (map query_pair kvs) (query_pair kv # cache) (ps @ [kv]) = (ps @ [kv]) @ kvs"
  proof (rule Cons.IH)
    show "sorted (map fst ((ps @ [kv]) @ kvs))" "distinct kvs" "list_all (\<lambda>kv. fst kv \<noteq> []) kvs"
      using Cons.prems by simp_all
    have "query_pair kv \<notin> query_pair ` set kvs"
      using Cons.prems(2) inj_image_mem_iff [OF injI [of query_pair, OF query_pair_inj]] by simp
    then show "set (map query_pair kvs) \<inter> set (query_pair kv # cache) = {}"
      using Cons.prems(4) by auto
  qed
  then show ?case
    using Cons.prems e
    by (simp add: query_pair_divide decode_encode_query encode_query_nonempty)
qed simp

lemma query_roundtrip:
  assumes "sorted (map fst ps)" "distinct ps" "list_all (\<lambda>kv. fst kv \<noteq> []) ps" "length ps < npos"
  shows "parse_query_text (params_to_query_str ps) [] = ps"
proof -
  have "split CHR ''&'' (params_to_query_str ps) = map query_pair ps"
    unfolding params_to_query_str_def
    using assms(3,4) query_pair_trimmed by (intro split_join) (auto simp: list_all_iff)
  then show ?thesis
    using query_loop_pairs [of "[]" ps "[]"] assms by (simp add: parse_query_text_def)
qed

subsection \<open>Range round trip\<close>

definition valid_range :: "range_t \<Rightarrow> bool" where
  "valid_range r \<longleftrightarrow> -1 \<le> fst r \<and> -1 \<le> snd r \<and> fst r \<le> LLONG_MAX \<and> snd r \<le> LLONG_MAX
     \<and> \<not> (fst r = -1 \<and> snd r = -1) \<and> (snd r = -1 \<or> fst r \<le> snd r)"

lemma show_int_nat: "0 \<le> i \<Longrightarrow> show_int i = show_nat (nat i)"
  by (simp add: show_int_def)

lemma digit_kinds: "is_ascii_digit c = isdigit c"
  by (simp add: is_ascii_digit_def isdigit_def byte_def)

lemma show_nat_ascii: "list_all is_ascii_digit (show_nat n)"
  using show_nat_digits [of n] by (simp add: list_all_iff digit_kinds)

lemma show_nat_sep: "\<not> isdigit c \<Longrightarrow> c \<notin> set (show_nat n)"
  using show_nat_digits [of n] by auto

lemma range_number_show:
  assumes "0 \<le> i" "i \<le> LLONG_MAX"
  shows "range_number (show_nat (nat i)) = i"
proof -
  have "hd (show_nat (nat i)) \<noteq> CHR ''-''"
    using show_nat_hd [of "nat i"] by (auto simp: isdigit_def)
  then have "from_chars (nat LLONG_MAX) 10 (show_nat (nat i)) = ([], Errc_ok, False, nat i)"
    using from_chars_digits(1) [OF show_nat_ascii, of "nat LLONG_MAX" 0 "nat i"] assms
    by (auto simp: from_chars_def read_show_nat LLONG_MAX_def Let_def show_nat_nonempty [symmetric])
  then show ?thesis using assms by (simp add: range_number_def)
qed

lemma range_side:
  assumes "-1 \<le> i" "i \<le> LLONG_MAX"
  defines "t \<equiv> (if i \<noteq> -1 then show_int i else [])"
  shows "range_number t = i" "list_all is_ascii_digit t" "\<not> isdigit c \<Longrightarrow> c \<notin> set t"
  using assms range_number_show [of i] show_nat_ascii show_nat_sep
  by (auto simp: t_def show_int_nat range_number_def)

lemma parse_range_text:
  assumes "valid_range r"
  shows "parse_range (range_text r) = Some r"
proof -
  have f: "-1 \<le> fst r" "fst r \<le> LLONG_MAX" and l: "-1 \<le> snd r" "snd r \<le> LLONG_MAX"
    using assms by (simp_all add: valid_range_def)
  have "CHR ''-'' \<notin> set (if fst r \<noteq> -1 then show_int (fst r) else [])"
    by (rule range_side(3) [OF f]) (simp add: isdigit_def)
  then have "divide CHR ''-'' (range_text r) =
      (if fst r \<noteq> -1 then show_int (fst r) else [], if snd r \<noteq> -1 then show_int (snd r) else [])"
    unfolding range_text_def append_Cons append_Nil by (rule divide_at)
  moreover have "CHR ''-'' \<in> set (range_text r)" by (simp add: range_text_def)
  ultimately show ?thesis
    using assms range_side(1,2) [OF f] range_side(1,2) [OF l]
    unfolding parse_range_def by (auto simp: Let_def valid_range_def)
qed

lemma range_text_trimmed:
  assumes "valid_range r"
  shows "trimmed (range_text r)" "CHR '','' \<notin> set (range_text r)"
proof -
  have f: "-1 \<le> fst r" "fst r \<le> LLONG_MAX" and l: "-1 \<le> snd r" "snd r \<le> LLONG_MAX"
    using assms by (simp_all add: valid_range_def)
  have n: "c \<notin> set (range_text r)" if "\<not> isdigit c" "c \<noteq> CHR ''-''" for c
    using range_side(3) [OF f that(1)] range_side(3) [OF l that(1)] that by (simp add: range_text_def)
  then show "CHR '','' \<notin> set (range_text r)" by (simp add: isdigit_def)
  have "range_text r \<noteq> []" by (simp add: range_text_def)
  moreover have "\<not> is_space_or_tab c" if "c \<in> set (range_text r)" for c
    using that n [of c] by (auto simp: is_space_or_tab_def isdigit_def)
  ultimately show "trimmed (range_text r)" by (simp add: trimmed_def)
qed

lemma range_text_long: "valid_range r \<Longrightarrow> 1 < length (range_text r)"
  by (auto simp: valid_range_def range_text_def show_int_def Suc_less_eq length_greater_0_conv simp del: One_nat_def)

lemma range_header_roundtrip:
  assumes "list_all valid_range rs" "rs \<noteq> []" "length rs < npos"
  shows "parse_range_header (snd (make_range_header rs)) = Some rs"
proof -
  have "split CHR '','' (join '', '' (map range_text rs)) = map range_text rs"
    using assms(1,3) range_text_trimmed
    by (intro split_join) (auto simp: list_all_iff is_space_or_tab_def)
  moreover have "map parse_range (map range_text rs) = map Some rs"
    using assms(1) parse_range_text by (simp add: list_all_iff)
  moreover have "map the (map Some rs) = rs" by (simp add: comp_def)
  moreover have "1 < length (join '', '' (map range_text rs))"
    using assms(1,2) range_text_long by (cases rs; cases "tl rs") (auto simp: trans_less_add1)
  ultimately show ?thesis
    using assms(2) unfolding parse_range_header_def make_range_header_def Let_def snd_conv
    by (simp del: map_map)
qed

subsection \<open>The order of Accept\<close>

lemma accept_insert_mset: "mset (accept_insert x ys) = add_mset x (mset ys)"
  by (induction ys) auto

lemma accept_sort_mset: "mset (accept_sort es) = mset es"
  by (induction es) (auto simp: accept_sort_def accept_insert_mset)

lemma accept_insert_sorted:
  "sorted_wrt (\<lambda>a b. snd b \<le> snd a) ys \<Longrightarrow> sorted_wrt (\<lambda>a b. snd b \<le> snd a) (accept_insert x ys)"
proof (induction ys)
  case (Cons y ys)
  have "set (accept_insert x ys) = insert x (set ys)"
    using accept_insert_mset [of x ys] by (metis set_mset_add_mset_insert set_mset_mset)
  then show ?case using Cons by auto
qed simp

lemma accept_sort_sorted: "sorted_wrt (\<lambda>a b. snd b \<le> snd a) (accept_sort es)"
  by (induction es) (auto simp: accept_sort_def accept_insert_sorted)

lemma accept_insert_stable:
  "filter (\<lambda>e. snd e = q) (accept_insert x ys) = filter (\<lambda>e. snd e = q) (x # ys)"
  by (induction ys) auto

lemma accept_sort_stable: "filter (\<lambda>e. snd e = q) (accept_sort es) = filter (\<lambda>e. snd e = q) es"
proof (induction es)
  case (Cons e es)
  have "accept_sort (e # es) = accept_insert e (accept_sort es)" by (simp add: accept_sort_def)
  then show ?case using Cons accept_insert_stable [of q e "accept_sort es"] by simp
qed (simp add: accept_sort_def)

end
