(* ===== verification/Http_Message.thy ===== *)
theory Http_Message
  imports Http_Query
begin

text \<open>
  Requests and responses of \<open>include/httplib.h\<close> and what reads or sets their parts.  A
  content provider either hands out a part of some bytes or is the list of what it asks of
  its sink each time it is called; a field that only a client or a TLS connection uses is
  left out, and so are the loggers.
\<close>

subsection \<open>Records\<close>

record form_data =
  fd_name :: string
  fd_content :: string
  fd_filename :: string
  fd_content_type :: string
  fd_headers :: headers

definition empty_form_data :: form_data where
  "empty_form_data = \<lparr>fd_name = [], fd_content = [], fd_filename = [], fd_content_type = [], fd_headers = []\<rparr>"

record form_field =
  ff_name :: string
  ff_content :: string
  ff_headers :: headers

record multipart_form =
  form_fields :: "(string \<times> form_field) list"
  form_files :: "(string \<times> form_data) list"

record request =
  rq_method :: string
  rq_path :: string
  rq_matched_route :: string
  rq_params :: params
  rq_headers :: headers
  rq_trailers :: headers
  rq_body :: string
  rq_remote_addr :: string
  rq_remote_port :: int
  rq_local_addr :: string
  rq_local_port :: int
  rq_version :: string
  rq_target :: string
  rq_form :: multipart_form
  rq_ranges :: "range_t list"
  rq_path_params :: "(string \<times> string) list"
  rq_accept_content_types :: "string list"
  rq_body_consumed :: bool

definition new_request :: request where
  "new_request = \<lparr>rq_method = [], rq_path = [], rq_matched_route = [], rq_params = [], rq_headers = [],
     rq_trailers = [], rq_body = [], rq_remote_addr = [], rq_remote_port = -1, rq_local_addr = [],
     rq_local_port = -1, rq_version = [], rq_target = [],
     rq_form = \<lparr>form_fields = [], form_files = []\<rparr>, rq_ranges = [], rq_path_params = [],
     rq_accept_content_types = [], rq_body_consumed = False\<rparr>"

datatype sink_call = Sink_write string | Sink_done | Sink_done_with_trailer headers

datatype content_provider = Bytes_Provider string | Call_Provider "sink_call list list"

record response =
  rs_version :: string
  rs_status :: int
  rs_headers :: headers
  rs_body :: string
  rs_content_length :: nat
  rs_content_provider :: "content_provider option"
  rs_chunked_provider :: bool
  rs_file_path :: string
  rs_file_type :: string

definition new_response :: response where
  "new_response = \<lparr>rs_version = [], rs_status = -1, rs_headers = [], rs_body = [],
     rs_content_length = 0, rs_content_provider = None, rs_chunked_provider = False,
     rs_file_path = [], rs_file_type = []\<rparr>"

subsection \<open>Accessors\<close>

text \<open>A name that is not prohibited never raises, so its value is a plain string.\<close>

definition header_text :: "headers \<Rightarrow> string \<Rightarrow> string" where
  "header_text h key = (case get_header_value h key [] 0 of Inl e \<Rightarrow> [] | Inr v \<Rightarrow> v)"

definition rq_header :: "request \<Rightarrow> string \<Rightarrow> string" where
  "rq_header req key = header_text (rq_headers req) key"

definition rq_has_header :: "request \<Rightarrow> string \<Rightarrow> bool" where
  "rq_has_header req key = has_header (rq_headers req) key"

definition rq_header_u64 :: "request \<Rightarrow> string \<Rightarrow> nat" where
  "rq_header_u64 req key = fst (get_header_value_u64 (rq_headers req) key 0 0)"

text \<open>\<open>Response::has_header\<close> looks the name up without the check for prohibited names.\<close>

definition rs_has_header :: "response \<Rightarrow> string \<Rightarrow> bool" where
  "rs_has_header res key \<longleftrightarrow> equal_range (rs_headers res) key \<noteq> []"

definition rs_header :: "response \<Rightarrow> string \<Rightarrow> string" where
  "rs_header res key = header_text (rs_headers res) key"

definition rs_set_header :: "string \<Rightarrow> string \<Rightarrow> response \<Rightarrow> response" where
  "rs_set_header key val res = res\<lparr>rs_headers := set_header key val (rs_headers res)\<rparr>"

text \<open>Parameters: the entries of a key, in order.\<close>

definition param_range :: "params \<Rightarrow> string \<Rightarrow> string list" where
  "param_range ps key = map snd (filter (\<lambda>p. fst p = key) ps)"

definition has_param :: "request \<Rightarrow> string \<Rightarrow> bool" where
  "has_param req key \<longleftrightarrow> param_range (rq_params req) key \<noteq> []"

definition get_param_value :: "request \<Rightarrow> string \<Rightarrow> nat \<Rightarrow> string" where
  "get_param_value req key n =
     (let r = param_range (rq_params req) key in if n < length r then r ! n else [])"

definition get_param_values :: "request \<Rightarrow> string \<Rightarrow> string list" where
  "get_param_values req key = param_range (rq_params req) key"

definition get_param_value_count :: "request \<Rightarrow> string \<Rightarrow> nat" where
  "get_param_value_count req key = length (param_range (rq_params req) key)"

definition is_multipart_form_data :: "request \<Rightarrow> bool" where
  "is_multipart_form_data req \<longleftrightarrow>
     fst (extract_media_type (rq_header req ''Content-Type'')) = ''multipart/form-data''"

definition set_redirect :: "string \<Rightarrow> int \<Rightarrow> response \<Rightarrow> response" where
  "set_redirect url stat res =
     (if is_field_value url then
        (rs_set_header ''Location'' url res)\<lparr>rs_status := if 300 \<le> stat \<and> stat < 400 then stat else 302\<rparr>
      else res)"

definition set_content :: "string \<Rightarrow> string \<Rightarrow> response \<Rightarrow> response" where
  "set_content s content_type res =
     rs_set_header ''Content-Type'' content_type
       (res\<lparr>rs_body := s, rs_headers := erase_header ''Content-Type'' (rs_headers res)\<rparr>)"

definition set_content_provider :: "nat \<Rightarrow> string \<Rightarrow> content_provider \<Rightarrow> response \<Rightarrow> response" where
  "set_content_provider n content_type provider res =
     (let r = (rs_set_header ''Content-Type'' content_type res)\<lparr>rs_content_length := n, rs_chunked_provider := False\<rparr>
      in if 0 < n then r\<lparr>rs_content_provider := Some provider\<rparr> else r)"

definition set_content_provider_unsized :: "string \<Rightarrow> sink_call list list \<Rightarrow> response \<Rightarrow> response" where
  "set_content_provider_unsized content_type calls res =
     (rs_set_header ''Content-Type'' content_type res)\<lparr>rs_content_length := 0,
        rs_content_provider := Some (Call_Provider calls), rs_chunked_provider := False\<rparr>"

definition set_chunked_content_provider :: "string \<Rightarrow> sink_call list list \<Rightarrow> response \<Rightarrow> response" where
  "set_chunked_content_provider content_type calls res =
     (rs_set_header ''Content-Type'' content_type res)\<lparr>rs_content_length := 0,
        rs_content_provider := Some (Call_Provider calls), rs_chunked_provider := True\<rparr>"

definition set_file_content :: "string \<Rightarrow> string \<Rightarrow> response \<Rightarrow> response" where
  "set_file_content path content_type res = res\<lparr>rs_file_path := path, rs_file_type := content_type\<rparr>"

subsection \<open>Lemmas\<close>

lemma rs_set_header_simps [simp]:
  "rs_status (rs_set_header k v r) = rs_status r"
  "rs_body (rs_set_header k v r) = rs_body r"
  "rs_content_length (rs_set_header k v r) = rs_content_length r"
  "rs_content_provider (rs_set_header k v r) = rs_content_provider r"
  "rs_headers (rs_set_header k v r) = set_header k v (rs_headers r)"
  "rs_version (rs_set_header k v r) = rs_version r"
  "rs_file_path (rs_set_header k v r) = rs_file_path r"
  by (simp_all add: rs_set_header_def)

lemma set_content_simps [simp]:
  "rs_body (set_content s t r) = s"
  "rs_status (set_content s t r) = rs_status r"
  "rs_content_length (set_content s t r) = rs_content_length r"
  "rs_content_provider (set_content s t r) = rs_content_provider r"
  "rs_headers (set_content s t r) = set_header ''Content-Type'' t (erase_header ''Content-Type'' (rs_headers r))"
  "rs_file_path (set_content s t r) = rs_file_path r"
  "rs_version (set_content s t r) = rs_version r"
  by (simp_all add: set_content_def)

lemma equal_range_set_header:
  "is_field_valid k v \<Longrightarrow> equal_range (set_header k v h) key = equal_range h key @ (if case_equal key k then [v] else [])"
  by (simp add: set_header_def emplace_def equal_range_def)

lemma set_content_type:
  assumes "is_field_valid ''Content-Type'' t"
  shows "equal_range (rs_headers (set_content s t r)) ''Content-Type'' = [t]"
proof -
  have "equal_range (erase_header ''Content-Type'' h) ''Content-Type'' = []" for h
    by (auto simp: equal_range_def erase_header_def filter_empty_conv)
  then show ?thesis
    using assms by (simp add: equal_range_set_header case_equal_def)
qed

text \<open>No name the library itself looks up has the tag of a prohibited one.\<close>

definition known_names :: "string list" where
  "known_names =
     [''Content-Type'', ''Content-Length'', ''Transfer-Encoding'', ''Content-Encoding'', ''Connection'',
      ''Accept'', ''Range'', ''Expect'', ''X-Forwarded-For'', ''Trailer'', ''Accept-Encoding'',
      ''Sec-WebSocket-Key'', ''Sec-WebSocket-Version'', ''Sec-WebSocket-Protocol'', ''If-None-Match'',
      ''If-Modified-Since'', ''If-Range'', ''Keep-Alive'', ''Accept-Ranges'', ''Upgrade'', ''Host'']"

lemma known_names_allowed: "list_all (\<lambda>n. \<not> is_prohibited_header_name n) known_names"
  by (simp add: known_names_def is_prohibited_header_name_def str2tag_def byte_def)

lemma known_header:
  assumes "key \<in> set known_names"
  shows "header_text h key = (case equal_range h key of [] \<Rightarrow> [] | v # vs \<Rightarrow> c_str v)"
    and "has_header h key \<longleftrightarrow> equal_range h key \<noteq> []"
  using assms known_names_allowed
  by (auto simp: header_text_def get_header_value_def has_header_def list_all_iff Let_def split: list.split)

lemma known_lookups:
  "key \<in> set known_names \<Longrightarrow> equal_range h key = [] \<Longrightarrow> header_text h key = []"
  "key \<in> set known_names \<Longrightarrow> equal_range h key = [] \<Longrightarrow> \<not> has_header h key"
  by (simp_all add: known_header)

end
