(* ===== verification/Http_Routes.thy ===== *)
theory Http_Routes
  imports Http_Message "HOL-Library.Sublist"
begin

text \<open>
  Route patterns and path checks of \<open>include/httplib.h\<close>: \<open>PathParamsMatcher\<close>,
  \<open>RegexMatcher\<close>, \<open>make_matcher\<close>, \<open>is_valid_path\<close> and \<open>is_path_within_base\<close>.
\<close>

subsection \<open>Matchers\<close>

text \<open>A pattern with parameters is cut into its static fragments and the names.\<close>

datatype matcher =
    Path_Params_Matcher string "string list" "string list"
  | Regex_Matcher string

fun matcher_pattern :: "matcher \<Rightarrow> string" where
  "matcher_pattern (Path_Params_Matcher p fs ns) = p"
| "matcher_pattern (Regex_Matcher p) = p"

definition find_or_end :: "string \<Rightarrow> string \<Rightarrow> nat \<Rightarrow> nat" where
  "find_or_end s pat pos = (let i = str_find s pat pos in if i = npos then length s else i)"

lemma find_or_end_bounds: "pos \<le> length s \<Longrightarrow> pos \<le> find_or_end s pat pos \<and> find_or_end s pat pos \<le> length s"
  using str_find_bound [of s pat pos] by (auto simp: find_or_end_def Let_def)

lemma param_loop_advances:
  assumes "str_find pattern ''/:'' (if l = 0 then l else l - 1) \<noteq> npos"
  shows "length pattern + 2
      - (find_or_end pattern ''/'' (str_find pattern ''/:'' (if l = 0 then l else l - 1) + 2) + 1)
    < length pattern + 2 - l"
proof -
  let ?m = "str_find pattern ''/:'' (if l = 0 then l else l - 1)"
  have b: "(if l = 0 then l else l - 1) \<le> ?m" "?m + 2 \<le> length pattern"
    using assms str_find_bound [of pattern "''/:''" "if l = 0 then l else l - 1"] by simp_all
  then have "?m + 2 \<le> find_or_end pattern ''/'' (?m + 2)" using find_or_end_bounds by simp
  moreover have "l \<le> ?m + 1" using b(1) by (simp split: if_splits)
  ultimately show ?thesis using b(2) by linarith
qed

text \<open>\<open>last_param\<close> is one past the end of the last parameter.\<close>

function param_loop :: "string \<Rightarrow> nat \<Rightarrow> string list \<Rightarrow> string list \<Rightarrow> (string list \<times> string list \<times> nat) res" where
  "param_loop pattern last_param frags names =
     (let marker_pos = str_find pattern ''/:'' (if last_param = 0 then last_param else last_param - 1) in
      if marker_pos = npos then Inr (frags, names, last_param)
      else
        (let frag = take (marker_pos + 1 - last_param) (drop last_param pattern);
             start = marker_pos + 2;
             sep_pos = find_or_end pattern ''/'' start;
             name = take (sep_pos - start) (drop start pattern)
         in if name \<in> set names then Inl Invalid_Argument
            else param_loop pattern (sep_pos + 1) (frags @ [frag]) (names @ [name])))"
  by pat_completeness auto

termination
proof (relation "measure (\<lambda>(pattern, last_param, frags, names). length pattern + 2 - last_param)",
    rule wf_measure, goal_cases)
  case 1
  then show ?case using param_loop_advances by (simp only: in_measure prod.case) simp
qed

declare param_loop.simps [simp del]

definition make_path_params_matcher :: "string \<Rightarrow> matcher res" where
  "make_path_params_matcher pattern =
     rbind (param_loop pattern 0 [] []) (\<lambda>(frags, names, last_param).
       Inr (Path_Params_Matcher pattern
              (if last_param < length pattern then frags @ [drop last_param pattern] else frags) names))"

definition make_matcher :: "string \<Rightarrow> matcher res" where
  "make_matcher pattern =
     (if has_infix ''/:'' pattern then make_path_params_matcher pattern else Inr (Regex_Matcher pattern))"

text \<open>\<open>strncmp\<close> on as many characters as both strings have.\<close>

definition strncmp_eq :: "string \<Rightarrow> string \<Rightarrow> nat \<Rightarrow> bool" where
  "strncmp_eq s t n \<longleftrightarrow> c_str (take n s) = c_str (take n t)"

fun match_fragments :: "string \<Rightarrow> string list \<Rightarrow> string list \<Rightarrow> nat \<Rightarrow> (string \<times> string) list
    \<Rightarrow> bool \<times> (string \<times> string) list" where
  "match_fragments path [] names pos params = (length path \<le> pos, params)"
| "match_fragments path (frag # frags) names pos params =
     (if length path < pos + length frag then (False, params)
      else if \<not> strncmp_eq (drop pos path) frag (length frag) then (False, params)
      else
        (let pos1 = pos + length frag in
         case names of
           [] \<Rightarrow> match_fragments path frags [] pos1 params
         | name # rest \<Rightarrow>
             (let sep_pos = find_or_end path ''/'' pos1 in
              match_fragments path frags rest (sep_pos + 1)
                (emplace_new (name, take (sep_pos - pos1) (drop pos1 path)) params))))"

text \<open>\<open>std::regex_match\<close> on a pattern without operators is equality; a pattern with operators is
  left to the parameter \<open>re\<close>.\<close>

definition regex_specials :: string where
  "regex_specials = CHR 0x5C # ''^$.*+?()[]{}|''"

definition regex_match :: "(string \<Rightarrow> string \<Rightarrow> bool) \<Rightarrow> string \<Rightarrow> string \<Rightarrow> bool" where
  "regex_match re pattern path =
     (if list_all (\<lambda>c. c \<notin> set regex_specials) pattern then path = pattern else re pattern path)"

fun match_request :: "(string \<Rightarrow> string \<Rightarrow> bool) \<Rightarrow> matcher \<Rightarrow> request \<Rightarrow> bool \<times> request" where
  "match_request re (Path_Params_Matcher p frags names) req =
     (case match_fragments (rq_path req) frags names 0 [] of
        (found, params) \<Rightarrow> (found, req\<lparr>rq_path_params := params\<rparr>))"
| "match_request re (Regex_Matcher p) req = (regex_match re p (rq_path req), req\<lparr>rq_path_params := []\<rparr>)"

subsection \<open>Paths\<close>

text \<open>The pieces between the slashes.\<close>

lemma next_component_shorter:
  assumes "dropWhile (\<lambda>c. c = CHR ''/'') s \<noteq> []"
  shows "length (dropWhile (\<lambda>c. c \<noteq> CHR ''/'') (dropWhile (\<lambda>c. c = CHR ''/'') s)) < length s"
proof (cases "dropWhile (\<lambda>c. c = CHR ''/'') s")
  case (Cons c t)
  have c: "c \<noteq> CHR ''/''" using hd_dropWhile [OF assms] Cons by simp
  have "length (dropWhile (\<lambda>c. c \<noteq> CHR ''/'') (c # t)) = length (dropWhile (\<lambda>c. c \<noteq> CHR ''/'') t)"
    using c by simp
  also have "\<dots> \<le> length t" by (rule length_dropWhile_le)
  also have "\<dots> < length (dropWhile (\<lambda>c. c = CHR ''/'') s)" unfolding Cons by simp
  also have "\<dots> \<le> length s" by (rule length_dropWhile_le)
  finally show ?thesis unfolding Cons .
qed (use assms in blast)

function path_components :: "string \<Rightarrow> string list" where
  "path_components s =
     (case dropWhile (\<lambda>c. c = CHR ''/'') s of
        [] \<Rightarrow> []
      | c # t \<Rightarrow> takeWhile (\<lambda>c. c \<noteq> CHR ''/'') (c # t) # path_components (dropWhile (\<lambda>c. c \<noteq> CHR ''/'') (c # t)))"
  by pat_completeness auto

termination
proof (relation "measure length", rule wf_measure, goal_cases)
  case (1 s c t)
  then show ?case using next_component_shorter [of s] by (simp only: in_measure) simp
qed

declare path_components.simps [simp del]

fun check_levels :: "nat \<Rightarrow> string list \<Rightarrow> bool" where
  "check_levels level [] = True"
| "check_levels level (part # cs) =
     (if CHR 0x00 \<in> set part \<or> CHR 0x5C \<in> set part then False
      else if part = ''.'' then check_levels level cs
      else if part = ''..'' then (if level = 0 then False else check_levels (level - 1) cs)
      else check_levels (level + 1) cs)"

definition is_valid_path :: "string \<Rightarrow> bool" where
  "is_valid_path path = check_levels 0 (path_components path)"

definition is_path_within_base :: "string \<Rightarrow> string \<Rightarrow> bool" where
  "is_path_within_base resolved_path resolved_base =
     strncmp_eq resolved_path resolved_base (length resolved_base)"

subsection \<open>What a valid path reaches\<close>

text \<open>The directory reached from a directory, given as the list of its parts, through one
  component, without symbolic links.\<close>

definition walk :: "string list \<Rightarrow> string \<Rightarrow> string list" where
  "walk d c = (if c = ''.'' then d else if c = ''..'' then butlast d else d @ [c])"

lemma walk_simps:
  "walk d ''.'' = d" "walk d ''..'' = butlast d" "c \<noteq> ''.'' \<Longrightarrow> c \<noteq> ''..'' \<Longrightarrow> walk d c = d @ [c]"
  by (simp_all add: walk_def)

definition clean :: "string \<Rightarrow> bool" where
  "clean s \<longleftrightarrow> CHR 0x00 \<notin> set s \<and> CHR 0x5C \<notin> set s"

lemma walk_take_Cons:
  "(\<forall>k. P (foldl walk d (take k (c # cs)))) \<longleftrightarrow> P d \<and> (\<forall>k. P (foldl walk (walk d c) (take k cs)))"
proof
  assume l: "\<forall>k. P (foldl walk d (take k (c # cs)))"
  show "P d \<and> (\<forall>k. P (foldl walk (walk d c) (take k cs)))"
    using l [rule_format, of 0] l [rule_format, of "Suc k" for k] by simp
next
  assume r: "P d \<and> (\<forall>k. P (foldl walk (walk d c) (take k cs)))"
  show "\<forall>k. P (foldl walk d (take k (c # cs)))"
  proof
    fix k
    show "P (foldl walk d (take k (c # cs)))" using r by (cases k) auto
  qed
qed

lemma check_levels_walk:
  assumes "base \<noteq> []"
  shows "check_levels (length extra) cs \<longleftrightarrow> list_all clean cs
    \<and> (\<forall>k. prefix base (foldl walk (base @ extra) (take k cs)))"
proof (induction cs arbitrary: extra)
  case (Cons c cs)
  consider "\<not> clean c" | "clean c" "c = ''.''" | "clean c" "c = ''..''" | "clean c" "c \<noteq> ''.''" "c \<noteq> ''..''"
    by blast
  then show ?case
  proof cases
    case 3
    show ?thesis
    proof (cases extra rule: rev_cases)
      case Nil
      have "\<not> prefix base (butlast base)"
        using assms by (metis append_butlast_last_id length_append_singleton not_less_eq_eq order_refl prefix_length_le)
      then have "\<not> (\<forall>k. prefix base (foldl walk (butlast base) (take k cs)))"
        by (metis foldl_Nil take0)
      then show ?thesis using 3 Nil by (simp add: walk_take_Cons walk_simps)
    next
      case (snoc e x)
      then show ?thesis
        using 3 Cons.IH [of e] by (simp add: walk_take_Cons walk_simps butlast_append clean_def)
    qed
  qed (use Cons.IH [of extra] Cons.IH [of "extra @ [c]"] in
      \<open>auto simp: walk_take_Cons walk_simps clean_def\<close>)
qed simp

lemma path_components_chars: "(\<Union>c \<in> set (path_components s). set c) = set s - {CHR ''/''}"
proof (induction s rule: path_components.induct)
  case (1 s)
  have lead: "set s - {CHR ''/''} = set (dropWhile (\<lambda>c. c = CHR ''/'') s) - {CHR ''/''}"
    by (induction s) auto
  show ?case
  proof (cases "dropWhile (\<lambda>c. c = CHR ''/'') s")
    case Nil
    moreover from this have "path_components s = []"
      by (subst path_components.simps) (simp only: list.case)
    ultimately show ?thesis by (auto simp: dropWhile_eq_Nil_conv)
  next
    case (Cons c t)
    let ?T = "takeWhile (\<lambda>c. c \<noteq> CHR ''/'') (c # t)" and ?D = "dropWhile (\<lambda>c. c \<noteq> CHR ''/'') (c # t)"
    have "set (c # t) - {CHR ''/''} = set ?T \<union> (set ?D - {CHR ''/''})"
    proof -
      have "set (c # t) = set ?T \<union> set ?D"
        using arg_cong [OF takeWhile_dropWhile_id [of "\<lambda>c. c \<noteq> CHR ''/''" "c # t"], of set]
        by (simp only: set_append)
      moreover have "CHR ''/'' \<notin> set ?T" using set_takeWhileD by fast
      ultimately show ?thesis by blast
    qed
    moreover have "path_components s = ?T # path_components ?D"
      using Cons by (subst path_components.simps) (simp only: list.case)
    ultimately show ?thesis using 1 [OF Cons] lead Cons by simp
  qed
qed

lemma path_components_clean: "list_all clean (path_components s) \<longleftrightarrow> clean s"
proof -
  have "list_all clean (path_components s)
      \<longleftrightarrow> CHR 0x00 \<notin> (\<Union>c \<in> set (path_components s). set c) \<and> CHR 0x5C \<notin> (\<Union>c \<in> set (path_components s). set c)"
    by (auto simp: list_all_iff clean_def)
  then show ?thesis by (simp add: path_components_chars clean_def)
qed

lemma valid_path_walk:
  assumes "base \<noteq> []"
  shows "is_valid_path p \<longleftrightarrow> clean p \<and> (\<forall>k. prefix base (foldl walk base (take k (path_components p))))"
  using check_levels_walk [OF assms, of "[]" "path_components p"]
  by (simp add: is_valid_path_def path_components_clean)

end
