(* ===== verification/Http_Files.thy ===== *)
theory Http_Files
  imports Http_Routes
begin

text \<open>
  Serving files from \<open>include/httplib.h\<close>: \<open>set_mount_point\<close>, \<open>handle_file_request\<close> and the
  conditional requests.  The file system and the two date functions of the C library are a
  record that the definitions take as an argument.
\<close>

subsection \<open>The file system\<close>

record file_stat =
  st_regular :: bool
  st_directory :: bool
  st_mtime :: int
  st_size :: nat

record file_system =
  stat_of :: "string \<Rightarrow> file_stat option"
  realpath :: "string \<Rightarrow> string option"
  file_bytes :: "string \<Rightarrow> string option"
  http_date :: "int \<Rightarrow> string"
  parse_http_date :: "string \<Rightarrow> int"

definition fs_is_file :: "file_stat option \<Rightarrow> bool" where
  "fs_is_file st = (case st of None \<Rightarrow> False | Some b \<Rightarrow> st_regular b)"

definition fs_is_dir :: "file_stat option \<Rightarrow> bool" where
  "fs_is_dir st = (case st of None \<Rightarrow> False | Some b \<Rightarrow> st_directory b)"

definition fs_mtime :: "file_stat option \<Rightarrow> int" where
  "fs_mtime st = (case st of None \<Rightarrow> - 1 | Some b \<Rightarrow> st_mtime b)"

definition fs_size :: "file_stat option \<Rightarrow> nat" where
  "fs_size st = (case st of None \<Rightarrow> 0 | Some b \<Rightarrow> st_size b)"

definition compute_etag :: "file_stat option \<Rightarrow> string" where
  "compute_etag st =
     (if \<not> fs_is_file st then []
      else if fs_mtime st < 0 then []
      else ''W/'' @ [CHR 0x22] @ from_i_to_hex (size_of_int (fs_mtime st)) @ ''-''
        @ from_i_to_hex (fs_size st) @ [CHR 0x22])"

text \<open>A negative time has no date; the rest is \<open>gmtime_r\<close> and \<open>strftime\<close>.\<close>

definition file_mtime_to_http_date :: "file_system \<Rightarrow> int \<Rightarrow> string" where
  "file_mtime_to_http_date fs mtime = (if mtime < 0 then [] else http_date fs mtime)"

subsection \<open>Mount points\<close>

record mount_point_entry =
  me_mount_point :: string
  me_base_dir :: string
  me_resolved_base_dir :: string
  me_headers :: headers

definition set_mount_point :: "file_system \<Rightarrow> string \<Rightarrow> string \<Rightarrow> headers \<Rightarrow> mount_point_entry list
    \<Rightarrow> bool \<times> mount_point_entry list" where
  "set_mount_point fs mount_point dir h base_dirs =
     (if fs_is_dir (stat_of fs dir) then
        (let mnt = if mount_point \<noteq> [] then mount_point else ''/'' in
         if hd mnt = CHR ''/'' then
           (let resolved_base = (case realpath fs dir of
                None \<Rightarrow> []
              | Some r \<Rightarrow> if last r \<noteq> CHR ''/'' then r @ ''/'' else r)
            in (True, base_dirs @ [\<lparr>me_mount_point = mnt, me_base_dir = dir,
                  me_resolved_base_dir = resolved_base, me_headers = h\<rparr>]))
         else (False, base_dirs))
      else (False, base_dirs))"

subsection \<open>Conditional requests\<close>

definition etag_listed :: "string \<Rightarrow> string \<Rightarrow> bool" where
  "etag_listed etag val = list_ex (\<lambda>b. b = ''*'' \<or> b = etag) (split CHR '','' val)"

definition check_if_not_modified :: "file_system \<Rightarrow> request \<Rightarrow> string \<Rightarrow> int \<Rightarrow> response \<Rightarrow> bool \<times> response" where
  "check_if_not_modified fs req etag mtime res =
     (if rq_has_header req ''If-None-Match'' then
        (if etag \<noteq> [] \<and> etag_listed etag (rq_header req ''If-None-Match'')
         then (True, res\<lparr>rs_status := 304\<rparr>) else (False, res))
      else if rq_has_header req ''If-Modified-Since'' then
        (let t = parse_http_date fs (rq_header req ''If-Modified-Since'') in
         if t \<noteq> - 1 \<and> mtime \<le> t then (True, res\<lparr>rs_status := 304\<rparr>) else (False, res))
      else (False, res))"

definition check_if_range :: "file_system \<Rightarrow> string \<Rightarrow> int \<Rightarrow> request \<Rightarrow> bool \<times> request" where
  "check_if_range fs etag mtime req =
     (if rq_ranges req \<noteq> [] \<and> rq_has_header req ''If-Range'' then
        (let val = rq_header req ''If-Range'';
             is_valid_range =
               (if is_strong_etag val then etag \<noteq> [] \<and> val = etag
                else if is_weak_etag val then False
                else (let t = parse_http_date fs val in t \<noteq> - 1 \<and> mtime \<le> t))
         in if is_valid_range then (True, req) else (False, req\<lparr>rq_ranges := []\<rparr>))
      else (True, req))"

subsection \<open>Serving a file\<close>

text \<open>What serving needs besides the request: the mount points, the media types and the hook
  that is called on a file.\<close>

record file_config =
  base_dirs :: "mount_point_entry list"
  mime_map :: "(string \<times> string) list"
  default_mime :: string
  file_request_handler :: "(request \<Rightarrow> response \<Rightarrow> response) option"

definition set_headers :: "headers \<Rightarrow> response \<Rightarrow> response" where
  "set_headers h res = foldl (\<lambda>r kv. rs_set_header (fst kv) (snd kv) r) res h"

text \<open>A regular file, once its \<open>stat\<close> is known; the request comes back because \<open>If-Range\<close> may
  drop its ranges.\<close>

definition serve_file :: "file_system \<Rightarrow> file_config \<Rightarrow> mount_point_entry \<Rightarrow> string \<Rightarrow> file_stat option
    \<Rightarrow> request \<Rightarrow> response \<Rightarrow> bool \<times> request \<times> response" where
  "serve_file fs cfg e path st req res =
     (let res1 = set_headers (me_headers e) res;
          etag = compute_etag st;
          res2 = if etag \<noteq> [] then rs_set_header ''ETag'' etag res1 else res1;
          mtime = fs_mtime st;
          last_modified = file_mtime_to_http_date fs mtime;
          res3 = if last_modified \<noteq> [] then rs_set_header ''Last-Modified'' last_modified res2 else res2
      in case check_if_not_modified fs req etag mtime res3 of
           (True, res4) \<Rightarrow> (True, req, res4)
         | (False, res4) \<Rightarrow>
             (let req1 = snd (check_if_range fs etag mtime req) in
              case file_bytes fs path of
                None \<Rightarrow> (False, req1, res4)
              | Some bytes \<Rightarrow>
                  (let res5 = set_content_provider (length bytes)
                         (find_content_type path (mime_map cfg) (default_mime cfg)) (Bytes_Provider bytes) res4 in
                   (True, req1,
                    case file_request_handler cfg of
                      Some f \<Rightarrow> if rq_method req1 \<noteq> ''HEAD'' then f req1 res5 else res5
                    | None \<Rightarrow> res5))))"

text \<open>The path that a mount point gives a request, if the mount point applies to it and the
  rest of the path is valid: the part below the mount point and the path of the file.\<close>

definition mounted_path :: "mount_point_entry \<Rightarrow> string \<Rightarrow> (string \<times> string) option" where
  "mounted_path e req_path =
     (if take (length (me_mount_point e)) req_path = me_mount_point e then
        (let sub_path = CHR ''/'' # drop (length (me_mount_point e)) req_path in
         if is_valid_path sub_path then
           (let path = me_base_dir e @ sub_path in
            Some (sub_path, if last path = CHR ''/'' then path @ ''index.html'' else path))
         else None)
      else None)"

definition escapes_base :: "file_system \<Rightarrow> mount_point_entry \<Rightarrow> string \<Rightarrow> bool" where
  "escapes_base fs e path \<longleftrightarrow> me_resolved_base_dir e \<noteq> [] \<and>
     (case realpath fs path of
        None \<Rightarrow> False
      | Some resolved \<Rightarrow> \<not> is_path_within_base resolved (me_resolved_base_dir e))"

fun file_request_loop :: "file_system \<Rightarrow> file_config \<Rightarrow> mount_point_entry list \<Rightarrow> request \<Rightarrow> response
    \<Rightarrow> bool \<times> request \<times> response" where
  "file_request_loop fs cfg [] req res = (False, req, res)"
| "file_request_loop fs cfg (e # es) req res =
     (case mounted_path e (rq_path req) of
        None \<Rightarrow> file_request_loop fs cfg es req res
      | Some (sub_path, path) \<Rightarrow>
          if escapes_base fs e path then (True, req, res\<lparr>rs_status := 403\<rparr>)
          else
            (let st = stat_of fs path in
             if fs_is_dir st then (True, req, set_redirect (sub_path @ ''/'') 301 res)
             else if fs_is_file st then serve_file fs cfg e path st req res
             else file_request_loop fs cfg es req res))"

definition handle_file_request :: "file_system \<Rightarrow> file_config \<Rightarrow> request \<Rightarrow> response \<Rightarrow> bool \<times> request \<times> response" where
  "handle_file_request fs cfg req res = file_request_loop fs cfg (base_dirs cfg) req res"

end
