(* ===== verification/Http_Form.thy ===== *)
theory Http_Form
  imports Http_Message
begin

text \<open>
  Multipart forms of \<open>include/httplib.h\<close>: writing a form, the buffered content provider of a
  form, and \<open>FormDataParser\<close>.
\<close>

subsection \<open>Writing a form\<close>

record upload_item =
  up_name :: string
  up_content :: string
  up_filename :: string
  up_content_type :: string

definition boundary_alphabet :: string where
  "boundary_alphabet = ''0123456789ABCDEFGHIJKLMNOPQRSTUVWXYZabcdefghijklmnopqrstuvwxyz''"

text \<open>The numbers are what the random engine returns.\<close>

definition random_string :: "nat list \<Rightarrow> string" where
  "random_string draws = map (\<lambda>n. boundary_alphabet ! (n mod 62)) draws"

definition make_multipart_data_boundary :: "nat list \<Rightarrow> string" where
  "make_multipart_data_boundary draws = ''--cpp-httplib-multipart-data-'' @ random_string draws"

definition is_multipart_boundary_chars_valid :: "string \<Rightarrow> bool" where
  "is_multipart_boundary_chars_valid b \<longleftrightarrow>
     list_all (\<lambda>c. is_ascii_alnum c \<or> c = CHR ''-'' \<or> c = CHR ''_'') b"

definition escape_multipart_field :: "bool \<Rightarrow> string \<Rightarrow> string" where
  "escape_multipart_field escape_quote s = concat (map (\<lambda>c.
     if c = CHR 0x22 then (if escape_quote then ''%22'' else [c])
     else if c = CR then ''%0D''
     else if c = LF then ''%0A''
     else [c]) s)"

definition serialize_item_begin :: "upload_item \<Rightarrow> string \<Rightarrow> string" where
  "serialize_item_begin item boundary =
     ''--'' @ boundary @ CRLF
     @ ''Content-Disposition: form-data; name='' @ [CHR 0x22] @ escape_multipart_field True (up_name item) @ [CHR 0x22]
     @ (if up_filename item \<noteq> []
        then ''; filename='' @ [CHR 0x22] @ escape_multipart_field True (up_filename item) @ [CHR 0x22] else [])
     @ CRLF
     @ (if up_content_type item \<noteq> []
        then ''Content-Type: '' @ escape_multipart_field False (up_content_type item) @ CRLF else [])
     @ CRLF"

definition serialize_finish :: "string \<Rightarrow> string" where
  "serialize_finish boundary = ''--'' @ boundary @ ''--'' @ CRLF"

definition form_content_type :: "string \<Rightarrow> string" where
  "form_content_type boundary = ''multipart/form-data; boundary='' @ boundary"

definition serialize_form :: "upload_item list \<Rightarrow> string \<Rightarrow> bool \<Rightarrow> string" where
  "serialize_form items boundary finish =
     concat (map (\<lambda>item. serialize_item_begin item boundary @ up_content item @ CRLF) items)
     @ (if finish then serialize_finish boundary else [])"

definition get_multipart_content_length :: "upload_item list \<Rightarrow> string \<Rightarrow> nat" where
  "get_multipart_content_length items boundary =
     foldl (\<lambda>n item. n + length (serialize_item_begin item boundary) + length (up_content item) + length CRLF) 0 items
     + length (serialize_finish boundary)"

subsection \<open>The buffered content provider\<close>

definition SEND_BUFSIZ :: nat where "SEND_BUFSIZ = 16384"

definition form_segments :: "upload_item list \<Rightarrow> string \<Rightarrow> string list" where
  "form_segments items boundary =
     concat (map (\<lambda>item. [serialize_item_begin item boundary, up_content item, CRLF]) items)
     @ [serialize_finish boundary]"

text \<open>The first segment that holds the offset: the position where it starts and the segments
  from it on.\<close>

fun find_segment :: "nat \<Rightarrow> nat \<Rightarrow> string list \<Rightarrow> nat \<times> string list" where
  "find_segment offset pos [] = (pos, [])"
| "find_segment offset pos (seg # segs) =
     (if 0 < length seg \<and> offset - pos < length seg then (pos, seg # segs)
      else find_segment offset (pos + length seg) segs)"

text \<open>Copying one piece through the buffer, which is never full between two copies.\<close>

function copy_loop :: "(string \<Rightarrow> 's \<Rightarrow> bool \<times> 's) \<Rightarrow> string \<Rightarrow> string \<Rightarrow> 's \<Rightarrow> bool \<times> string \<times> 's" where
  "copy_loop write src buf s =
     (if src = [] \<or> SEND_BUFSIZ \<le> length buf then (True, buf, s)
      else
        (let chunk = min (length src) (SEND_BUFSIZ - length buf); buf1 = buf @ take chunk src in
         if length buf1 = SEND_BUFSIZ then
           (case write buf1 s of
              (True, s1) \<Rightarrow> copy_loop write (drop chunk src) [] s1
            | (False, s1) \<Rightarrow> (False, buf1, s1))
         else copy_loop write (drop chunk src) buf1 s))"
  by pat_completeness auto
termination
  by (relation "measure (\<lambda>(write, src, buf, s). length src)") auto

declare copy_loop.simps [simp del]

fun send_segments :: "(string \<Rightarrow> 's \<Rightarrow> bool \<times> 's) \<Rightarrow> string list \<Rightarrow> nat \<Rightarrow> nat \<Rightarrow> string \<Rightarrow> 's
    \<Rightarrow> bool \<times> string \<times> 's" where
  "send_segments write [] seg_offset remaining buf s = (True, buf, s)"
| "send_segments write (seg # segs) seg_offset remaining buf s =
     (if remaining = 0 then (True, buf, s)
      else
        (let src = take (min (length seg - seg_offset) remaining) (drop seg_offset seg) in
         case copy_loop write src buf s of
           (False, buf1, s1) \<Rightarrow> (False, buf1, s1)
         | (True, buf1, s1) \<Rightarrow> send_segments write segs 0 (remaining - length src) buf1 s1))"

definition form_provider :: "upload_item list \<Rightarrow> string \<Rightarrow> nat \<Rightarrow> nat \<Rightarrow> (string \<Rightarrow> 's \<Rightarrow> bool \<times> 's) \<Rightarrow> 's \<Rightarrow> bool \<times> 's" where
  "form_provider items boundary offset n write s =
     (case find_segment offset 0 (form_segments items boundary) of (pos, segs) \<Rightarrow>
        (case send_segments write segs (if segs = [] then 0 else offset - pos) n [] s of
           (False, buf, s1) \<Rightarrow> (False, s1)
         | (True, buf, s1) \<Rightarrow> if 0 < length buf then write buf s1 else (True, s1)))"

subsection \<open>Reading a form\<close>

datatype form_state = Initial_Boundary | New_Entry | Entry_Headers | Entry_Body | After_Boundary

record form_parser =
  fp_boundary :: string
  fp_state :: form_state
  fp_valid :: bool
  fp_file :: form_data
  fp_header_count :: nat
  fp_buf :: string

definition new_form_parser :: "string \<Rightarrow> form_parser" where
  "new_form_parser boundary = \<lparr>fp_boundary = boundary, fp_state = Initial_Boundary, fp_valid = False,
     fp_file = empty_form_data, fp_header_count = 0, fp_buf = []\<rparr>"

definition dash_boundary_crlf :: "form_parser \<Rightarrow> string" where
  "dash_boundary_crlf p = ''--'' @ fp_boundary p @ CRLF"

definition crlf_dash_boundary :: "form_parser \<Rightarrow> string" where
  "crlf_dash_boundary p = CRLF @ ''--'' @ fp_boundary p"

text \<open>The position of the first occurrence, or the size of the buffer.\<close>

definition buf_find :: "form_parser \<Rightarrow> string \<Rightarrow> nat" where
  "buf_find p s = (case index_of s (fp_buf p) of Some i \<Rightarrow> i | None \<Rightarrow> length (fp_buf p))"

definition buf_erase :: "nat \<Rightarrow> form_parser \<Rightarrow> form_parser" where
  "buf_erase n p = p\<lparr>fp_buf := drop n (fp_buf p)\<rparr>"

definition starts_ignoring_case :: "string \<Rightarrow> string \<Rightarrow> bool" where
  "starts_ignoring_case a b \<longleftrightarrow> length b \<le> length a \<and> case_equal (take (length b) a) b"

definition parse_content_disposition :: "string \<Rightarrow> string option" where
  "parse_content_disposition header =
     (if \<not> starts_ignoring_case header ''Content-Disposition:'' then None
      else
        (let r = dropWhile is_space_or_tab (drop 20 header) in
         if \<not> starts_ignoring_case r ''form-data;'' then None
         else Some (dropWhile is_space_or_tab (drop 10 r))))"

text \<open>One header line of an entry; \<open>None\<close> makes the form invalid.\<close>

definition utf8_prefix :: string where
  "utf8_prefix = ''UTF-8'' @ [CHR 0x27, CHR 0x27]"

definition entry_disposition :: "params \<Rightarrow> form_data \<Rightarrow> form_data option" where
  "entry_disposition ps file =
     (case param_range ps ''name'' of
        [] \<Rightarrow> None
      | name # _ \<Rightarrow>
          (let file1 = file\<lparr>fd_name := name\<rparr>;
               file2 = (case param_range ps ''filename'' of [] \<Rightarrow> file1 | f # _ \<Rightarrow> file1\<lparr>fd_filename := f\<rparr>)
           in case param_range ps ''filename*'' of
                [] \<Rightarrow> Some file2
              | val # _ \<Rightarrow>
                  if length utf8_prefix < length val \<and> starts_ignoring_case val utf8_prefix
                  then Some (file2\<lparr>fd_filename := decode_path_component (drop (length utf8_prefix) val)\<rparr>)
                  else None))"

definition entry_header :: "string \<Rightarrow> form_data \<Rightarrow> form_data option" where
  "entry_header header file =
     (case parse_header header of
        None \<Rightarrow> None
      | Some (key, val) \<Rightarrow>
          (let file1 = file\<lparr>fd_headers := emplace key val (fd_headers file)\<rparr> in
           if starts_ignoring_case header ''Content-Type:''
           then Some (file1\<lparr>fd_content_type := trim_copy (drop 13 header)\<rparr>)
           else (case parse_content_disposition header of
               None \<Rightarrow> Some file1
             | Some disposition_params \<Rightarrow>
                 entry_disposition (parse_disposition_params disposition_params []) file1)))"

text \<open>The callbacks change a state of their own.  The header lines of an entry: \<open>None\<close> is
  \<open>return false\<close>.  The length of a line is checked only once, by the caller.\<close>

function header_lines :: "(form_data \<Rightarrow> 's \<Rightarrow> bool \<times> 's) \<Rightarrow> form_parser \<Rightarrow> 's \<Rightarrow> bool \<times> form_parser \<times> 's" where
  "header_lines header_callback p s =
     (let pos = buf_find p CRLF in
      if length (fp_buf p) \<le> pos then (True, p, s)
      else if pos = 0 then
        (case header_callback (fp_file p) s of
           (False, s1) \<Rightarrow> (False, p\<lparr>fp_valid := False\<rparr>, s1)
         | (True, s1) \<Rightarrow> (True, (buf_erase (length CRLF) p)\<lparr>fp_state := Entry_Body\<rparr>, s1))
      else if HEADER_MAX_COUNT \<le> fp_header_count p then (False, p\<lparr>fp_valid := False\<rparr>, s)
      else
        (let p1 = p\<lparr>fp_header_count := fp_header_count p + 1\<rparr> in
         case entry_header (take pos (fp_buf p)) (fp_file p) of
           None \<Rightarrow> (False, p1\<lparr>fp_valid := False\<rparr>, s)
         | Some file \<Rightarrow> header_lines header_callback (buf_erase (pos + length CRLF) (p1\<lparr>fp_file := file\<rparr>)) s))"
  by pat_completeness auto
termination
  by (relation "measure (\<lambda>(header_callback, p, s). length (fp_buf p))") (auto simp: buf_erase_def CRLF_def)

declare header_lines.simps [simp del]

text \<open>One pass through the \<open>switch\<close>: \<open>Some b\<close> is \<open>return b\<close>.\<close>

definition form_step :: "(form_data \<Rightarrow> 's \<Rightarrow> bool \<times> 's) \<Rightarrow> (string \<Rightarrow> 's \<Rightarrow> bool \<times> 's) \<Rightarrow> form_parser \<Rightarrow> 's
    \<Rightarrow> bool option \<times> form_parser \<times> 's" where
  "form_step header_callback content_callback p s =
     (case fp_state p of
        Initial_Boundary \<Rightarrow>
          (let pos = buf_find p (dash_boundary_crlf p) in
           if pos = length (fp_buf p) then (Some True, p, s)
           else (None, (buf_erase (pos + length (dash_boundary_crlf p)) p)\<lparr>fp_state := New_Entry\<rparr>, s))
      | New_Entry \<Rightarrow>
          (None, p\<lparr>fp_file := empty_form_data, fp_header_count := 0, fp_state := Entry_Headers\<rparr>, s)
      | Entry_Headers \<Rightarrow>
          (let pos = buf_find p CRLF in
           if HEADER_MAX_LENGTH < pos then (Some False, p, s)
           else (case header_lines header_callback p s of
               (False, p1, s1) \<Rightarrow> (Some False, p1, s1)
             | (True, p1, s1) \<Rightarrow> if fp_state p1 \<noteq> Entry_Body then (Some True, p1, s1) else (None, p1, s1)))
      | Entry_Body \<Rightarrow>
          (if length (fp_buf p) < length (crlf_dash_boundary p) then (Some True, p, s)
           else
             (let pos = buf_find p (crlf_dash_boundary p) in
              if pos < length (fp_buf p) then
                (case content_callback (take pos (fp_buf p)) s of
                   (False, s1) \<Rightarrow> (Some False, p\<lparr>fp_valid := False\<rparr>, s1)
                 | (True, s1) \<Rightarrow>
                     (None, (buf_erase (pos + length (crlf_dash_boundary p)) p)\<lparr>fp_state := After_Boundary\<rparr>, s1))
              else
                (let len = length (fp_buf p) - length (crlf_dash_boundary p) in
                 if 0 < len then
                   (case content_callback (take len (fp_buf p)) s of
                      (False, s1) \<Rightarrow> (Some False, p\<lparr>fp_valid := False\<rparr>, s1)
                    | (True, s1) \<Rightarrow> (Some True, buf_erase len p, s1))
                 else (Some True, p, s))))
      | After_Boundary \<Rightarrow>
          (if length (fp_buf p) < length CRLF then (Some True, p, s)
           else if take 2 (fp_buf p) = CRLF then (None, (buf_erase (length CRLF) p)\<lparr>fp_state := New_Entry\<rparr>, s)
           else if length (fp_buf p) < length ''--'' then (Some True, p, s)
           else if take 2 (fp_buf p) = ''--'' then (None, p\<lparr>fp_valid := True, fp_buf := []\<rparr>, s)
           else (Some True, p, s)))"

definition form_measure :: "form_parser \<Rightarrow> nat" where
  "form_measure p = 2 * length (fp_buf p) + (if fp_state p = New_Entry then 1 else 0)"

lemma header_lines_buf:
  "header_lines h p s = (b, p', s') \<Longrightarrow>
     length (fp_buf p') \<le> length (fp_buf p)
     \<and> (fp_state p \<noteq> Entry_Body \<and> fp_state p' = Entry_Body \<longrightarrow> length (fp_buf p') < length (fp_buf p))
     \<and> (fp_state p' = fp_state p \<or> fp_state p' = Entry_Body)"
proof (induction h p s rule: header_lines.induct)
  case (1 h p s)
  show ?case
  proof (cases "length (fp_buf p) \<le> buf_find p CRLF \<or> buf_find p CRLF = 0 \<or> HEADER_MAX_COUNT \<le> fp_header_count p
      \<or> entry_header (take (buf_find p CRLF) (fp_buf p)) (fp_file p) = None")
    case True
    then show ?thesis
      using "1.prems" by (subst (asm) header_lines.simps)
        (auto simp: Let_def buf_erase_def CRLF_def split: if_splits prod.splits bool.splits option.splits)
  next
    case False
    then obtain fd where f: "entry_header (take (buf_find p CRLF) (fp_buf p)) (fp_file p) = Some fd" by auto
    have "header_lines h p s = header_lines h (buf_erase (buf_find p CRLF + length CRLF)
        (p\<lparr>fp_header_count := fp_header_count p + 1, fp_file := fd\<rparr>)) s"
      using False f by (subst header_lines.simps) (simp add: Let_def)
    then show ?thesis
      using "1.IH" [OF refl _ _ _ refl f] False "1.prems" by (auto simp: buf_erase_def CRLF_def)
  qed
qed

lemma buf_find_bound: "buf_find p s < length (fp_buf p) \<Longrightarrow> buf_find p s + length s \<le> length (fp_buf p)"
  by (auto simp: buf_find_def dest: index_of_bound split: option.splits)

lemma form_step_decreases:
  assumes "form_step h c p s = (None, p', s')" "fp_buf p \<noteq> []"
  shows "form_measure p' < form_measure p"
proof (cases "fp_state p")
  case Initial_Boundary
  obtain n where "length (fp_buf p) = Suc n" using assms(2) by (cases "fp_buf p") auto
  then show ?thesis
    using assms Initial_Boundary by (auto simp: form_step_def form_measure_def buf_erase_def dash_boundary_crlf_def Let_def split: if_splits)
next
  case Entry_Headers
  then obtain s1 where "header_lines h p s = (True, p', s1)" "fp_state p' = Entry_Body"
    using assms by (auto simp: form_step_def Let_def split: if_splits prod.splits bool.splits)
  then show ?thesis using header_lines_buf Entry_Headers by (fastforce simp: form_measure_def)
next
  case Entry_Body
  then show ?thesis
    using assms by (auto simp: form_step_def form_measure_def buf_erase_def crlf_dash_boundary_def Let_def
        split: if_splits prod.splits bool.splits)
next
  case After_Boundary
  then show ?thesis
    using assms by (auto simp: form_step_def form_measure_def buf_erase_def CRLF_def Let_def split: if_splits)
qed (use assms in \<open>auto simp: form_step_def form_measure_def\<close>)

function form_loop :: "(form_data \<Rightarrow> 's \<Rightarrow> bool \<times> 's) \<Rightarrow> (string \<Rightarrow> 's \<Rightarrow> bool \<times> 's) \<Rightarrow> form_parser \<Rightarrow> 's
    \<Rightarrow> bool \<times> form_parser \<times> 's" where
  "form_loop header_callback content_callback p s =
     (if fp_buf p = [] then (True, p, s)
      else (case form_step header_callback content_callback p s of
          (Some b, p1, s1) \<Rightarrow> (b, p1, s1)
        | (None, p1, s1) \<Rightarrow> form_loop header_callback content_callback p1 s1))"
  by pat_completeness auto
termination
  by (relation "measure (\<lambda>(h, c, p, s). form_measure p)") (auto intro: form_step_decreases [OF sym])

declare form_loop.simps [simp del]

definition form_parse :: "(form_data \<Rightarrow> 's \<Rightarrow> bool \<times> 's) \<Rightarrow> (string \<Rightarrow> 's \<Rightarrow> bool \<times> 's) \<Rightarrow> string \<Rightarrow> form_parser \<Rightarrow> 's
    \<Rightarrow> bool \<times> form_parser \<times> 's" where
  "form_parse header_callback content_callback d p s =
     form_loop header_callback content_callback (p\<lparr>fp_buf := fp_buf p @ d\<rparr>) s"

subsection \<open>The provider hands out the form\<close>

definition keep_writes :: "string \<Rightarrow> string \<Rightarrow> bool \<times> string" where
  "keep_writes d s = (True, s @ d)"

lemma copy_loop_copies:
  "length buf < SEND_BUFSIZ \<Longrightarrow> \<exists>buf' s'. copy_loop keep_writes src buf s = (True, buf', s')
     \<and> s' @ buf' = s @ buf @ src \<and> length buf' < SEND_BUFSIZ"
proof (induction "length src" arbitrary: src buf s rule: less_induct)
  case less
  show ?case
  proof (cases "src = []")
    case True
    then show ?thesis using less.prems by (simp add: copy_loop.simps)
  next
    case False
    define k where "k = min (length src) (SEND_BUFSIZ - length buf)"
    have k: "0 < k" "k \<le> length src" "k \<le> SEND_BUFSIZ - length buf"
      using False less.prems by (auto simp: k_def)
    let ?b = "buf @ take k src"
    have unfold: "copy_loop keep_writes src buf s =
        (if length ?b = SEND_BUFSIZ then copy_loop keep_writes (drop k src) [] (s @ ?b)
         else copy_loop keep_writes (drop k src) ?b s)"
      using False less.prems by (subst copy_loop.simps) (simp add: Let_def k_def keep_writes_def)
    have shorter: "length (drop k src) < length src" using k by simp
    show ?thesis
    proof (cases "length ?b = SEND_BUFSIZ")
      case True
      have "length ([] :: string) < SEND_BUFSIZ" by (simp add: SEND_BUFSIZ_def)
      then show ?thesis
        using less.hyps [OF shorter, of "[]" "s @ ?b"] unfold True by auto
    next
      case ne: False
      have "length ?b < SEND_BUFSIZ" using ne k less.prems by auto
      then show ?thesis using less.hyps [OF shorter, of ?b s] unfold ne by auto
    qed
  qed
qed

lemma send_segments_sends:
  "length buf < SEND_BUFSIZ \<Longrightarrow> segs \<noteq> [] \<longrightarrow> k \<le> length (hd segs) \<Longrightarrow>
   \<exists>buf' s'. send_segments keep_writes segs k n buf s = (True, buf', s')
     \<and> s' @ buf' = s @ buf @ take n (drop k (concat segs))"
proof (induction segs arbitrary: k n buf s)
  case (Cons seg segs)
  show ?case
  proof (cases "n = 0")
    case False
    let ?src = "take (min (length seg - k) n) (drop k seg)"
    obtain buf1 s1 where 1: "copy_loop keep_writes ?src buf s = (True, buf1, s1)"
      "s1 @ buf1 = s @ buf @ ?src" "length buf1 < SEND_BUFSIZ"
      using copy_loop_copies [OF Cons.prems(1)] by blast
    have k: "k \<le> length seg" using Cons.prems(2) by simp
    have "take n (drop k (concat (seg # segs))) = ?src @ take (n - length ?src) (concat segs)"
      using k by (cases "n \<le> length seg - k") (auto simp: min_def)
    moreover obtain buf2 s2 where "send_segments keep_writes segs 0 (n - length ?src) buf1 s1 = (True, buf2, s2)"
      "s2 @ buf2 = s1 @ buf1 @ take (n - length ?src) (concat segs)"
      using Cons.IH [OF 1(3), of 0 "n - length ?src" s1] by auto
    ultimately show ?thesis
      using False 1(1,2) by (simp add: Let_def)
  qed simp
qed simp

lemma find_segment_found:
  "find_segment offset pos segs = (pos', segs') \<Longrightarrow> pos \<le> offset \<Longrightarrow>
     (segs' \<noteq> [] \<longrightarrow> offset - pos' \<le> length (hd segs'))
     \<and> drop (offset - pos) (concat segs) = (if segs' = [] then [] else drop (offset - pos') (concat segs'))"
proof (induction offset pos segs rule: find_segment.induct)
  case (2 offset pos seg segs)
  show ?case
  proof (cases "0 < length seg \<and> offset - pos < length seg")
    case False
    then have "pos + length seg \<le> offset" using "2.prems"(2) by auto
    moreover have "drop (offset - pos) (concat (seg # segs)) = drop (offset - (pos + length seg)) (concat segs)"
      using calculation by simp
    moreover have "find_segment offset (pos + length seg) segs = (pos', segs')"
      using "2.prems"(1) False by (auto split: if_splits)
    ultimately show ?thesis using "2.IH" [OF False] by simp
  qed (use "2.prems" in auto)
qed simp

lemma form_segments_text: "concat (form_segments items boundary) = serialize_form items boundary True"
  by (induction items) (simp_all add: form_segments_def serialize_form_def)

lemma form_provider_slice:
  "form_provider items boundary offset n keep_writes s
     = (True, s @ take n (drop offset (serialize_form items boundary True)))"
proof -
  obtain pos segs where f: "find_segment offset 0 (form_segments items boundary) = (pos, segs)" by fastforce
  let ?k = "if segs = [] then 0 else offset - pos"
  have d: "drop offset (serialize_form items boundary True) = drop ?k (concat segs)"
    and k: "segs \<noteq> [] \<longrightarrow> ?k \<le> length (hd segs)"
    using find_segment_found [OF f] by (auto simp: form_segments_text)
  obtain buf' s' where "send_segments keep_writes segs ?k n [] s = (True, buf', s')"
    "s' @ buf' = s @ take n (drop ?k (concat segs))"
    using send_segments_sends [of "[]" segs ?k n s] k by (auto simp: SEND_BUFSIZ_def)
  then show ?thesis unfolding d by (auto simp: form_provider_def f keep_writes_def)
qed

lemma form_content_length: "get_multipart_content_length items boundary = length (serialize_form items boundary True)"
proof -
  have "foldl (\<lambda>n item. n + length (serialize_item_begin item boundary) + length (up_content item) + length CRLF) m items
      = m + length (serialize_form items boundary False)" for m
    by (induction items arbitrary: m) (simp_all add: serialize_form_def)
  then show ?thesis by (simp add: get_multipart_content_length_def serialize_form_def)
qed

end
