(* ===== verification/Http_Ranges.thy ===== *)
theory Http_Ranges
  imports Http_Message
begin

text \<open>
  Byte ranges of \<open>include/httplib.h\<close>: the check of the ranges of a request against the
  content, their coalescing, and the multipart body that carries several of them.
\<close>

subsection \<open>Coalescing\<close>

definition RANGE_MAX_COUNT :: nat where "RANGE_MAX_COUNT = 1024"

definition to_ssize :: "nat \<Rightarrow> int" where
  "to_ssize n = (if int n \<le> LLONG_MAX then int n else int n - 18446744073709551616)"

text \<open>The positions a range names in a content of the length given.\<close>

definition normalize_range :: "int \<Rightarrow> range_t \<Rightarrow> range_t" where
  "normalize_range len r =
     (let (f0, l0) = (if fst r = -1 \<and> snd r = -1 then (0, len) else r);
          (f1, l1) = (if f0 = -1 then (len - l0, len - 1) else (f0, l0));
          l2 = (if l1 = -1 \<or> len \<le> l1 then len - 1 else l1)
      in (f1, l2))"

definition in_content :: "int \<Rightarrow> range_t \<Rightarrow> bool" where
  "in_content len r \<longleftrightarrow> 0 \<le> fst r \<and> fst r \<le> snd r \<and> snd r < len"

text \<open>One range after those collected so far, the last one first.\<close>

fun coalesce_step :: "int \<Rightarrow> range_t list \<Rightarrow> range_t \<Rightarrow> range_t list" where
  "coalesce_step len acc r0 =
     (let r = normalize_range len r0 in
      if \<not> in_content len r then acc
      else (case acc of
          [] \<Rightarrow> [r]
        | prev # rest \<Rightarrow>
            if fst r \<le> snd prev + 1 \<and> \<not> (fst r = fst prev \<and> snd r = snd prev)
            then (fst prev, max (snd prev) (snd r)) # rest
            else r # prev # rest))"

text \<open>\<open>std::sort\<close> by the first position; on the few ranges of a request it keeps the order of
  equal ones.\<close>

definition coalesce_ranges :: "range_t list \<Rightarrow> nat \<Rightarrow> range_t list" where
  "coalesce_ranges ranges len =
     (if length ranges \<le> 1 then ranges
      else rev (foldl (coalesce_step (to_ssize len)) [] (sort_key fst ranges)))"

subsection \<open>The check\<close>

text \<open>The loop of \<open>range_error\<close>: \<open>None\<close> when a range is refused.\<close>

fun check_ranges :: "int \<Rightarrow> range_t list \<Rightarrow> range_t list \<Rightarrow> nat \<Rightarrow> range_t list option" where
  "check_ranges len [] seen overlaps = Some seen"
| "check_ranges len (r0 # rs) seen overlaps =
     (let r = normalize_range len r0;
          n = (if list_ex (\<lambda>p. \<not> (snd r < fst p \<or> snd p < fst r)) seen then overlaps + 1 else overlaps)
      in if \<not> in_content len r then None
         else if 2 < n then None
         else check_ranges len rs (seen @ [r]) n)"

text \<open>The refusal, and the request and the response as they are left; the caller clears the
  ranges of a request it refuses.\<close>

definition range_error :: "request \<Rightarrow> response \<Rightarrow> bool \<times> request \<times> response" where
  "range_error req res =
     (if rq_ranges req \<noteq> [] \<and> 200 \<le> rs_status res \<and> rs_status res < 300 then
        (if rs_body res = [] \<and> rs_content_provider res \<noteq> None \<and> rs_content_length res = 0 then
           (False, req\<lparr>rq_ranges := []\<rparr>,
             if rs_status res = 206 then res\<lparr>rs_status := 200\<rparr> else res)
         else
           (let n = (if rs_content_length res \<noteq> 0 then rs_content_length res else length (rs_body res));
                len = to_ssize n
            in if RANGE_MAX_COUNT < length (rq_ranges req) then (True, req, res)
               else (case check_ranges len (rq_ranges req) [] 0 of
                   None \<Rightarrow> (True, req, res)
                 | Some rs \<Rightarrow> (False, req\<lparr>rq_ranges := coalesce_ranges rs n\<rparr>, res))))
      else (False, req, res))"

subsection \<open>Content-Range\<close>

text \<open>An assertion that fails ends the program.\<close>

definition get_range_offset_and_length :: "range_t \<Rightarrow> nat \<Rightarrow> (nat \<times> nat) res" where
  "get_range_offset_and_length r len =
     (if fst r \<noteq> -1 \<and> snd r \<noteq> -1 \<and> 0 \<le> fst r \<and> fst r < to_ssize len \<and> fst r \<le> snd r \<and> snd r < to_ssize len
      then Inr (nat (fst r), nat (snd r - fst r) + 1) else Inl Undefined_Behaviour)"

definition make_content_range_header_field :: "nat \<times> nat \<Rightarrow> nat \<Rightarrow> string" where
  "make_content_range_header_field ol len =
     ''bytes '' @ show_nat (fst ol) @ ''-'' @ show_nat (sz_sub (szt (fst ol + snd ol)) 1) @ ''/'' @ show_nat len"

subsection \<open>Several ranges\<close>

text \<open>The callbacks of \<open>process_multipart_ranges_data\<close> change a state of their own.\<close>

fun process_multipart_ranges_data ::
    "(string \<Rightarrow> 's \<Rightarrow> 's) \<Rightarrow> (nat \<Rightarrow> nat \<Rightarrow> 's \<Rightarrow> 's res) \<Rightarrow> string \<Rightarrow> string \<Rightarrow> nat \<Rightarrow> range_t list \<Rightarrow> 's \<Rightarrow> 's res" where
  "process_multipart_ranges_data token content boundary content_type len [] s =
     Inr (token ''--'' (token boundary (token ''--'' s)))"
| "process_multipart_ranges_data token content boundary content_type len (r # rs) s =
     (let s1 = token CRLF (token boundary (token ''--'' s));
          s2 = (if content_type \<noteq> [] then token CRLF (token content_type (token ''Content-Type: '' s1)) else s1)
      in rbind (get_range_offset_and_length r len) (\<lambda>ol.
         let s3 = token CRLF (token CRLF (token (make_content_range_header_field ol len) (token ''Content-Range: '' s2)))
         in rbind (content (fst ol) (snd ol) s3) (\<lambda>s4.
              process_multipart_ranges_data token content boundary content_type len rs (token CRLF s4))))"

definition make_multipart_ranges_data :: "request \<Rightarrow> response \<Rightarrow> string \<Rightarrow> string \<Rightarrow> nat \<Rightarrow> string res" where
  "make_multipart_ranges_data req res boundary content_type len =
     process_multipart_ranges_data (\<lambda>t data. data @ t)
       (\<lambda>offset n data. if len < offset + n then Inl Undefined_Behaviour
          else rbind (substr (rs_body res) offset n) (\<lambda>part. Inr (data @ part)))
       boundary content_type len (rq_ranges req) []"

definition get_multipart_ranges_data_length :: "request \<Rightarrow> string \<Rightarrow> string \<Rightarrow> nat \<Rightarrow> nat res" where
  "get_multipart_ranges_data_length req boundary content_type len =
     process_multipart_ranges_data (\<lambda>t n. n + length t) (\<lambda>offset k n. Inr (n + k))
       boundary content_type len (rq_ranges req) 0"

subsection \<open>What is covered\<close>

definition covered :: "range_t list \<Rightarrow> int set" where
  "covered rs = (\<Union>r \<in> set rs. {fst r .. snd r})"

lemma covered_simps [simp]:
  "covered [] = {}" "covered (r # rs) = {fst r .. snd r} \<union> covered rs"
  "covered (rs @ rs') = covered rs \<union> covered rs'" "covered (rev rs) = covered rs"
  by (auto simp: covered_def)

lemma covered_mset: "mset rs = mset rs' \<Longrightarrow> covered rs = covered rs'"
  unfolding covered_def using mset_eq_setD by blast

text \<open>The positions a client asks for (RFC 9110, 14.1.2).\<close>

definition requested :: "int \<Rightarrow> range_t \<Rightarrow> int set" where
  "requested len r =
     (if fst r = -1 then {len - snd r ..< len}
      else if snd r = -1 then {fst r ..< len} else {fst r .. snd r} \<inter> {..<len})"

lemma normalize_in_content: "in_content len r \<Longrightarrow> normalize_range len r = r"
  by (cases r) (auto simp: in_content_def normalize_range_def)

lemma normalize_requested:
  assumes "valid_range r" "in_content len (normalize_range len r)"
  shows "{fst (normalize_range len r) .. snd (normalize_range len r)} = requested len r"
  using assms
  by (cases r) (auto simp: in_content_def normalize_range_def requested_def valid_range_def Let_def split: if_splits)

lemma check_ranges_eq:
  "check_ranges len rs seen n = Some out \<Longrightarrow>
     out = seen @ map (normalize_range len) rs \<and> list_all (\<lambda>r. in_content len (normalize_range len r)) rs"
proof (induction len rs seen n rule: check_ranges.induct)
  case (2 len r0 rs seen n)
  then show ?case by (auto simp: Let_def split: if_splits)
qed simp

lemma coalesce_step_inv:
  assumes "list_all (in_content len) acc" "sorted (map fst (rev acc))" "in_content len r"
    "\<forall>x \<in> set acc. fst x \<le> fst r"
  shows "list_all (in_content len) (coalesce_step len acc r)" "sorted (map fst (rev (coalesce_step len acc r)))"
    "covered (coalesce_step len acc r) = covered acc \<union> {fst r .. snd r}"
    "\<forall>x \<in> set (coalesce_step len acc r). fst x \<le> fst r"
    "length (coalesce_step len acc r) \<le> length acc + 1"
proof -
  note n = normalize_in_content [OF assms(3)]
  have "list_all (in_content len) (coalesce_step len acc r) \<and> sorted (map fst (rev (coalesce_step len acc r)))
    \<and> covered (coalesce_step len acc r) = covered acc \<union> {fst r .. snd r}
    \<and> (\<forall>x \<in> set (coalesce_step len acc r). fst x \<le> fst r) \<and> length (coalesce_step len acc r) \<le> length acc + 1"
    using assms n by (cases acc) (auto simp: in_content_def sorted_append max_def)
  then show "list_all (in_content len) (coalesce_step len acc r)" "sorted (map fst (rev (coalesce_step len acc r)))"
    "covered (coalesce_step len acc r) = covered acc \<union> {fst r .. snd r}"
    "\<forall>x \<in> set (coalesce_step len acc r). fst x \<le> fst r"
    "length (coalesce_step len acc r) \<le> length acc + 1" by blast+
qed

lemma coalesce_foldl:
  "list_all (in_content len) rs \<Longrightarrow> sorted (map fst rs) \<Longrightarrow> list_all (in_content len) acc \<Longrightarrow>
     sorted (map fst (rev acc)) \<Longrightarrow> \<forall>x \<in> set acc. \<forall>r \<in> set rs. fst x \<le> fst r \<Longrightarrow>
     (let out = foldl (coalesce_step len) acc rs in
        list_all (in_content len) out \<and> sorted (map fst (rev out)) \<and> covered out = covered acc \<union> covered rs
        \<and> length out \<le> length acc + length rs)"
proof (induction rs arbitrary: acc)
  case (Cons r rs)
  let ?a = "coalesce_step len acc r"
  have r: "in_content len r" "\<forall>x \<in> set acc. fst x \<le> fst r" using Cons.prems by auto
  note s = coalesce_step_inv [OF Cons.prems(3,4) r]
  have "\<forall>x \<in> set ?a. \<forall>q \<in> set rs. fst x \<le> fst q"
    using s(4) Cons.prems(2) by fastforce
  then have "let out = foldl (coalesce_step len) ?a rs in
        list_all (in_content len) out \<and> sorted (map fst (rev out)) \<and> covered out = covered ?a \<union> covered rs
        \<and> length out \<le> length ?a + length rs"
    using Cons.prems(1,2) s(1,2) by (intro Cons.IH) auto
  then show ?case using s(3,5) by (auto simp: Let_def simp del: coalesce_step.simps)
qed simp

lemma coalesce_spec:
  assumes "list_all (in_content (to_ssize n)) rs"
  shows "list_all (in_content (to_ssize n)) (coalesce_ranges rs n)"
    "sorted (map fst (coalesce_ranges rs n))" "covered (coalesce_ranges rs n) = covered rs"
    "length (coalesce_ranges rs n) \<le> length rs"
proof -
  let ?s = "sort_key fst rs"
  have m: "mset ?s = mset rs" by simp
  have all: "list_all (in_content (to_ssize n)) ?s" using assms by (simp add: list_all_iff)
  have f: "let out = foldl (coalesce_step (to_ssize n)) [] ?s in
        list_all (in_content (to_ssize n)) out \<and> sorted (map fst (rev out)) \<and> covered out = covered [] \<union> covered ?s
        \<and> length out \<le> length ([]::range_t list) + length ?s"
    by (rule coalesce_foldl) (use all in auto)
  have c: "covered ?s = covered rs" by (rule covered_mset) simp
  show "list_all (in_content (to_ssize n)) (coalesce_ranges rs n)"
    "covered (coalesce_ranges rs n) = covered rs" "length (coalesce_ranges rs n) \<le> length rs"
    using f assms c by (auto simp: coalesce_ranges_def Let_def list_all_iff)
  show "sorted (map fst (coalesce_ranges rs n))"
    using f by (cases rs; cases "tl rs") (auto simp: coalesce_ranges_def Let_def rev_map)
qed

lemma in_content_offset:
  "in_content (to_ssize n) r \<Longrightarrow> get_range_offset_and_length r n = Inr (nat (fst r), nat (snd r - fst r) + 1)"
  by (auto simp: in_content_def get_range_offset_and_length_def)

subsection \<open>The announced length is the length sent\<close>

lemma in_content_bounds:
  assumes "in_content (to_ssize (length (body :: string))) r"
  shows "nat (fst r) + (nat (snd r - fst r) + 1) \<le> length body"
proof -
  have "to_ssize (length body) \<le> int (length body)" by (simp add: to_ssize_def LLONG_MAX_def)
  then show ?thesis using assms by (auto simp: in_content_def)
qed

lemma multipart_lengths:
  assumes "list_all (in_content (to_ssize (length body))) rs"
  shows "\<exists>t. process_multipart_ranges_data (\<lambda>t data. data @ t)
       (\<lambda>offset n data. if length body < offset + n then Inl Undefined_Behaviour
          else rbind (substr body offset n) (\<lambda>part. Inr (data @ part))) b ct (length body) rs s = Inr (s @ t)
    \<and> process_multipart_ranges_data (\<lambda>t n. n + length t) (\<lambda>offset k n. Inr (n + k)) b ct (length body) rs (m::nat)
      = Inr (m + length t)"
  using assms
proof (induction rs arbitrary: s m)
  case (Cons r rs)
  have r: "in_content (to_ssize (length body)) r" using Cons.prems by simp
  note b = in_content_bounds [OF r]
  define part where "part = take (nat (snd r - fst r) + 1) (drop (nat (fst r)) body)"
  have part: "substr body (nat (fst r)) (nat (snd r - fst r) + 1) = Inr part" "length part = nat (snd r - fst r) + 1"
    using b by (auto simp: substr_def part_def)
  define h where "h = ''--'' @ b @ CRLF @ (if ct \<noteq> [] then ''Content-Type: '' @ ct @ CRLF else [])
    @ ''Content-Range: '' @ make_content_range_header_field (nat (fst r), nat (snd r - fst r) + 1) (length body) @ CRLF @ CRLF"
  obtain t where t: "process_multipart_ranges_data (\<lambda>t data. data @ t)
       (\<lambda>offset n data. if length body < offset + n then Inl Undefined_Behaviour
          else rbind (substr body offset n) (\<lambda>part. Inr (data @ part))) b ct (length body) rs (s @ h @ part @ CRLF)
        = Inr ((s @ h @ part @ CRLF) @ t)"
    "process_multipart_ranges_data (\<lambda>t n. n + length t) (\<lambda>offset k n. Inr (n + k)) b ct (length body) rs
        (m + length h + length part + length CRLF) = Inr (m + length h + length part + length CRLF + length t)"
    using Cons.IH [of "s @ h @ part @ CRLF" "m + length h + length part + length CRLF"] Cons.prems by auto
  then show ?case
    using b part in_content_offset [OF r]
    by (intro exI [of _ "h @ part @ CRLF @ t"]) (auto simp: h_def Let_def add.assoc add.commute add.left_commute)
qed (auto intro!: exI [of _ "''--'' @ b @ ''--''"])



text \<open>The length computed for a multipart answer is the length of the multipart body
  that is built, and building it reads nothing outside the content.\<close>

theorem multipart_length_is_exact:
  assumes "list_all (in_content (to_ssize (length (rs_body res)))) (rq_ranges req)"
  shows "\<exists>data. make_multipart_ranges_data req res boundary content_type (length (rs_body res)) = Inr data
    \<and> get_multipart_ranges_data_length req boundary content_type (length (rs_body res)) = Inr (length data)"
  using multipart_lengths [OF assms, of boundary content_type "[]" 0]
  by (auto simp: make_multipart_ranges_data_def get_multipart_ranges_data_length_def)

theorem multipart_length_is_exact_witness:
  "\<exists>data. make_multipart_ranges_data (new_request\<lparr>rq_ranges := [(0, 1), (3, 5)]\<rparr>)
      (new_response\<lparr>rs_body := ''metric''\<rparr>) ''b'' [] (length ''metric'') = Inr data
    \<and> get_multipart_ranges_data_length (new_request\<lparr>rq_ranges := [(0, 1), (3, 5)]\<rparr>) ''b'' [] (length ''metric'')
      = Inr (length data)"
proof -
  let ?q = "new_request\<lparr>rq_ranges := [(0, 1), (3, 5)]\<rparr>"
  let ?r = "new_response\<lparr>rs_body := ''metric''\<rparr>"
  have b: "rs_body ?r = ''metric''" by simp
  have "list_all (in_content (to_ssize (length (rs_body ?r)))) (rq_ranges ?q)"
    by (simp add: in_content_def to_ssize_def LLONG_MAX_def)
  from multipart_length_is_exact [OF this, of "''b''" "[]"]
  show ?thesis unfolding b .
qed

end
