(* ===== verification/Http_Stream.thy ===== *)
theory Http_Stream
  imports Http_Ranges
begin

text \<open>
  The streams of \<open>include/httplib.h\<close>.  A read gives the bytes read, none of them at the end,
  or \<open>None\<close> for an error.  \<open>SocketStream\<close> keeps what the kernel gave beyond what was asked
  for; what arrives is a list of packets.  The contract \<open>byte_source\<close> says that reading
  delivers the bytes in order, and the line reader is proved against it once.
\<close>

subsection \<open>\<open>SocketStream\<close>\<close>

datatype arrival = Packet string | Timed_out | Broken

record socket_stream =
  read_buff :: string
  arrivals :: "arrival list"

definition read_buff_size :: nat where "read_buff_size = 4096"

text \<open>One \<open>recv\<close> of at most \<open>n\<close> bytes; the end of the list is a closed connection.\<close>

fun recv_socket :: "nat \<Rightarrow> arrival list \<Rightarrow> string option \<times> arrival list" where
  "recv_socket n [] = (Some [], [])"
| "recv_socket n (Timed_out # as) = (None, as)"
| "recv_socket n (Broken # as) = (None, as)"
| "recv_socket n (Packet d # as) =
     (Some (take n d), if drop n d = [] then as else Packet (drop n d) # as)"

definition ss_read :: "nat \<Rightarrow> socket_stream \<Rightarrow> string option \<times> socket_stream" where
  "ss_read n s =
     (if read_buff s \<noteq> [] then
        (Some (take n (read_buff s)), s\<lparr>read_buff := drop n (read_buff s)\<rparr>)
      else (case recv_socket (if n < read_buff_size then read_buff_size else n) (arrivals s) of
          (None, as) \<Rightarrow> (None, s\<lparr>arrivals := as\<rparr>)
        | (Some d, as) \<Rightarrow> (Some (take n d), \<lparr>read_buff = drop n d, arrivals = as\<rparr>)))"

text \<open>The bytes still to come when nothing goes wrong.\<close>

fun packet :: "arrival \<Rightarrow> string" where
  "packet (Packet d) = d" | "packet Timed_out = []" | "packet Broken = []"

fun sound_arrival :: "arrival \<Rightarrow> bool" where
  "sound_arrival (Packet d) = (d \<noteq> [])" | "sound_arrival Timed_out = False" | "sound_arrival Broken = False"

definition ss_bytes :: "socket_stream \<Rightarrow> string" where
  "ss_bytes s = read_buff s @ concat (map packet (arrivals s))"

definition ss_good :: "socket_stream \<Rightarrow> bool" where
  "ss_good s = list_all sound_arrival (arrivals s)"

subsection \<open>\<open>BufferStream\<close> and a plain sequence of bytes\<close>

record buffer_stream =
  bs_buffer :: string
  bs_position :: nat

definition bs_read :: "nat \<Rightarrow> buffer_stream \<Rightarrow> string option \<times> buffer_stream" where
  "bs_read n s =
     (let d = take n (drop (bs_position s) (bs_buffer s))
      in (Some d, s\<lparr>bs_position := bs_position s + length d\<rparr>))"

definition bs_write :: "string \<Rightarrow> buffer_stream \<Rightarrow> buffer_stream" where
  "bs_write d s = s\<lparr>bs_buffer := bs_buffer s @ d\<rparr>"

text \<open>How many bytes are there when \<open>n\<close> are still to come is the first argument.\<close>

definition strm_read :: "(nat \<Rightarrow> nat) \<Rightarrow> nat \<Rightarrow> string \<Rightarrow> string \<times> string" where
  "strm_read avail k s = (let n = min k (max 1 (avail (length s))) in (take n s, drop n s))"

subsection \<open>The line reader\<close>

text \<open>The argument is the line so far; every turn makes it longer, up to the bound.\<close>

function getline_on :: "(nat \<Rightarrow> 's \<Rightarrow> string option \<times> 's) \<Rightarrow> string \<Rightarrow> 's \<Rightarrow> string option \<times> 's" where
  "getline_on read line s =
     (if MAX_LINE_LENGTH \<le> length line then (None, s)
      else (case read 1 s of
          (None, s') \<Rightarrow> (None, s')
        | (Some d, s') \<Rightarrow>
            if d = [] then (if line = [] then None else Some line, s')
            else if line \<noteq> [] \<and> last line = CR \<and> hd d = LF then (Some (line @ [hd d]), s')
            else getline_on read (line @ [hd d]) s'))"
  by pat_completeness auto
termination
  by (relation "measure (\<lambda>(read, line, s). MAX_LINE_LENGTH - length line)") auto

declare getline_on.simps [simp del]

subsection \<open>The contract\<close>

locale byte_source =
  fixes read :: "nat \<Rightarrow> 's \<Rightarrow> string option \<times> 's"
    and bytes :: "'s \<Rightarrow> string"
    and good :: "'s \<Rightarrow> bool"
  assumes read_good: "good s \<Longrightarrow> \<exists>d s'. read k s = (Some d, s') \<and> good s' \<and> bytes s = d @ bytes s' \<and> length d \<le> k"
    and read_some: "good s \<Longrightarrow> 0 < k \<Longrightarrow> bytes s \<noteq> [] \<Longrightarrow> read k s = (Some d, s') \<Longrightarrow> d \<noteq> []"
begin

lemma read_one:
  assumes "good s" "bytes s = b # r"
  shows "\<exists>s'. read 1 s = (Some [b], s') \<and> good s' \<and> bytes s' = r"
proof -
  obtain d s' where d: "read 1 s = (Some d, s')" "good s'" "bytes s = d @ bytes s'" "length d \<le> 1"
    using read_good [OF assms(1), of 1] by blast
  have "d \<noteq> []" using read_some [OF assms(1) _ _ d(1)] assms(2) by simp
  then have "d = [b] \<and> bytes s' = r" using d(3,4) assms(2) by (cases d) auto
  then show ?thesis using d by blast
qed

lemma read_end:
  assumes "good s" "bytes s = []"
  shows "\<exists>s'. read k s = (Some [], s') \<and> good s' \<and> bytes s' = []"
  using read_good [OF assms(1), of k] assms(2) by auto

lemma getline_source:
  assumes "good s"
  shows "case getline_loop line (bytes s) of
      None \<Rightarrow> fst (getline_on read line s) = None
    | Some (l, r) \<Rightarrow> \<exists>s'. getline_on read line s = (Some l, s') \<and> good s' \<and> bytes s' = r"
  using assms
proof (induction line "bytes s" arbitrary: s rule: getline_loop.induct)
  case (1 line)
  obtain s' where "read 1 s = (Some [], s')" "good s'" "bytes s' = []"
    using read_end [OF 1(2)] 1(1) by metis
  then show ?case
    unfolding getline_on.simps [of read line s] 1(1) [symmetric] by simp
next
  case (2 line b r)
  obtain s' where s': "read 1 s = (Some [b], s')" "good s'" "bytes s' = r"
    using read_one [OF 2(3)] 2(2) by metis
  show ?case
  proof (cases "MAX_LINE_LENGTH \<le> length line \<or> line \<noteq> [] \<and> last line = CR \<and> b = LF")
    case True
    then show ?thesis
      using s' unfolding getline_on.simps [of read line s] 2(2) [symmetric] by auto
  next
    case False
    then have e: "getline_loop line (b # r) = getline_loop (line @ [b]) r"
      "getline_on read line s = getline_on read (line @ [b]) s'"
      using s'(1) by (auto simp: getline_on.simps [of read line s])
    show ?thesis
      unfolding 2(2) [symmetric] e using 2(1) [of s'] s' False by (simp split: option.splits)
  qed
qed

end

subsection \<open>What implements it\<close>

lemma recv_sound:
  assumes "list_all sound_arrival as" "0 < n"
  shows "\<exists>d as'. recv_socket n as = (Some d, as') \<and> list_all sound_arrival as'
    \<and> concat (map packet as) = d @ concat (map packet as') \<and> (as \<noteq> [] \<longrightarrow> d \<noteq> [])"
proof (cases as)
  case (Cons a as')
  then show ?thesis using assms by (cases a) auto
qed simp

lemma ss_read_sound:
  assumes "ss_good s"
  shows "\<exists>d s'. ss_read k s = (Some d, s') \<and> ss_good s' \<and> ss_bytes s = d @ ss_bytes s' \<and> length d \<le> k
    \<and> (0 < k \<and> ss_bytes s \<noteq> [] \<longrightarrow> d \<noteq> [])"
proof (cases "read_buff s = []")
  case False
  then show ?thesis using assms by (auto simp: ss_read_def ss_good_def ss_bytes_def)
next
  case True
  let ?n = "if k < read_buff_size then read_buff_size else k"
  have "0 < ?n" by (auto simp: read_buff_size_def)
  then obtain d as' where d: "recv_socket ?n (arrivals s) = (Some d, as')" "list_all sound_arrival as'"
    "concat (map packet (arrivals s)) = d @ concat (map packet as')" "arrivals s \<noteq> [] \<longrightarrow> d \<noteq> []"
    using recv_sound [of "arrivals s" ?n] assms by (auto simp: ss_good_def)
  then show ?thesis using True by (auto simp: ss_read_def ss_good_def ss_bytes_def)
qed

interpretation socket_source: byte_source ss_read ss_bytes ss_good
proof
  show "ss_good s \<Longrightarrow> \<exists>d s'. ss_read k s = (Some d, s') \<and> ss_good s' \<and> ss_bytes s = d @ ss_bytes s' \<and> length d \<le> k"
    for s k using ss_read_sound [of s k] by blast
  show "ss_good s \<Longrightarrow> 0 < k \<Longrightarrow> ss_bytes s \<noteq> [] \<Longrightarrow> ss_read k s = (Some d, s') \<Longrightarrow> d \<noteq> []"
    for s k d s' using ss_read_sound [of s k] by auto
qed

definition bs_bytes :: "buffer_stream \<Rightarrow> string" where
  "bs_bytes s = drop (bs_position s) (bs_buffer s)"

lemma bs_read_bytes: "bs_read n s = (Some d, s') \<Longrightarrow> d = take n (bs_bytes s) \<and> bs_bytes s' = drop n (bs_bytes s)"
  by (auto simp: bs_read_def bs_bytes_def Let_def min_def add.commute)

interpretation buffer_source: byte_source bs_read bs_bytes "\<lambda>s. True"
proof
  show "\<exists>d s'. bs_read k s = (Some d, s') \<and> True \<and> bs_bytes s = d @ bs_bytes s' \<and> length d \<le> k" for s k
  proof -
    obtain d s' where d: "bs_read k s = (Some d, s')" by (simp add: bs_read_def Let_def)
    then show ?thesis using bs_read_bytes [OF d] by auto
  qed
  show "0 < k \<Longrightarrow> bs_bytes s \<noteq> [] \<Longrightarrow> bs_read k s = (Some d, s') \<Longrightarrow> d \<noteq> []" for s k d s'
    using bs_read_bytes [of k s d s'] by auto
qed

interpretation plain_source: byte_source "\<lambda>k s. (Some (fst (strm_read avail k s)), snd (strm_read avail k s))"
    "\<lambda>s. s" "\<lambda>s. True" for avail
  by unfold_locales (auto simp: strm_read_def Let_def)

text \<open>C27: However the bytes of a connection are cut into packets, the line reader on a
  \<open>SocketStream\<close> returns the line that a reader of the whole text would return, and leaves
  exactly the rest of the bytes to be read.\<close>

theorem lines_do_not_depend_on_packets:
  assumes "ss_good s"
  shows "case getline (ss_bytes s) of
      None \<Rightarrow> fst (getline_on ss_read [] s) = None
    | Some (line, rest) \<Rightarrow> \<exists>s'. getline_on ss_read [] s = (Some line, s') \<and> ss_good s' \<and> ss_bytes s' = rest"
  unfolding getline_def by (rule socket_source.getline_source [OF assms])

theorem lines_do_not_depend_on_packets_witness:
  "\<exists>s'. getline_on ss_read [] \<lparr>read_buff = [], arrivals = [Packet ''GET'', Packet [CR], Packet [LF, CR]]\<rparr>
      = (Some (''GET'' @ CRLF), s') \<and> ss_bytes s' = [CR]"
  using lines_do_not_depend_on_packets [of "\<lparr>read_buff = [], arrivals = [Packet ''GET'', Packet [CR], Packet [LF, CR]]\<rparr>"]
  by (auto simp: ss_good_def ss_bytes_def getline_def MAX_LINE_LENGTH_def CR_def LF_def CRLF_def)

end
