(* ===== verification/Http_Body.thy ===== *)
theory Http_Body
  imports Http_Stream
begin

text \<open>
  The body of a message in \<open>include/httplib.h\<close>: how it is framed, the reader for a length,
  the chunked coding in both directions, and \<open>read_content\<close>.  A stream is the bytes still to
  come; \<open>avail\<close> says how many of them a read finds, so every theorem holds for every cut
  into packets.  The end of the bytes is a closed connection.  A receiver gets a piece, its
  offset and the total, changes a state of its own and may refuse.
\<close>

subsection \<open>Framing\<close>

definition line_codings :: "string \<Rightarrow> string list" where
  "line_codings v = split CHR '','' v"

definition is_chunked_transfer_encoding :: "headers \<Rightarrow> bool" where
  "is_chunked_transfer_encoding h =
     (let vals = equal_range h ''Transfer-Encoding'';
          last_coding = (\<lambda>v. if line_codings v = [] then [] else last (line_codings v));
          chunked = (\<lambda>c. case_equal c ''chunked'')
      in if vals = [] then False
         else if length vals = 1 then chunked (last_coding (hd vals))
         else list_ex (\<lambda>v. list_ex chunked (line_codings v)) vals)"

definition has_framed_body :: "request \<Rightarrow> bool" where
  "has_framed_body req \<longleftrightarrow>
     is_chunked_transfer_encoding (rq_headers req) \<or> 0 < rq_header_u64 req ''Content-Length''"

definition is_connection_persistent :: "request \<Rightarrow> bool" where
  "is_connection_persistent req =
     (let conn = rq_header req ''Connection'' in
      if conn = ''close'' then False
      else if rq_version req = ''HTTP/1.0'' \<and> conn \<noteq> ''Keep-Alive'' then False
      else True)"

definition expect_content :: "request \<Rightarrow> bool" where
  "expect_content req =
     (if rq_method req \<in> {''POST'', ''PUT'', ''PATCH'', ''DELETE''} then True else has_framed_body req)"

subsection \<open>A body of known length\<close>

definition RECV_BUFSIZ :: nat where "RECV_BUFSIZ = 16384"
definition PAYLOAD_MAX_LENGTH :: nat where "PAYLOAD_MAX_LENGTH = 104857600"

datatype read_content_result = RC_Success | RC_PayloadTooLarge | RC_Error

type_synonym 'a receiver = "string \<Rightarrow> nat \<Rightarrow> nat \<Rightarrow> 'a \<Rightarrow> bool \<times> 'a"

record chunked_decoder =
  chunk_remaining :: nat
  dec_finished :: bool
  last_chunk_total :: nat
  last_chunk_offset :: nat

definition new_decoder :: chunked_decoder where
  "new_decoder = \<lparr>chunk_remaining = 0, dec_finished = False, last_chunk_total = 0, last_chunk_offset = 0\<rparr>"

record body_reader =
  has_content_length :: bool
  br_content_length :: nat
  br_payload_max_length :: nat
  bytes_read :: nat
  br_eof :: bool
  last_error :: Error

text \<open>The branch of \<open>BodyReader::read\<close> for a body that is not chunked; no bytes stand for a
  result that is not positive.\<close>

definition body_read :: "(nat \<Rightarrow> nat) \<Rightarrow> nat \<Rightarrow> body_reader \<Rightarrow> string \<Rightarrow> string \<times> body_reader \<times> string" where
  "body_read avail n br s =
     (if br_eof br then ([], br, s)
      else if has_content_length br \<and> br_content_length br \<le> bytes_read br then ([], br\<lparr>br_eof := True\<rparr>, s)
      else (let to_read = (if has_content_length br then min n (br_content_length br - bytes_read br) else n) in
        case strm_read avail to_read s of (d, s') \<Rightarrow>
          if d = [] then ([], br\<lparr>last_error := E_Read, br_eof := True\<rparr>, s')
          else (let br1 = br\<lparr>bytes_read := bytes_read br + length d\<rparr>;
                    br2 = (if has_content_length br1 \<and> br_content_length br1 \<le> bytes_read br1
                           then br1\<lparr>br_eof := True\<rparr> else br1)
                in if 0 < br_payload_max_length br2 \<and> br_payload_max_length br2 < bytes_read br2
                   then ([], br2\<lparr>last_error := E_ExceedMaxPayloadSize, br_eof := True\<rparr>, s')
                   else (d, br2, s'))))"

function length_loop :: "(nat \<Rightarrow> nat) \<Rightarrow> nat \<Rightarrow> 'a receiver \<Rightarrow> nat \<Rightarrow> body_reader \<Rightarrow> 'a \<Rightarrow> string
    \<Rightarrow> read_content_result \<times> 'a \<times> string" where
  "length_loop avail len out r br st s =
     (if r < len then
        (case body_read avail (min (len - r) RECV_BUFSIZ) br s of (d, br', s') \<Rightarrow>
           if d = [] then
             (if last_error br' = E_ExceedMaxPayloadSize then RC_PayloadTooLarge else RC_Error, st, s')
           else (case out d r len st of (accepted, st') \<Rightarrow>
             if \<not> accepted then (RC_Error, st', s')
             else length_loop avail len out (r + length d) br' st' s'))
      else (RC_Success, st, s))"
  by pat_completeness auto
termination
  by (relation "measure (\<lambda>(avail, len, out, r, br, st, s). len - r)") (auto simp: diff_less_mono2)

declare length_loop.simps [simp del]

definition read_content_with_length :: "(nat \<Rightarrow> nat) \<Rightarrow> nat \<Rightarrow> nat \<Rightarrow> 'a receiver \<Rightarrow> 'a \<Rightarrow> string
    \<Rightarrow> read_content_result \<times> 'a \<times> string" where
  "read_content_with_length avail payload_max len out st s =
     length_loop avail len out 0
       \<lparr>has_content_length = True, br_content_length = len, br_payload_max_length = payload_max,
        bytes_read = 0, br_eof = False, last_error = E_Success\<rparr> st s"

subsection \<open>A body up to the end of the connection\<close>

lemma strm_read_split: "strm_read avail k s = (d, s') \<Longrightarrow> s = d @ s' \<and> length d \<le> k \<and> (0 < k \<and> s \<noteq> [] \<longrightarrow> d \<noteq> [])"
  by (auto simp: strm_read_def Let_def)

function without_length_loop :: "(nat \<Rightarrow> nat) \<Rightarrow> nat \<Rightarrow> 'a receiver \<Rightarrow> nat \<Rightarrow> 'a \<Rightarrow> string
    \<Rightarrow> read_content_result \<times> 'a \<times> string" where
  "without_length_loop avail payload_max out r st s =
     (case strm_read avail RECV_BUFSIZ s of (d, s') \<Rightarrow>
        if d = [] then (RC_Success, st, s')
        else if payload_max < r \<or> payload_max - r < length d then (RC_PayloadTooLarge, st, s')
        else (case out d r 0 st of (accepted, st') \<Rightarrow>
          if \<not> accepted then (RC_Error, st', s')
          else without_length_loop avail payload_max out (r + length d) st' s'))"
  by pat_completeness auto
termination
  by (relation "measure (\<lambda>(avail, payload_max, out, r, st, s). length s)")
     (auto dest!: strm_read_split [OF sym])

declare without_length_loop.simps [simp del]

definition read_content_without_length :: "(nat \<Rightarrow> nat) \<Rightarrow> nat \<Rightarrow> 'a receiver \<Rightarrow> 'a \<Rightarrow> string
    \<Rightarrow> read_content_result \<times> 'a \<times> string" where
  "read_content_without_length avail payload_max out st s = without_length_loop avail payload_max out 0 st s"

subsection \<open>Chunks\<close>

text \<open>The digits of a chunk size: \<open>None\<close> when the size does not fit.\<close>

fun chunk_size_loop :: "string \<Rightarrow> nat \<Rightarrow> (nat \<times> string) option" where
  "chunk_size_loop [] n = Some (n, [])"
| "chunk_size_loop (c # s) n =
     (case is_hex c of
        None \<Rightarrow> Some (n, c # s)
      | Some v \<Rightarrow> if npos div 16 < n then None else chunk_size_loop s (n * 16 + v))"

definition chunk_size :: "string \<Rightarrow> nat option" where
  "chunk_size line =
     (if line = [] \<or> is_hex (hd line) = None then None
      else (case chunk_size_loop line 0 of
          None \<Rightarrow> None
        | Some (n, rest) \<Rightarrow>
            (let p = dropWhile is_space_or_tab rest in
             if p \<noteq> [] \<and> hd p \<notin> {CHR 0x00, CHR '';'', CR, LF} then None else Some n)))"

text \<open>The result is \<open>None\<close> for an error, else the bytes, their offset in the chunk and its size.\<close>

definition read_payload :: "(nat \<Rightarrow> nat) \<Rightarrow> nat \<Rightarrow> chunked_decoder \<Rightarrow> string
    \<Rightarrow> (string \<times> nat \<times> nat) option \<times> chunked_decoder \<times> string" where
  "read_payload avail n dec s =
     (if dec_finished dec then (Some ([], 0, 0), dec, s)
      else (let (ready, dec1, s1) =
          (if chunk_remaining dec = 0 then
             (case getline s of
                None \<Rightarrow> (None, dec, s)
              | Some (line, s1) \<Rightarrow>
                  (case chunk_size line of
                     None \<Rightarrow> (None, dec, s1)
                   | Some chunk_len \<Rightarrow>
                       if chunk_len = 0 then (Some False, dec\<lparr>chunk_remaining := 0, dec_finished := True\<rparr>, s1)
                       else (Some True, dec\<lparr>chunk_remaining := chunk_len, last_chunk_total := chunk_len,
                           last_chunk_offset := 0\<rparr>, s1)))
           else (Some True, dec, s))
        in case ready of
            None \<Rightarrow> (None, dec1, s1)
          | Some False \<Rightarrow> (Some ([], 0, 0), dec1, s1)
          | Some True \<Rightarrow>
              (case strm_read avail (min (chunk_remaining dec1) n) s1 of (d, s2) \<Rightarrow>
                 if d = [] then (None, dec1, s2)
                 else (let dec2 = dec1\<lparr>last_chunk_offset := last_chunk_offset dec1 + length d,
                              chunk_remaining := chunk_remaining dec1 - length d\<rparr>;
                           got = Some (d, last_chunk_offset dec1, last_chunk_total dec1)
                       in if chunk_remaining dec2 = 0 then
                            (case getline s2 of
                               None \<Rightarrow> (None, dec2, s2)
                             | Some (line, s3) \<Rightarrow>
                                 if c_str line \<noteq> CRLF then (None, dec2, s3) else (got, dec2, s3))
                          else (got, dec2, s2)))))"

subsection \<open>Trailers\<close>

definition prohibited_trailers :: "string list" where
  "prohibited_trailers =
     [''transfer-encoding'', ''content-length'', ''host'', ''authorization'', ''www-authenticate'',
      ''proxy-authenticate'', ''proxy-authorization'', ''cookie'', ''set-cookie'', ''cache-control'',
      ''expect'', ''max-forwards'', ''pragma'', ''range'', ''te'', ''age'', ''expires'', ''date'',
      ''location'', ''retry-after'', ''vary'', ''warning'', ''content-encoding'', ''content-type'',
      ''content-range'', ''trailer'']"

definition declared_trailers :: "headers \<Rightarrow> string list" where
  "declared_trailers src =
     filter (\<lambda>key. key \<noteq> [] \<and> \<not> list_ex (\<lambda>p. case_equal p key) prohibited_trailers)
       (split CHR '','' (header_text src ''Trailer''))"

text \<open>The line read last, the rest, how many trailers were kept, and the collection.\<close>

function trailer_loop :: "string list \<Rightarrow> string \<Rightarrow> string \<Rightarrow> nat \<Rightarrow> headers \<Rightarrow> (headers \<times> string) option" where
  "trailer_loop declared line s kept dest =
     (if c_str line = CRLF then Some (dest, s)
      else if HEADER_MAX_LENGTH < length line then None
      else if HEADER_MAX_COUNT \<le> kept then None
      else (case parse_header (take (length line - 2) line) of
          None \<Rightarrow> None
        | Some (key, val) \<Rightarrow>
            (case getline s of
               None \<Rightarrow> None
             | Some (line', s') \<Rightarrow>
                 if list_ex (\<lambda>k. case_equal k key) declared
                 then trailer_loop declared line' s' (kept + 1) (emplace key val dest)
                 else trailer_loop declared line' s' kept dest)))"
  by pat_completeness auto
termination
  by (relation "measure (\<lambda>(declared, line, s, kept, dest). length s)")
     (auto simp: getline_def dest: getline_loop_shorter)

declare trailer_loop.simps [simp del]

definition parse_trailers_into :: "headers \<Rightarrow> headers \<Rightarrow> string \<Rightarrow> (headers \<times> string) option" where
  "parse_trailers_into dest src s =
     (case getline s of
        None \<Rightarrow> None
      | Some (line, s') \<Rightarrow> trailer_loop (declared_trailers src) line s' 0 dest)"

subsection \<open>A chunked body\<close>

text \<open>Every turn either ends the loop or takes bytes from the stream.\<close>

lemma read_payload_shorter:
  assumes "read_payload avail n dec s = (Some (d, off, chunk_len), dec', s')" "d \<noteq> []"
  shows "length s' < length s"
proof -
  have g: "getline t = Some (l, r) \<Longrightarrow> length r < length t" for t l r
    using getline_loop_shorter [of "[]" t l r] by (simp add: getline_def)
  have r: "strm_read avail k t = (e, u) \<Longrightarrow> length t = length e + length u" for k t e u
    using strm_read_split by fastforce
  show ?thesis
    using assms
    by (auto simp: read_payload_def Let_def split: if_splits option.splits prod.splits bool.splits
        dest!: g r [OF sym] dest: g r)
qed

function chunked_loop :: "(nat \<Rightarrow> nat) \<Rightarrow> headers \<Rightarrow> headers \<Rightarrow> nat \<Rightarrow> 'a receiver \<Rightarrow> nat \<Rightarrow> chunked_decoder \<Rightarrow> 'a
    \<Rightarrow> string \<Rightarrow> read_content_result \<times> 'a \<times> headers \<times> string" where
  "chunked_loop avail trailers hdrs payload_max out total_len dec st s =
     (case read_payload avail RECV_BUFSIZ dec s of
        (None, dec', s') \<Rightarrow> (RC_Error, st, trailers, s')
      | (Some (d, offset, chunk_len), dec', s') \<Rightarrow>
          if d = [] then
            (case parse_trailers_into trailers hdrs s' of
               None \<Rightarrow> (RC_Error, st, trailers, s')
             | Some (trailers', s'') \<Rightarrow> (RC_Success, st, trailers', s''))
          else if payload_max < total_len \<or> payload_max - total_len < length d then
            (RC_PayloadTooLarge, st, trailers, s')
          else (case out d offset chunk_len st of (accepted, st') \<Rightarrow>
            if \<not> accepted then (RC_Error, st', trailers, s')
            else chunked_loop avail trailers hdrs payload_max out (total_len + length d) dec' st' s'))"
  by pat_completeness auto
termination
  by (relation "measure (\<lambda>(avail, trailers, hdrs, payload_max, out, total_len, dec, st, s). length s)")
     (auto dest: read_payload_shorter [OF sym])

declare chunked_loop.simps [simp del]

definition read_content_chunked :: "(nat \<Rightarrow> nat) \<Rightarrow> headers \<Rightarrow> headers \<Rightarrow> nat \<Rightarrow> 'a receiver \<Rightarrow> 'a \<Rightarrow> string
    \<Rightarrow> read_content_result \<times> 'a \<times> headers \<times> string" where
  "read_content_chunked avail trailers hdrs payload_max out st s =
     chunked_loop avail trailers hdrs payload_max out 0 new_decoder st s"

subsection \<open>\<open>read_content\<close>\<close>

text \<open>The program is built without a compression library, so no coding has a decompressor:
  a body with a \<open>Content-Encoding\<close> is refused when it would have to be decompressed.  The
  result, the status when it is set, the state, the request and the stream.\<close>

definition read_content :: "(nat \<Rightarrow> nat) \<Rightarrow> request \<Rightarrow> nat \<Rightarrow> 'a receiver \<Rightarrow> bool \<Rightarrow> 'a \<Rightarrow> string
    \<Rightarrow> bool \<times> int option \<times> 'a \<times> request \<times> string" where
  "read_content avail req payload_max out decompress st s =
     (if decompress \<and> rq_header req ''Content-Encoding'' \<noteq> [] then (False, Some 415, st, req, s)
      else (let (result, st', req', s') =
          (if is_chunked_transfer_encoding (rq_headers req) then
             (case read_content_chunked avail (rq_trailers req) (rq_headers req) payload_max out st s of
                (res, st', trailers, s') \<Rightarrow> (Some res, st', req\<lparr>rq_trailers := trailers\<rparr>, s'))
           else if \<not> rq_has_header req ''Content-Length'' then
             (case read_content_without_length avail payload_max out st s of
                (res, st', s') \<Rightarrow> (Some res, st', req, s'))
           else (case get_header_value_u64 (rq_headers req) ''Content-Length'' npos 0 of
               (len, invalid) \<Rightarrow>
                 if invalid then (None, st, req, s)
                 else if 0 < len then
                   (case read_content_with_length avail payload_max len out st s of
                      (res, st', s') \<Rightarrow> (Some res, st', req, s'))
                 else (Some RC_Success, st, req, s)))
        in if result = Some RC_Success then (True, None, st', req', s')
           else (False, Some (if result = Some RC_PayloadTooLarge then 413 else 400), st', req', s')))"

subsection \<open>Writing chunks\<close>

definition chunk_text :: "string \<Rightarrow> string" where
  "chunk_text payload = (if payload = [] then [] else from_i_to_hex (length payload) @ CRLF @ payload @ CRLF)"

definition last_chunk :: "headers \<Rightarrow> string" where
  "last_chunk trailer = ''0'' @ CRLF
     @ concat (map header_line (filter (\<lambda>x. is_field_valid (fst x) (snd x)) trailer)) @ CRLF"

text \<open>The bytes written and whether more data is to come; the writes to the socket succeed.\<close>

fun sink_step :: "sink_call \<Rightarrow> string \<times> bool \<Rightarrow> string \<times> bool" where
  "sink_step (Sink_write d) (written, more_data) = (written @ chunk_text d, d \<noteq> [])"
| "sink_step Sink_done (written, more_data) = (written @ last_chunk [], False)"
| "sink_step (Sink_done_with_trailer t) (written, more_data) = (written @ last_chunk t, False)"

text \<open>One list of calls for each time the provider is asked; when they run out the server is
  shutting down.\<close>

fun write_content_chunked :: "sink_call list list \<Rightarrow> string \<times> bool \<Rightarrow> bool \<times> string" where
  "write_content_chunked [] (written, more_data) = (\<not> more_data, written)"
| "write_content_chunked (calls # rest) (written, more_data) =
     (if \<not> more_data then (True, written)
      else write_content_chunked rest (fold sink_step calls (written, more_data)))"

subsection \<open>Collecting a body\<close>

definition MAX_STRING :: nat where "MAX_STRING = 9223372036854775807"

text \<open>The receiver of \<open>Server::read_content\<close> for a body that is not a form.\<close>

definition append_body :: "nat \<Rightarrow> string receiver" where
  "append_body payload_max d offset chunk_len body =
     (if MAX_STRING \<le> length body \<or> MAX_STRING - length body < length d then (False, body)
      else if 0 < payload_max \<and> (payload_max \<le> length body \<or> payload_max - length body < length d) then (False, body)
      else (True, body @ d))"

lemma append_body_fits:
  "d \<noteq> [] \<Longrightarrow> length body + length d \<le> payload_max \<Longrightarrow> payload_max < MAX_STRING \<Longrightarrow>
     append_body payload_max d offset n body = (True, body @ d)"
  by (cases d) (auto simp: append_body_def)

subsection \<open>Chunk headers\<close>

lemma hex_loop_ge: "hex_loop s cnt acc = Some v \<Longrightarrow> acc \<le> v"
proof (induction s cnt acc rule: hex_loop.induct)
  case (3 c s cnt val)
  then show ?case by (fastforce split: option.splits)
qed auto

lemma chunk_size_loop_hex:
  "hex_loop t (length t) acc = Some v \<Longrightarrow> v \<le> npos \<Longrightarrow> chunk_size_loop (t @ rest) acc = chunk_size_loop rest v"
proof (induction t arbitrary: acc)
  case (Cons c t)
  then obtain d where d: "is_hex c = Some d" "hex_loop t (length t) (acc * 16 + d) = Some v"
    by (auto split: option.splits)
  have "acc * 16 + d \<le> npos" using hex_loop_ge [OF d(2)] Cons.prems(2) by simp
  then have "\<not> npos div 16 < acc" by simp
  then show ?case using Cons d by simp
qed simp

lemma i_to_hex_chars: "c \<in> set (from_i_to_hex n) \<Longrightarrow> is_hex c \<noteq> None"
proof (induction n rule: from_i_to_hex.induct)
  case (1 n)
  then show ?case
    using is_hex_charset [of "n mod 16"]
    by (subst (asm) (2) from_i_to_hex.simps) (auto split: if_splits)
qed

lemma i_to_hex_length: "n < 16 ^ Suc k \<Longrightarrow> length (from_i_to_hex n) \<le> Suc k"
proof (induction k arbitrary: n)
  case 0
  then show ?case by (subst from_i_to_hex.simps) (simp add: div_eq_0_iff)
next
  case (Suc k)
  then have "n div 16 < 16 ^ Suc k" by (simp add: less_mult_imp_div_less mult.commute)
  then show ?case using Suc.IH [of "n div 16"] by (subst from_i_to_hex.simps) simp
qed

lemma is_hex_CR_LF: "is_hex CR = None" "is_hex LF = None"
  by (simp_all add: is_hex_def is_ascii_digit_def byte_def CR_def LF_def)

lemma chunk_size_hex:
  assumes "n \<le> npos"
  shows "chunk_size (from_i_to_hex n @ CRLF) = Some n"
proof -
  have "hd (from_i_to_hex n) \<in> set (from_i_to_hex n)" by simp
  then have "is_hex (hd (from_i_to_hex n)) \<noteq> None" by (rule i_to_hex_chars)
  moreover have "chunk_size_loop (from_i_to_hex n @ CRLF) 0 = Some (n, CRLF)"
    using chunk_size_loop_hex [OF hex_loop_i_to_hex [of n] assms, of CRLF] is_hex_CR_LF by (simp add: CRLF_split)
  ultimately show ?thesis by (auto simp: chunk_size_def CRLF_split is_space_or_tab_def CR_def)
qed

lemma getline_hex:
  assumes "n \<le> npos"
  shows "getline (from_i_to_hex n @ CRLF @ rest) = Some (from_i_to_hex n @ CRLF, rest)"
proof (rule getline_crlf)
  show "LF \<notin> set (from_i_to_hex n)" using i_to_hex_chars is_hex_CR_LF by blast
  have "length (from_i_to_hex n) \<le> Suc 15"
    using assms by (intro i_to_hex_length) (simp add: npos_def)
  then show "length (from_i_to_hex n) < MAX_LINE_LENGTH - 1" by (simp add: MAX_LINE_LENGTH_def)
qed

lemma getline_empty: "getline (CRLF @ rest) = Some (CRLF, rest)"
  using getline_crlf [of "[]" rest] by (simp add: MAX_LINE_LENGTH_def)

lemma c_str_crlf: "c_str CRLF = CRLF"
  by (simp add: c_str_def CRLF_split CR_def LF_def)

subsection \<open>Chunks come back\<close>

definition ready :: "nat \<Rightarrow> nat \<Rightarrow> nat \<Rightarrow> chunked_decoder" where
  "ready rest off n = \<lparr>chunk_remaining = rest, dec_finished = False, last_chunk_total = n, last_chunk_offset = off\<rparr>"

lemma read_payload_piece:
  assumes "p \<noteq> []" "strm_read avail (min (length p) RECV_BUFSIZ) (p @ CRLF @ rest) = (d, s')"
  shows "\<exists>q. p = d @ q \<and> d \<noteq> [] \<and> read_payload avail RECV_BUFSIZ (ready (length p) off n) (p @ CRLF @ rest)
    = (Some (d, off, n), ready (length q) (off + length d) n, if q = [] then rest else q @ CRLF @ rest)"
proof -
  have "d \<noteq> []" "length d \<le> length p" and a: "p @ CRLF @ rest = d @ s'"
    using strm_read_split [OF assms(2)] assms(1) by (auto simp: RECV_BUFSIZ_def)
  then obtain q where q: "p = d @ q" "s' = q @ CRLF @ rest"
    by (auto simp: append_eq_append_conv2)
  show ?thesis
    using assms q \<open>d \<noteq> []\<close> getline_empty [of rest] c_str_crlf
    by (cases "q = []") (auto simp: read_payload_def ready_def Let_def)
qed

lemma chunk_pieces:
  "p \<noteq> [] \<Longrightarrow> length body + length p \<le> payload_max \<Longrightarrow> payload_max < MAX_STRING \<Longrightarrow>
     chunked_loop avail tr h payload_max (append_body payload_max) (length body) (ready (length p) off n) body (p @ CRLF @ rest)
     = chunked_loop avail tr h payload_max (append_body payload_max) (length (body @ p)) (ready 0 (off + length p) n) (body @ p) rest"
proof (induction "length p" arbitrary: p body off rule: less_induct)
  case less
  obtain d s' where d: "strm_read avail (min (length p) RECV_BUFSIZ) (p @ CRLF @ rest) = (d, s')" by fastforce
  obtain q where q: "p = d @ q" "d \<noteq> []"
    "read_payload avail RECV_BUFSIZ (ready (length p) off n) (p @ CRLF @ rest)
      = (Some (d, off, n), ready (length q) (off + length d) n, if q = [] then rest else q @ CRLF @ rest)"
    using read_payload_piece [OF less.prems(1) d] by blast
  have e: "chunked_loop avail tr h payload_max (append_body payload_max) (length body) (ready (length p) off n) body (p @ CRLF @ rest)
    = chunked_loop avail tr h payload_max (append_body payload_max) (length (body @ d))
        (ready (length q) (off + length d) n) (body @ d) (if q = [] then rest else q @ CRLF @ rest)"
  proof -
    have f: "length body + length d \<le> payload_max" using less.prems(2) q(1) by simp
    then have "\<not> (payload_max < length body \<or> payload_max - length body < length d)" by auto
    then show ?thesis
      using q(2,3) append_body_fits [OF q(2) f less.prems(3), of off n]
      by (subst chunked_loop.simps) simp
  qed
  show ?case
  proof (cases "q = []")
    case True
    then show ?thesis using e q by simp
  next
    case False
    have "chunked_loop avail tr h payload_max (append_body payload_max) (length (body @ d))
        (ready (length q) (off + length d) n) (body @ d) (q @ CRLF @ rest)
      = chunked_loop avail tr h payload_max (append_body payload_max) (length ((body @ d) @ q))
        (ready 0 (off + length d + length q) n) ((body @ d) @ q) rest"
      using less.prems q(1,2) False by (intro less.hyps) auto
    then show ?thesis using e q False by (simp add: add.assoc)
  qed
qed

text \<open>At the start of a chunk only the two flags of the decoder matter.\<close>

lemma chunk_header:
  assumes "p \<noteq> []" "length p \<le> npos"
  shows "read_payload avail k (ready 0 off n) (chunk_text p @ rest) =
    read_payload avail k (ready (length p) 0 (length p)) (p @ CRLF @ rest)"
  using assms getline_hex [OF assms(2), of "p @ CRLF @ rest"] chunk_size_hex [OF assms(2)]
  by (simp add: read_payload_def ready_def chunk_text_def Let_def)

lemma chunk_loop_chunk:
  assumes "length body + length p \<le> payload_max" "payload_max < MAX_STRING"
  shows "\<exists>off' n'. chunked_loop avail tr h payload_max (append_body payload_max) (length body) (ready 0 off n) body (chunk_text p @ rest)
     = chunked_loop avail tr h payload_max (append_body payload_max) (length (body @ p)) (ready 0 off' n') (body @ p) rest"
proof (cases "p = []")
  case True
  then show ?thesis by (auto simp: chunk_text_def)
next
  case False
  have "length p \<le> npos" using assms by (simp add: MAX_STRING_def npos_def)
  note hd = chunk_header [OF False this, of avail RECV_BUFSIZ off n rest]
  have "chunked_loop avail tr h payload_max (append_body payload_max) (length body) (ready 0 off n) body (chunk_text p @ rest)
      = chunked_loop avail tr h payload_max (append_body payload_max) (length body) (ready (length p) 0 (length p)) body (p @ CRLF @ rest)"
    by (subst (1 2) chunked_loop.simps) (simp only: hd)
  then show ?thesis using chunk_pieces [OF False assms] by auto
qed

lemma chunk_loop_chunks:
  "length body + length (concat ps) \<le> payload_max \<Longrightarrow> payload_max < MAX_STRING \<Longrightarrow>
     \<exists>off' n'. chunked_loop avail tr h payload_max (append_body payload_max) (length body) (ready 0 off n) body
        (concat (map chunk_text ps) @ rest)
     = chunked_loop avail tr h payload_max (append_body payload_max) (length (body @ concat ps)) (ready 0 off' n')
        (body @ concat ps) rest"
proof (induction ps arbitrary: body off n)
  case (Cons p ps)
  obtain off1 n1 where 1: "chunked_loop avail tr h payload_max (append_body payload_max) (length body) (ready 0 off n) body
        (chunk_text p @ concat (map chunk_text ps) @ rest)
     = chunked_loop avail tr h payload_max (append_body payload_max) (length (body @ p)) (ready 0 off1 n1) (body @ p)
        (concat (map chunk_text ps) @ rest)"
    using chunk_loop_chunk [of body p payload_max avail tr h off n "concat (map chunk_text ps) @ rest"] Cons.prems
    by auto
  have "length (body @ p) + length (concat ps) \<le> payload_max" using Cons.prems by simp
  from Cons.IH [OF this Cons.prems(2), of off1 n1] show ?case using 1 by simp
qed auto

lemma chunk_loop_end:
  "chunked_loop avail tr h payload_max out m (ready 0 off n) st (last_chunk [] @ rest) = (RC_Success, st, tr, rest)"
proof -
  have g: "getline (''0'' @ CRLF @ CRLF @ rest) = Some (''0'' @ CRLF, CRLF @ rest)"
    by (rule getline_crlf) (simp_all add: LF_def MAX_LINE_LENGTH_def)
  have c: "chunk_size (''0'' @ CRLF) = Some 0"
    by (simp add: chunk_size_def is_hex_def is_ascii_digit_def byte_def CRLF_split CR_def LF_def npos_def is_space_or_tab_def)
  have "read_payload avail RECV_BUFSIZ (ready 0 off n) (last_chunk [] @ rest)
      = (Some ([], 0, 0), (ready 0 off n)\<lparr>dec_finished := True\<rparr>, CRLF @ rest)"
    using g c by (simp add: read_payload_def ready_def last_chunk_def Let_def)
  moreover have "parse_trailers_into tr h (CRLF @ rest) = Some (tr, rest)"
    by (simp add: parse_trailers_into_def getline_empty trailer_loop.simps c_str_crlf)
  ultimately show ?thesis by (subst chunked_loop.simps) simp
qed

lemma chunked_reads_back:
  assumes "length (concat ps) \<le> payload_max" "payload_max < MAX_STRING"
  shows "read_content_chunked avail tr h payload_max (append_body payload_max) []
      (concat (map chunk_text ps) @ last_chunk [] @ rest) = (RC_Success, concat ps, tr, rest)"
proof -
  have z: "length ([] :: string) = 0" by simp
  show ?thesis
    using chunk_loop_chunks [of "[]" ps payload_max avail tr h 0 0 "last_chunk [] @ rest"] assms
    unfolding read_content_chunked_def new_decoder_def ready_def [symmetric] z append_Nil
    by (auto simp: chunk_loop_end)
qed

lemma sink_writes: "fold sink_step (map Sink_write ds @ [Sink_done]) (w, b) = (w @ concat (map chunk_text ds) @ last_chunk [], False)"
  by (induction ds arbitrary: w b) auto



subsection \<open>Exactly the announced bytes\<close>

definition at_byte :: "nat \<Rightarrow> nat \<Rightarrow> nat \<Rightarrow> body_reader" where
  "at_byte len payload_max r =
     \<lparr>has_content_length = True, br_content_length = len, br_payload_max_length = payload_max,
      bytes_read = r, br_eof = (0 < r \<and> len \<le> r), last_error = E_Success\<rparr>"

lemma body_read_piece:
  assumes "r < len" "s \<noteq> []"
  shows "\<exists>d s'. s = d @ s' \<and> d \<noteq> [] \<and> length d \<le> len - r
    \<and> body_read avail (min (len - r) RECV_BUFSIZ) (at_byte len payload_max r) s =
      (if 0 < payload_max \<and> payload_max < r + length d
       then ([], (at_byte len payload_max (r + length d))\<lparr>last_error := E_ExceedMaxPayloadSize, br_eof := True\<rparr>, s')
       else (d, at_byte len payload_max (r + length d), s'))"
proof -
  obtain d s' where d: "strm_read avail (min (min (len - r) RECV_BUFSIZ) (len - r)) s = (d, s')" by fastforce
  have "s = d @ s'" "length d \<le> len - r" "d \<noteq> []"
    using strm_read_split [OF d] assms by (auto simp: RECV_BUFSIZ_def)
  then show ?thesis
    using d assms(1) by (intro exI [of _ d] exI [of _ s']) (auto simp: body_read_def at_byte_def Let_def)
qed

text \<open>A receiver that keeps what it is given, wherever in its state, ends with the announced bytes.\<close>

lemma length_loop_collects:
  assumes "\<And>d r body. d \<noteq> [] \<Longrightarrow> length body + length d \<le> payload_max \<Longrightarrow> out d r len (g body) = (True, g (body @ d))"
  shows "length body + (len - r) \<le> payload_max \<Longrightarrow> r \<le> length body \<Longrightarrow> len - r \<le> length s \<Longrightarrow>
     length_loop avail len out r (at_byte len payload_max r) (g body) s
     = (RC_Success, g (body @ take (len - r) s), drop (len - r) s)"
proof (induction "len - r" arbitrary: r body s rule: less_induct)
  case less
  show ?case
  proof (cases "r < len")
    case False
    then show ?thesis by (subst length_loop.simps) simp
  next
    case True
    then have "s \<noteq> []" using less.prems(3) by auto
    then obtain d s' where d: "s = d @ s'" "d \<noteq> []" "length d \<le> len - r"
      "body_read avail (min (len - r) RECV_BUFSIZ) (at_byte len payload_max r) s =
        (if 0 < payload_max \<and> payload_max < r + length d
         then ([], (at_byte len payload_max (r + length d))\<lparr>last_error := E_ExceedMaxPayloadSize, br_eof := True\<rparr>, s')
         else (d, at_byte len payload_max (r + length d), s'))"
      using body_read_piece [OF True, of s avail payload_max] by blast
    have "0 < length d" using d(2) by simp
    then have l: "len - (r + length d) < len - r" using True by arith
    have f: "\<not> payload_max < r + length d" "length body + length d \<le> payload_max"
      using less.prems d(3) by auto
    have "length_loop avail len out r (at_byte len payload_max r) (g body) s
        = length_loop avail len out (r + length d) (at_byte len payload_max (r + length d)) (g (body @ d)) s'"
      using True d(2,4) f assms [OF d(2) f(2)]
      by (subst length_loop.simps) simp
    also have "\<dots> = (RC_Success, g ((body @ d) @ take (len - (r + length d)) s'), drop (len - (r + length d)) s')"
      using less.prems d True by (intro less.hyps [OF l]) (auto simp: d(1))
    finally show ?thesis using d by simp
  qed
qed

lemma length_loop_fits:
  assumes "length body + (len - r) \<le> payload_max" "payload_max < MAX_STRING" "r \<le> length body" "len - r \<le> length s"
  shows "length_loop avail len (append_body payload_max) r (at_byte len payload_max r) body s
    = (RC_Success, body @ take (len - r) s, drop (len - r) s)"
  using length_loop_collects [where g = "\<lambda>b. b", of payload_max "append_body payload_max"] append_body_fits assms by blast

text \<open>A body with a length, whatever receives it.\<close>

lemma read_content_collects:
  assumes "\<And>d r body. d \<noteq> [] \<Longrightarrow> length body + length d \<le> payload_max \<Longrightarrow> out d r len (g body) = (True, g (body @ d))"
    "\<not> is_chunked_transfer_encoding (rq_headers req)" "rq_header req ''Content-Encoding'' = []"
    "rq_has_header req ''Content-Length''" "get_header_value_u64 (rq_headers req) ''Content-Length'' npos 0 = (len, False)"
    "len \<le> payload_max" "len \<le> length s"
  shows "read_content avail req payload_max out True (g []) s = (True, None, g (take len s), req, drop len s)"
proof -
  have "read_content_with_length avail payload_max len out (g []) s = (RC_Success, g (take len s), drop len s)"
    using length_loop_collects [where out = out and len = len and payload_max = payload_max and g = g, of "[]" 0 s avail] assms(1,6,7)
    by (simp add: read_content_with_length_def at_byte_def)
  then show ?thesis using assms(2-5) by (simp add: read_content_def)
qed

lemma length_loop_exceeds:
  "length body = r \<Longrightarrow> r \<le> payload_max \<Longrightarrow> 0 < payload_max \<Longrightarrow> payload_max < len \<Longrightarrow> payload_max < MAX_STRING \<Longrightarrow>
     len - r \<le> length s \<Longrightarrow>
     \<exists>b s'. length_loop avail len (append_body payload_max) r (at_byte len payload_max r) body s
       = (RC_PayloadTooLarge, b, s') \<and> length b \<le> payload_max"
proof (induction "len - r" arbitrary: r body s rule: less_induct)
  case less
  have True: "r < len" and "s \<noteq> []" using less.prems by auto
  then obtain d s' where d: "s = d @ s'" "d \<noteq> []" "length d \<le> len - r"
    "body_read avail (min (len - r) RECV_BUFSIZ) (at_byte len payload_max r) s =
      (if 0 < payload_max \<and> payload_max < r + length d
       then ([], (at_byte len payload_max (r + length d))\<lparr>last_error := E_ExceedMaxPayloadSize, br_eof := True\<rparr>, s')
       else (d, at_byte len payload_max (r + length d), s'))"
    using body_read_piece [OF True, of s avail payload_max] by blast
  show ?case
  proof (cases "payload_max < r + length d")
    case over: True
    then have "length_loop avail len (append_body payload_max) r (at_byte len payload_max r) body s
        = (RC_PayloadTooLarge, body, s')"
      using True d(4) less.prems(3) by (subst length_loop.simps) simp
    then show ?thesis using less.prems by auto
  next
    case False
    then have f: "length body + length d \<le> payload_max" using less.prems(1) by simp
    have "0 < length d" using d(2) by simp
    then have l: "len - (r + length d) < len - r" using True by arith
    have "length_loop avail len (append_body payload_max) r (at_byte len payload_max r) body s
        = length_loop avail len (append_body payload_max) (r + length d) (at_byte len payload_max (r + length d)) (body @ d) s'"
      using True d(2,4) False append_body_fits [OF d(2) f less.prems(5), of r len]
      by (subst length_loop.simps) simp
    moreover have "\<exists>b s''. length_loop avail len (append_body payload_max) (r + length d)
        (at_byte len payload_max (r + length d)) (body @ d) s' = (RC_PayloadTooLarge, b, s'') \<and> length b \<le> payload_max"
      using less.prems d True False by (intro less.hyps [OF l]) auto
    ultimately show ?thesis by simp
  qed
qed

text \<open>A body with a length is read byte for byte and not one byte further, however it is
  cut into packets; one longer than the limit is refused with 413 and never more than the
  limit is stored.\<close>

theorem length_body_exact:
  assumes "\<not> is_chunked_transfer_encoding (rq_headers req)" "rq_header req ''Content-Encoding'' = []"
    "equal_range (rq_headers req) ''Content-Length'' = [v]" "is_numeric v" "read_digits 0 v = len"
    "0 < len" "len \<le> length s" "0 < payload_max" "payload_max < MAX_STRING" "len \<le> npos"
  shows "if len \<le> payload_max
    then read_content avail req payload_max (append_body payload_max) True [] s
      = (True, None, take len s, req, drop len s)
    else \<exists>b s'. read_content avail req payload_max (append_body payload_max) True [] s
      = (False, Some 413, b, req, s') \<and> length b \<le> payload_max"
proof -
  have k: "''Content-Length'' \<in> set known_names" by (simp add: known_names_def)
  have h: "rq_has_header req ''Content-Length''"
    using assms(3) known_header(2) [OF k, of "rq_headers req"] by (simp add: rq_has_header_def)
  have n: "get_header_value_u64 (rq_headers req) ''Content-Length'' npos 0 = (len, False)"
    using header_number [of 0 "rq_headers req" "''Content-Length''" npos] assms(3,4,5,10) by simp
  have e: "read_content_with_length avail payload_max len (append_body payload_max) [] s
      = length_loop avail len (append_body payload_max) 0 (at_byte len payload_max 0) [] s"
    by (simp add: read_content_with_length_def at_byte_def)
  show ?thesis
  proof (cases "len \<le> payload_max")
    case True
    then show ?thesis
      using read_content_collects [where g = "\<lambda>b. b" and out = "append_body payload_max"] append_body_fits assms h n by simp
  next
    case False
    then obtain b s' where "length_loop avail len (append_body payload_max) 0 (at_byte len payload_max 0) [] s
        = (RC_PayloadTooLarge, b, s')" "length b \<le> payload_max"
      using length_loop_exceeds [of "[]" 0 payload_max len s avail] assms by auto
    then show ?thesis using False assms h n e by (simp add: read_content_def)
  qed
qed

theorem length_body_exact_witness:
  "read_content (\<lambda>_. 2) (new_request\<lparr>rq_headers := [(''Content-Length'', ''3'')]\<rparr>) 10 (append_body 10) True [] ''abcGET''
    = (True, None, ''abc'', new_request\<lparr>rq_headers := [(''Content-Length'', ''3'')]\<rparr>, ''GET'')"
proof -
  let ?q = "new_request\<lparr>rq_headers := [(''Content-Length'', ''3'')]\<rparr>"
  have "rq_header ?q ''Content-Encoding'' = []"
    unfolding rq_header_def by (rule known_lookups) (simp_all add: known_names_def equal_range_def case_equal_def)
  moreover have "\<not> is_chunked_transfer_encoding (rq_headers ?q)"
    "equal_range (rq_headers ?q) ''Content-Length'' = [''3'']"
    by (simp_all add: is_chunked_transfer_encoding_def equal_range_def case_equal_def)
  ultimately show ?thesis
    using length_body_exact [of ?q "''3''" 3 "''abcGET''" 10 "\<lambda>_. 2"]
    by (simp add: is_numeric_def is_ascii_digit_def byte_def digit_val_def MAX_STRING_def npos_def)
qed

end
