(* ===== verification/Http_Response.thy ===== *)
theory Http_Response
  imports Http_Files Http_Form Http_Ranges Http_Body
begin

text \<open>
  The server object of \<open>include/httplib.h\<close> and the way it writes a response:
  \<open>apply_ranges\<close>, \<open>write_response_core\<close>, \<open>write_content_with_provider\<close>.
\<close>

subsection \<open>The server object\<close>

text \<open>A handler returns the response it leaves behind and whether it ended with an exception;
  a hook returns whether it handled the request.  The loggers are left out, and so are the
  sessions of WebSocket handlers, which begin where this server hands the connection over.\<close>

type_synonym handler = "request \<Rightarrow> response \<Rightarrow> bool \<times> response"
type_synonym hook = "request \<Rightarrow> response \<Rightarrow> bool \<times> response"
type_synonym handlers = "(matcher \<times> handler) list"

text \<open>A handler with a \<open>ContentReader\<close> reads the body itself, as often as it likes.  It stops, with
  an exception or not, or calls the reader: with a receiver, or with a receiver for the headers
  of form entries and one for their contents (\<open>True\<close>).  A receiver answers from all it has been
  given so far.  The handler goes on with what the reader returned, what the receivers were given,
  and the request and response as the reader left them.\<close>

datatype content_event = Entry_Header form_data | Content_Piece string

datatype content_step =
    Finish bool response
  | Read_Content response bool "content_event list \<Rightarrow> bool"
      "bool \<times> content_event list \<times> request \<times> response \<Rightarrow> content_step"

type_synonym content_handlers = "(matcher \<times> (request \<Rightarrow> response \<Rightarrow> content_step)) list"

record http_server =
  sv_files :: file_config
  sv_get_handlers :: handlers
  sv_post_handlers :: handlers
  sv_put_handlers :: handlers
  sv_patch_handlers :: handlers
  sv_delete_handlers :: handlers
  sv_options_handlers :: handlers
  sv_post_content_handlers :: content_handlers
  sv_put_content_handlers :: content_handlers
  sv_patch_content_handlers :: content_handlers
  sv_delete_content_handlers :: content_handlers
  sv_websocket_handlers :: "(matcher \<times> (string list \<Rightarrow> string) option) list"
  sv_error_handler :: "hook option"
  sv_exception_handler :: "(request \<Rightarrow> response \<Rightarrow> response) option"
  sv_pre_routing_handler :: "hook option"
  sv_post_routing_handler :: "(request \<Rightarrow> response \<Rightarrow> response) option"
  sv_pre_request_handler :: "hook option"
  sv_expect_100_continue_handler :: "(request \<Rightarrow> response \<Rightarrow> int \<times> response) option"
  sv_keep_alive_max_count :: nat
  sv_keep_alive_timeout_sec :: int
  sv_payload_max_length :: nat
  sv_trusted_proxies :: "string list"
  sv_default_headers :: headers

definition new_http_server :: http_server where
  "new_http_server = \<lparr>sv_files = \<lparr>base_dirs = [], mime_map = [], default_mime = ''application/octet-stream'',
       file_request_handler = None\<rparr>,
     sv_get_handlers = [], sv_post_handlers = [], sv_put_handlers = [], sv_patch_handlers = [],
     sv_delete_handlers = [], sv_options_handlers = [],
     sv_post_content_handlers = [], sv_put_content_handlers = [], sv_patch_content_handlers = [],
     sv_delete_content_handlers = [], sv_websocket_handlers = [],
     sv_error_handler = None, sv_exception_handler = None, sv_pre_routing_handler = None,
     sv_post_routing_handler = None, sv_pre_request_handler = None, sv_expect_100_continue_handler = None,
     sv_keep_alive_max_count = 100, sv_keep_alive_timeout_sec = 5,
     sv_payload_max_length = PAYLOAD_MAX_LENGTH, sv_trusted_proxies = [], sv_default_headers = []\<rparr>"

definition server_get :: "string \<Rightarrow> handler \<Rightarrow> http_server \<Rightarrow> http_server res" where
  "server_get pattern h sv =
     rbind (make_matcher pattern) (\<lambda>m. Inr (sv\<lparr>sv_get_handlers := sv_get_handlers sv @ [(m, h)]\<rparr>))"

subsection \<open>Writing to the connection\<close>

text \<open>What is still to be read, what has been written, and what the next writes return:
  \<open>None\<close> is an error, \<open>Some n\<close> accepts at most \<open>n\<close> bytes; when the list is used up, writes
  accept everything.\<close>

record conn =
  conn_in :: string
  conn_out :: string
  conn_writes :: "nat option list"

definition conn_write :: "string \<Rightarrow> conn \<Rightarrow> nat option \<times> conn" where
  "conn_write d c =
     (case conn_writes c of
        [] \<Rightarrow> (Some (length d), c\<lparr>conn_out := conn_out c @ d\<rparr>)
      | None # ws \<Rightarrow> (None, c\<lparr>conn_writes := ws\<rparr>)
      | Some n # ws \<Rightarrow> (Some (min n (length d)), c\<lparr>conn_writes := ws, conn_out := conn_out c @ take n d\<rparr>))"

lemma conn_write_progress:
  "conn_write d c = (Some n, c') \<Longrightarrow> d \<noteq> [] \<Longrightarrow>
     length (drop n d) + length (conn_writes c') < length d + length (conn_writes c)"
  by (auto simp: conn_write_def split: list.splits option.splits)

function write_data :: "string \<Rightarrow> conn \<Rightarrow> bool \<times> conn" where
  "write_data d c =
     (if d = [] then (True, c)
      else (case conn_write d c of
          (None, c1) \<Rightarrow> (False, c1)
        | (Some n, c1) \<Rightarrow> write_data (drop n d) c1))"
  by pat_completeness auto
termination
  by (relation "measure (\<lambda>(d, c). length d + length (conn_writes c))")
     (use conn_write_progress [OF sym] in \<open>auto simp del: length_drop\<close>)

declare write_data.simps [simp del]

definition response_line :: "int \<Rightarrow> string" where
  "response_line status = ''HTTP/1.1 '' @ show_int status @ '' '' @ status_message (nat status) @ CRLF"

subsection \<open>Content providers\<close>

record sink_state =
  sk_offset :: nat
  sk_more :: bool
  sk_ok :: bool
  sk_conn :: conn

definition sink_send :: "string \<Rightarrow> sink_state \<Rightarrow> sink_state" where
  "sink_send d st = (case write_data d (sk_conn st) of (b, c) \<Rightarrow> st\<lparr>sk_ok := sk_ok st \<and> b, sk_conn := c\<rparr>)"

text \<open>The sinks of \<open>write_content\<close>, \<open>write_content_without_length\<close> and \<open>write_content_chunked\<close>;
  a call that a sink does not offer ends the program.\<close>

fun length_sink :: "sink_call \<Rightarrow> sink_state \<Rightarrow> sink_state res" where
  "length_sink (Sink_write d) st =
     (if sk_ok st then
        (let st1 = sink_send d st in
         Inr (if sk_ok st1 then st1\<lparr>sk_offset := sk_offset st + length d\<rparr> else st1))
      else Inr st)"
| "length_sink _ st = Inl Undefined_Behaviour"

fun plain_sink :: "sink_call \<Rightarrow> sink_state \<Rightarrow> sink_state res" where
  "plain_sink (Sink_write d) st =
     Inr (if sk_ok st then sink_send d (st\<lparr>sk_offset := sk_offset st + length d\<rparr>) else st)"
| "plain_sink Sink_done st = Inr (st\<lparr>sk_more := False\<rparr>)"
| "plain_sink (Sink_done_with_trailer t) st = Inl Undefined_Behaviour"

definition chunked_done :: "headers \<Rightarrow> sink_state \<Rightarrow> sink_state" where
  "chunked_done trailer st =
     (if \<not> sk_ok st then st
      else sink_send CRLF
        (fold (\<lambda>kv. if is_field_valid (fst kv) (snd kv) then sink_send (header_line kv) else id) trailer
          (sink_send (''0'' @ CRLF) (st\<lparr>sk_more := False\<rparr>))))"

fun chunked_sink :: "sink_call \<Rightarrow> sink_state \<Rightarrow> sink_state res" where
  "chunked_sink (Sink_write d) st =
     Inr (if sk_ok st then sink_send (chunk_text d) (st\<lparr>sk_more := d \<noteq> [], sk_offset := sk_offset st + length d\<rparr>)
          else st)"
| "chunked_sink Sink_done st = Inr (chunked_done [] st)"
| "chunked_sink (Sink_done_with_trailer t) st = Inr (chunked_done t st)"

fun sink_calls :: "(sink_call \<Rightarrow> sink_state \<Rightarrow> sink_state res) \<Rightarrow> sink_call list \<Rightarrow> sink_state \<Rightarrow> sink_state res" where
  "sink_calls sink [] st = Inr st"
| "sink_calls sink (c # cs) st = rbind (sink c st) (sink_calls sink cs)"

text \<open>The loops around a provider: one list of calls for each time it is asked; when they run
  out the server is shutting down.\<close>

fun provider_loop :: "(sink_call \<Rightarrow> sink_state \<Rightarrow> sink_state res) \<Rightarrow> (sink_state \<Rightarrow> bool) \<Rightarrow> sink_call list list
    \<Rightarrow> sink_state \<Rightarrow> (bool \<times> conn) res" where
  "provider_loop sink go_on [] st = Inr (\<not> go_on st, sk_conn st)"
| "provider_loop sink go_on (calls # rest) st =
     (if \<not> go_on st then Inr (True, sk_conn st)
      else rbind (sink_calls sink calls st) (\<lambda>st1.
        if \<not> sk_ok st1 then Inr (False, sk_conn st1) else provider_loop sink go_on rest st1))"

text \<open>Bytes beyond the end of a file in memory are not there to be read.\<close>

fun provider_calls :: "content_provider \<Rightarrow> nat \<Rightarrow> nat \<Rightarrow> sink_call list list res" where
  "provider_calls (Bytes_Provider b) offset n =
     (if offset + n \<le> length b then Inr [[Sink_write (take n (drop offset b))]] else Inl Undefined_Behaviour)"
| "provider_calls (Call_Provider calls) offset n = Inr calls"

definition new_sink :: "nat \<Rightarrow> conn \<Rightarrow> sink_state" where
  "new_sink offset c = \<lparr>sk_offset = offset, sk_more = True, sk_ok = True, sk_conn = c\<rparr>"

definition write_content :: "content_provider \<Rightarrow> nat \<Rightarrow> nat \<Rightarrow> conn \<Rightarrow> (bool \<times> conn) res" where
  "write_content provider offset n c =
     rbind (provider_calls provider offset n) (\<lambda>calls.
       provider_loop length_sink (\<lambda>st. sk_offset st < offset + n) calls (new_sink offset c))"

definition write_content_without_length :: "content_provider \<Rightarrow> conn \<Rightarrow> (bool \<times> conn) res" where
  "write_content_without_length provider c =
     rbind (provider_calls provider 0 0) (\<lambda>calls. provider_loop plain_sink sk_more calls (new_sink 0 c))"

definition write_content_in_chunks :: "content_provider \<Rightarrow> conn \<Rightarrow> (bool \<times> conn) res" where
  "write_content_in_chunks provider c =
     rbind (provider_calls provider 0 0) (\<lambda>calls. provider_loop chunked_sink sk_more calls (new_sink 0 c))"

text \<open>The result of writing a token is ignored; after a part that could not be written nothing
  more is.\<close>

definition write_multipart_ranges_data :: "request \<Rightarrow> content_provider \<Rightarrow> string \<Rightarrow> string \<Rightarrow> nat \<Rightarrow> conn
    \<Rightarrow> (bool \<times> conn) res" where
  "write_multipart_ranges_data req provider boundary content_type n c =
     process_multipart_ranges_data
       (\<lambda>t (b, c). if b then (b, snd (conn_write t c)) else (b, c))
       (\<lambda>offset k (b, c). if b then write_content provider offset k c else Inr (b, c))
       boundary content_type n (rq_ranges req) (True, c)"

definition write_content_with_provider :: "request \<Rightarrow> response \<Rightarrow> content_provider \<Rightarrow> string \<Rightarrow> string \<Rightarrow> conn
    \<Rightarrow> (bool \<times> conn) res" where
  "write_content_with_provider req res provider boundary content_type c =
     (if 0 < rs_content_length res then
        (case rq_ranges req of
           [] \<Rightarrow> write_content provider 0 (rs_content_length res) c
         | [r] \<Rightarrow> rbind (get_range_offset_and_length r (rs_content_length res)) (\<lambda>ol.
             write_content provider (fst ol) (snd ol) c)
         | _ \<Rightarrow> write_multipart_ranges_data req provider boundary content_type (rs_content_length res) c)
      else if rs_chunked_provider res then write_content_in_chunks provider c
      else write_content_without_length provider c)"

subsection \<open>Ranges of a response\<close>

fun erase_first :: "string \<Rightarrow> headers \<Rightarrow> headers" where
  "erase_first key [] = []"
| "erase_first key (e # h) = (if case_equal key (fst e) then h else e # erase_first key h)"

text \<open>The response, the media type of the parts and the boundary; no coding is ever chosen,
  since the program is built without a compression library.\<close>

definition start_multipart :: "string \<Rightarrow> request \<Rightarrow> response \<Rightarrow> response \<times> string \<times> string" where
  "start_multipart new_boundary req res =
     (if 1 < length (rq_ranges req) \<and> rs_status res = 206 then
        (let content_type = (case equal_range (rs_headers res) ''Content-Type'' of [] \<Rightarrow> [] | v # _ \<Rightarrow> v);
             res1 = res\<lparr>rs_headers := erase_first ''Content-Type'' (rs_headers res)\<rparr>
         in (rs_set_header ''Content-Type'' (''multipart/byteranges; boundary='' @ new_boundary) res1,
             content_type, new_boundary))
      else (res, [], []))"

definition apply_ranges_sized :: "request \<Rightarrow> string \<Rightarrow> string \<Rightarrow> response \<Rightarrow> response res" where
  "apply_ranges_sized req content_type boundary res =
     (let n = rs_content_length res;
          finish = (\<lambda>len r. Inr (rs_set_header ''Content-Length'' (show_nat len) r)) in
      if rq_ranges req = [] \<or> rs_status res \<noteq> 206 then finish n res
      else if length (rq_ranges req) = 1 then
        rbind (get_range_offset_and_length (hd (rq_ranges req)) n) (\<lambda>ol.
          finish (snd ol) (rs_set_header ''Content-Range'' (make_content_range_header_field ol n) res))
      else
        rbind (get_multipart_ranges_data_length req boundary content_type n) (\<lambda>len. finish len res))"

definition apply_ranges_body :: "request \<Rightarrow> string \<Rightarrow> string \<Rightarrow> response \<Rightarrow> response res" where
  "apply_ranges_body req content_type boundary res =
     (let n = length (rs_body res);
          finish = (\<lambda>r. Inr (rs_set_header ''Content-Length'' (show_nat (length (rs_body r)))
            (r\<lparr>rs_content_length := length (rs_body r)\<rparr>))) in
      if rq_ranges req = [] \<or> rs_status res \<noteq> 206 then finish res
      else if length (rq_ranges req) = 1 then
        rbind (get_range_offset_and_length (hd (rq_ranges req)) n) (\<lambda>ol.
          let r = rs_set_header ''Content-Range'' (make_content_range_header_field ol n) res in
          if n < fst ol + snd ol then Inl Undefined_Behaviour
          else rbind (substr (rs_body r) (fst ol) (snd ol)) (\<lambda>part. finish (r\<lparr>rs_body := part\<rparr>)))
      else
        rbind (make_multipart_ranges_data req res boundary content_type n) (\<lambda>data.
          finish (res\<lparr>rs_body := data\<rparr>)))"

definition apply_ranges :: "string \<Rightarrow> request \<Rightarrow> response \<Rightarrow> (response \<times> string \<times> string) res" where
  "apply_ranges new_boundary req res =
     (case start_multipart new_boundary req res of
        (res1, content_type, boundary) \<Rightarrow>
          rbind
            (if rs_body res1 = [] then
               (if 0 < rs_content_length res1 then apply_ranges_sized req content_type boundary res1
                else if rs_content_provider res1 \<noteq> None \<and> rs_chunked_provider res1
                then Inr (rs_set_header ''Transfer-Encoding'' ''chunked'' res1)
                else Inr res1)
             else apply_ranges_body req content_type boundary res1)
            (\<lambda>res2. Inr (res2, content_type, boundary)))"

subsection \<open>\<open>write_response_core\<close>\<close>

definition connection_header :: "http_server \<Rightarrow> bool \<Rightarrow> request \<Rightarrow> response \<Rightarrow> response" where
  "connection_header sv close_connection req res =
     (if close_connection \<or> rq_header req ''Connection'' = ''close'' \<or> 400 \<le> rs_status res
      then rs_set_header ''Connection'' ''close'' res
      else rs_set_header ''Keep-Alive''
        (''timeout='' @ show_int (sv_keep_alive_timeout_sec sv) @ '', max='' @ show_nat (sv_keep_alive_max_count sv)) res)"

definition content_headers :: "request \<Rightarrow> response \<Rightarrow> response" where
  "content_headers req res =
     (let r1 = (if (rs_body res \<noteq> [] \<or> 0 < rs_content_length res \<or> rs_content_provider res \<noteq> None)
              \<and> \<not> rs_has_header res ''Content-Type''
            then rs_set_header ''Content-Type'' ''text/plain'' res else res);
          r2 = (if rs_body r1 = [] \<and> rs_content_length r1 = 0 \<and> rs_content_provider r1 = None
              \<and> \<not> rs_has_header r1 ''Content-Length''
            then rs_set_header ''Content-Length'' ''0'' r1 else r1)
      in if rq_method req = ''HEAD'' \<and> \<not> rs_has_header r2 ''Accept-Ranges''
         then rs_set_header ''Accept-Ranges'' ''bytes'' r2 else r2)"

definition response_head :: "response \<Rightarrow> string" where
  "response_head res = response_line (rs_status res) @ write_headers (rs_headers res)"

definition run_hook :: "hook option \<Rightarrow> request \<Rightarrow> response \<Rightarrow> bool \<times> response" where
  "run_hook h req res = (case h of None \<Rightarrow> (False, res) | Some f \<Rightarrow> f req res)"

text \<open>A response that has no status fails an assertion.  The result is what the function
  returns, the response as it was sent, and the connection.\<close>

definition write_response_core :: "http_server \<Rightarrow> string \<Rightarrow> bool \<Rightarrow> request \<Rightarrow> bool \<Rightarrow> response \<Rightarrow> conn
    \<Rightarrow> (bool \<times> response \<times> conn) res" where
  "write_response_core sv new_boundary close_connection req need_apply_ranges res c =
     (if rs_status res = -1 then Inl Undefined_Behaviour
      else
        (let (handled, res1) = (if 400 \<le> rs_status res then run_hook (sv_error_handler sv) req res else (False, res)) in
         rbind (if need_apply_ranges \<or> handled then apply_ranges new_boundary req res1 else Inr (res1, [], []))
           (\<lambda>(res2, content_type, boundary).
             let res3 = content_headers req (connection_header sv close_connection req res2);
                 res4 = (case sv_post_routing_handler sv of None \<Rightarrow> res3 | Some f \<Rightarrow> f req res3);
                 text = response_head res4
                   @ (if rq_method req \<noteq> ''HEAD'' \<and> rs_content_provider res4 = None then rs_body res4 else [])
             in case write_data text c of
                  (False, c1) \<Rightarrow> Inr (False, res4, c1)
                | (True, c1) \<Rightarrow>
                    (case rs_content_provider res4 of
                       None \<Rightarrow> Inr (True, res4, c1)
                     | Some provider \<Rightarrow>
                         if rq_method req = ''HEAD'' then Inr (True, res4, c1)
                         else rbind (write_content_with_provider req res4 provider boundary content_type c1)
                           (\<lambda>(b, c2). Inr (b, res4, c2))))))"

definition write_response :: "http_server \<Rightarrow> bool \<Rightarrow> request \<Rightarrow> response \<Rightarrow> conn \<Rightarrow> (bool \<times> response \<times> conn) res" where
  "write_response sv close_connection req res c =
     write_response_core sv [] close_connection (req\<lparr>rq_ranges := []\<rparr>) False res c"

definition write_response_with_content :: "http_server \<Rightarrow> string \<Rightarrow> bool \<Rightarrow> request \<Rightarrow> response \<Rightarrow> conn
    \<Rightarrow> (bool \<times> response \<times> conn) res" where
  "write_response_with_content sv new_boundary close_connection req res c =
     write_response_core sv new_boundary close_connection req True res c"

subsection \<open>Lemmas\<close>

lemma write_data_all: "conn_writes c = [] \<Longrightarrow> write_data d c = (True, c\<lparr>conn_out := conn_out c @ d\<rparr>)"
  by (cases "d = []") (simp_all add: write_data.simps conn_write_def)

lemma write_data_prefix:
  "write_data d c = (b, c') \<Longrightarrow> \<exists>k. conn_out c' = conn_out c @ take k d \<and> (b \<longrightarrow> length d \<le> k)
     \<and> conn_in c' = conn_in c"
proof (induction d c arbitrary: b c' rule: write_data.induct)
  case (1 d c)
  show ?case
  proof (cases "d = []")
    case True
    then show ?thesis using "1.prems" by (simp add: write_data.simps)
  next
    case False
    obtain n c1 where w: "conn_write d c = (n, c1)" by fastforce
    show ?thesis
    proof (cases n)
      case None
      then have "c' = c1" "\<not> b" using "1.prems" False w by (simp_all add: write_data.simps)
      moreover have "conn_out c1 = conn_out c" "conn_in c1 = conn_in c"
        using w None by (auto simp: conn_write_def split: list.splits option.splits)
      ultimately show ?thesis by (intro exI [of _ 0]) simp
    next
      case (Some k)
      then have r: "write_data (drop k d) c1 = (b, c')" using "1.prems" False w by (simp add: write_data.simps)
      have o: "conn_out c1 = conn_out c @ take k d" "conn_in c1 = conn_in c" "k \<le> length d"
        using w Some by (auto simp: conn_write_def min_def split: list.splits option.splits)
      obtain j where j: "conn_out c' = conn_out c1 @ take j (drop k d)" "b \<longrightarrow> length (drop k d) \<le> j"
        "conn_in c' = conn_in c1"
        using "1.IH" [OF False w [symmetric] Some r] by blast
      then show ?thesis using o by (intro exI [of _ "k + j"]) (auto simp: take_add)
    qed
  qed
qed

end
