(* ===== verification/Http_Codec.thy ===== *)
theory Http_Codec
  imports Http_Message "HOL-Library.Word"
begin

text \<open>
  Base64, SHA-1 and the key a WebSocket upgrade is answered with, from \<open>include/httplib.h\<close>.
\<close>

unbundle bit_operations_syntax

subsection \<open>Base64\<close>

definition b64chars :: string where
  "b64chars = ''ABCDEFGHIJKLMNOPQRSTUVWXYZabcdefghijklmnopqrstuvwxyz0123456789+/''"

definition byte32 :: "char \<Rightarrow> 32 word" where
  "byte32 c = of_nat (byte c)"

definition b64_digit :: "32 word \<Rightarrow> char" where
  "b64_digit v = b64chars ! unat (v AND 0x3F)"

text \<open>The inner loop; the counter is kept 6 above the \<open>valb\<close> of the code, so that it is
  never negative.\<close>

fun b64_emit :: "32 word \<Rightarrow> nat \<Rightarrow> string \<Rightarrow> nat \<times> string" where
  "b64_emit val n out =
     (if 6 \<le> n then b64_emit val (n - 6) (out @ [b64_digit (drop_bit (n - 6) val)]) else (n, out))"

declare b64_emit.simps [simp del]

fun b64_loop :: "string \<Rightarrow> 32 word \<Rightarrow> nat \<Rightarrow> string \<Rightarrow> 32 word \<times> nat \<times> string" where
  "b64_loop [] val n out = (val, n, out)"
| "b64_loop (c # s) val n out =
     (let val1 = push_bit 8 val + byte32 c in
      case b64_emit val1 (n + 8) out of (n1, out1) \<Rightarrow> b64_loop s val1 n1 out1)"

definition pad4 :: "string \<Rightarrow> string" where
  "pad4 out = out @ replicate ((4 - length out mod 4) mod 4) CHR ''=''"

definition base64_encode :: "string \<Rightarrow> string" where
  "base64_encode s =
     (case b64_loop s 0 0 [] of (val, n, out) \<Rightarrow>
        pad4 (if 0 < n then out @ [b64_digit (drop_bit (n + 2) (push_bit 8 val))] else out))"

subsection \<open>SHA-1\<close>

type_synonym sha_state = "32 word \<times> 32 word \<times> 32 word \<times> 32 word \<times> 32 word"

definition left_rotate :: "32 word \<Rightarrow> nat \<Rightarrow> 32 word" where
  "left_rotate x n = push_bit n x OR drop_bit (32 - n) x"

definition sha1_init :: sha_state where
  "sha1_init = (0x67452301, 0xEFCDAB89, 0x98BADCFE, 0x10325476, 0xC3D2E1F0)"

definition chr_of :: "nat \<Rightarrow> char" where
  "chr_of n = char_of (n mod 256)"

text \<open>The length in bits is a 64-bit number, appended from its high byte down.\<close>

definition sha1_pad :: "string \<Rightarrow> string" where
  "sha1_pad s =
     (let m = s @ [CHR 0x80]; zeros = (120 - length m mod 64) mod 64;
          bits = (length s * 8) mod 2 ^ 64
      in m @ replicate zeros (CHR 0x00)
         @ map (\<lambda>i. chr_of (bits div 2 ^ i)) [56, 48, 40, 32, 24, 16, 8, 0])"

definition sha1_word :: "string \<Rightarrow> 32 word" where
  "sha1_word b = push_bit 24 (byte32 (b ! 0)) OR push_bit 16 (byte32 (b ! 1)) OR push_bit 8 (byte32 (b ! 2))
     OR byte32 (b ! 3)"

fun sha1_words :: "string \<Rightarrow> 32 word list" where
  "sha1_words (a # b # c # d # s) = sha1_word [a, b, c, d] # sha1_words s"
| "sha1_words _ = []"

text \<open>The schedule, the last word first: the words 3, 8, 14 and 16 back are the entries 2, 7, 13
  and 15.\<close>

fun sha1_extend :: "nat \<Rightarrow> 32 word list \<Rightarrow> 32 word list" where
  "sha1_extend 0 w = w"
| "sha1_extend (Suc n) w = sha1_extend n (left_rotate (w ! 2 XOR w ! 7 XOR w ! 13 XOR w ! 15) 1 # w)"

definition sha1_schedule :: "string \<Rightarrow> 32 word list" where
  "sha1_schedule block = rev (sha1_extend 64 (rev (sha1_words block)))"

definition sha1_f :: "nat \<Rightarrow> 32 word \<Rightarrow> 32 word \<Rightarrow> 32 word \<Rightarrow> 32 word" where
  "sha1_f i b c d =
     (if i < 20 then (b AND c) OR (NOT b AND d)
      else if i < 40 then b XOR c XOR d
      else if i < 60 then (b AND c) OR (b AND d) OR (c AND d)
      else b XOR c XOR d)"

definition sha1_k :: "nat \<Rightarrow> 32 word" where
  "sha1_k i = (if i < 20 then 0x5A827999 else if i < 40 then 0x6ED9EBA1 else if i < 60 then 0x8F1BBCDC else 0xCA62C1D6)"

fun sha1_rounds :: "nat \<Rightarrow> 32 word list \<Rightarrow> sha_state \<Rightarrow> sha_state" where
  "sha1_rounds i [] st = st"
| "sha1_rounds i (w # ws) (a, b, c, d, e) =
     sha1_rounds (i + 1) ws (left_rotate a 5 + sha1_f i b c d + e + sha1_k i + w, a, left_rotate b 30, c, d)"

definition sha1_block :: "sha_state \<Rightarrow> string \<Rightarrow> sha_state" where
  "sha1_block h block =
     (case h of (h0, h1, h2, h3, h4) \<Rightarrow>
      case sha1_rounds 0 (sha1_schedule block) h of (a, b, c, d, e) \<Rightarrow>
        (h0 + a, h1 + b, h2 + c, h3 + d, h4 + e))"

fun sha1_blocks :: "sha_state \<Rightarrow> string \<Rightarrow> sha_state" where
  "sha1_blocks h s = (if s = [] then h else sha1_blocks (sha1_block h (take 64 s)) (drop 64 s))"

declare sha1_blocks.simps [simp del]

definition word_bytes :: "32 word \<Rightarrow> string" where
  "word_bytes w = map (\<lambda>i. chr_of (unat (drop_bit i w AND 0xFF))) [24, 16, 8, 0]"

definition sha1 :: "string \<Rightarrow> string" where
  "sha1 s =
     (case sha1_blocks sha1_init (sha1_pad s) of (h0, h1, h2, h3, h4) \<Rightarrow>
        word_bytes h0 @ word_bytes h1 @ word_bytes h2 @ word_bytes h3 @ word_bytes h4)"

subsection \<open>WebSocket upgrade\<close>

definition websocket_accept_key :: "string \<Rightarrow> string" where
  "websocket_accept_key client_key = base64_encode (sha1 (client_key @ ''258EAFA5-E914-47DA-95CA-C5AB0DC85B11''))"

definition is_websocket_upgrade :: "request \<Rightarrow> bool" where
  "is_websocket_upgrade req =
     (if rq_method req \<noteq> ''GET'' then False
      else case equal_range (rq_headers req) ''Upgrade'' of
        [] \<Rightarrow> False
      | upgrade # _ \<Rightarrow>
          if to_lower_str upgrade \<noteq> ''websocket'' then False
          else case equal_range (rq_headers req) ''Connection'' of
            [] \<Rightarrow> False
          | conn # _ \<Rightarrow>
              if \<not> has_infix ''upgrade'' (to_lower_str conn) then False
              else (let key = rq_header req ''Sec-WebSocket-Key'' in
                if length key \<noteq> 24 \<or> key ! 22 \<noteq> CHR ''='' \<or> key ! 23 \<noteq> CHR ''='' then False
                else if \<not> list_all (\<lambda>c. c \<in> set b64chars) (take 22 key) then False
                else rq_header req ''Sec-WebSocket-Version'' = ''13''))"

end
