(* ===== verification/Http_Request.thy ===== *)
theory Http_Request
  imports Http_Response Http_Codec
begin

text \<open>
  Reading a request, from \<open>include/httplib.h\<close>: the request line, the address of the client
  behind trusted proxies, and the body with its forms.
\<close>

subsection \<open>Request line\<close>

definition known_methods :: "string list" where
  "known_methods = [''GET'', ''HEAD'', ''POST'', ''PUT'', ''DELETE'', ''CONNECT'', ''OPTIONS'', ''TRACE'',
     ''PATCH'', ''PRI'']"

definition without_fragment :: "string \<Rightarrow> string" where
  "without_fragment target = takeWhile (\<lambda>c. c \<noteq> CHR ''#'') target"

text \<open>The line is read up to a null character.  The parts that were found are stored even when
  the line is refused.\<close>

definition parse_request_line :: "string \<Rightarrow> request \<Rightarrow> bool \<times> request" where
  "parse_request_line line req =
     (let s = c_str line in
      if \<not> end_with_crlf s then (False, req)
      else
        (let parts = split CHR '' '' (take (length s - 2) s);
             req1 = (if 0 < length parts then req\<lparr>rq_method := parts ! 0\<rparr> else req);
             req2 = (if 1 < length parts then req1\<lparr>rq_target := parts ! 1\<rparr> else req1);
             req3 = (if 2 < length parts then req2\<lparr>rq_version := parts ! 2\<rparr> else req2)
         in if length parts \<noteq> 3 then (False, req3)
            else if rq_method req3 \<notin> set known_methods then (False, req3)
            else if rq_version req3 \<noteq> ''HTTP/1.1'' \<and> rq_version req3 \<noteq> ''HTTP/1.0'' then (False, req3)
            else
              (let target = without_fragment (rq_target req3) in
               case divide CHR ''?'' target of
                 (path, query) \<Rightarrow>
                   (True, req3\<lparr>rq_target := target, rq_path := decode_path_component path,
                      rq_params := parse_query_text query (rq_params req3)\<rparr>))))"

subsection \<open>The address of the client\<close>

definition get_client_ip :: "string \<Rightarrow> string list \<Rightarrow> string" where
  "get_client_ip x_forwarded_for trusted_proxies =
     (case split CHR '','' x_forwarded_for of
        [] \<Rightarrow> []
      | first # rest \<Rightarrow>
          (case find (\<lambda>ip. ip \<notin> set trusted_proxies) (rev (first # rest)) of
             Some ip \<Rightarrow> ip
           | None \<Rightarrow> first))"

subsection \<open>Bodies\<close>

text \<open>Entries of a multimap: a new entry goes behind those with the same key.\<close>

fun mm_emplace :: "string \<times> 'v \<Rightarrow> (string \<times> 'v) list \<Rightarrow> (string \<times> 'v) list" where
  "mm_emplace kv [] = [kv]"
| "mm_emplace kv (x # xs) = (if fst kv < fst x then kv # x # xs else x # mm_emplace kv xs)"

fun update_last :: "string \<Rightarrow> ('v \<Rightarrow> 'v) \<Rightarrow> (string \<times> 'v) list \<Rightarrow> (string \<times> 'v) list" where
  "update_last key f [] = []"
| "update_last key f (x # xs) =
     (if fst x = key \<and> key \<notin> fst ` set xs then (key, f (snd x)) # xs else x # update_last key f xs)"

definition FORM_FILE_MAX_COUNT :: nat where "FORM_FILE_MAX_COUNT = 1024"
definition FORM_URL_ENCODED_MAX :: nat where "FORM_URL_ENCODED_MAX = 8192"

text \<open>What the receivers of \<open>Server::read_content\<close> keep: the body, the form, the number of
  entries so far, and the entry that is being filled.\<close>

record body_state =
  bd_body :: string
  bd_form :: multipart_form
  bd_count :: nat
  bd_current :: string
  bd_is_text :: bool

definition form_entry :: "form_data \<Rightarrow> body_state \<Rightarrow> bool \<times> body_state" where
  "form_entry fd st =
     (let st1 = st\<lparr>bd_count := bd_count st + 1\<rparr> in
      if bd_count st = FORM_FILE_MAX_COUNT then (False, st1)
      else if fd_filename fd = [] then
        (True, st1\<lparr>bd_current := fd_name fd, bd_is_text := True,
           bd_form := (bd_form st)\<lparr>form_fields := mm_emplace (fd_name fd, \<lparr>ff_name = fd_name fd,
             ff_content = fd_content fd, ff_headers = fd_headers fd\<rparr>) (form_fields (bd_form st))\<rparr>\<rparr>)
      else
        (True, st1\<lparr>bd_current := fd_name fd, bd_is_text := False,
           bd_form := (bd_form st)\<lparr>form_files := mm_emplace (fd_name fd, fd) (form_files (bd_form st))\<rparr>\<rparr>))"

text \<open>A piece of the content of the current entry, the last one with its name.\<close>

definition form_piece :: "string \<Rightarrow> body_state \<Rightarrow> bool \<times> body_state" where
  "form_piece d st =
     (let f = bd_form st; key = bd_current st;
          len = (if bd_is_text st
                 then (case param_range (map (\<lambda>e. (fst e, ff_content (snd e))) (form_fields f)) key of
                         [] \<Rightarrow> 0 | vs \<Rightarrow> length (last vs))
                 else (case param_range (map (\<lambda>e. (fst e, fd_content (snd e))) (form_files f)) key of
                         [] \<Rightarrow> 0 | vs \<Rightarrow> length (last vs)))
      in if MAX_STRING < len + length d then (False, st)
         else (True, st\<lparr>bd_form :=
           (if bd_is_text st
            then f\<lparr>form_fields := update_last key (\<lambda>x. x\<lparr>ff_content := ff_content x @ d\<rparr>) (form_fields f)\<rparr>
            else f\<lparr>form_files := update_last key (\<lambda>x. x\<lparr>fd_content := fd_content x @ d\<rparr>) (form_files f)\<rparr>)\<rparr>))"

definition body_piece :: "nat \<Rightarrow> string \<Rightarrow> body_state \<Rightarrow> bool \<times> body_state" where
  "body_piece payload_max d st =
     (case append_body payload_max d 0 0 (bd_body st) of (b, body) \<Rightarrow> (b, st\<lparr>bd_body := body\<rparr>))"

text \<open>\<open>read_content_core\<close>: \<open>has_data\<close> is whether the socket is readable when no framing announces
  a body.  The result, the status when it is set, the state of the receivers, the request and
  the stream.\<close>

definition read_content_core :: "(nat \<Rightarrow> nat) \<Rightarrow> bool \<Rightarrow> nat \<Rightarrow> request \<Rightarrow> (string \<Rightarrow> 's \<Rightarrow> bool \<times> 's) \<Rightarrow>
    (form_data \<Rightarrow> 's \<Rightarrow> bool \<times> 's) \<Rightarrow> (string \<Rightarrow> 's \<Rightarrow> bool \<times> 's) \<Rightarrow> 's \<Rightarrow> string \<Rightarrow>
    bool \<times> int option \<times> 's \<times> request \<times> string" where
  "read_content_core avail has_data payload_max req receiver multipart_header multipart_receiver st s =
     (let multipart = is_multipart_form_data req;
          boundary = (if multipart then parse_multipart_boundary (rq_header req ''Content-Type'') else Some [])
      in case boundary of
           None \<Rightarrow> (False, Some 400, st, req, s)
         | Some b \<Rightarrow>
             (let out = (\<lambda>d offset chunk_len (a, p).
                    if multipart then
                      (case form_parse multipart_header multipart_receiver d p a of (r, p1, a1) \<Rightarrow> (r, (a1, p1)))
                    else (case receiver d a of (r, a1) \<Rightarrow> (r, (a1, p))))
              in if \<not> rq_has_header req ''Content-Length'' \<and> \<not> is_chunked_transfer_encoding (rq_headers req) then
                   (if \<not> is_connection_persistent req \<and> 0 < payload_max \<and> payload_max < npos \<and> has_data then
                      (case read_content_without_length avail payload_max out (st, new_form_parser b) s of
                         (result, (st1, p1), s1) \<Rightarrow>
                           (if result = RC_PayloadTooLarge then (False, Some 413, st1, req, s1)
                            else if result \<noteq> RC_Success then (False, None, st1, req, s1)
                            else (True, None, st1, req, s1)))
                    else (True, None, st, req, s))
                 else
                   (case read_content avail req payload_max out True (st, new_form_parser b) s of
                      (False, stat, (st1, p1), req1, s1) \<Rightarrow> (False, stat, st1, req1, s1)
                    | (True, stat, (st1, p1), req1, s1) \<Rightarrow>
                        (let req2 = req1\<lparr>rq_body_consumed := True\<rparr> in
                         if multipart \<and> \<not> fp_valid p1 then (False, Some 400, st1, req2, s1)
                         else (True, stat, st1, req2, s1)))))"

definition server_read_content :: "(nat \<Rightarrow> nat) \<Rightarrow> bool \<Rightarrow> nat \<Rightarrow> request \<Rightarrow> string
    \<Rightarrow> bool \<times> int option \<times> request \<times> string" where
  "server_read_content avail has_data payload_max req s =
     (case read_content_core avail has_data payload_max req (body_piece payload_max) form_entry form_piece
         \<lparr>bd_body = rq_body req, bd_form = rq_form req, bd_count = 0, bd_current = [], bd_is_text = False\<rparr> s of
        (b, stat, st, req1, s1) \<Rightarrow>
          (let req2 = req1\<lparr>rq_body := bd_body st, rq_form := bd_form st\<rparr> in
           if \<not> b then (False, stat, req2, s1)
           else if fst (extract_media_type (rq_header req2 ''Content-Type'')) = ''application/x-www-form-urlencoded'' then
             (if FORM_URL_ENCODED_MAX < length (rq_body req2) then (False, Some 413, req2, s1)
              else (True, stat, req2\<lparr>rq_params := parse_query_text (rq_body req2) (rq_params req2)\<rparr>, s1))
           else (True, stat, req2, s1)))"

end
