(* ===== verification/Http_Server.thy ===== *)
theory Http_Server
  imports Http_Request
begin

text \<open>
  The server of \<open>include/httplib.h\<close>: \<open>routing\<close>, \<open>dispatch_request\<close>, \<open>process_request\<close> and the
  loop that keeps a connection alive.
\<close>

subsection \<open>What surrounds a request\<close>

text \<open>The file system, \<open>std::regex\<close> for patterns with operators, the number of bytes each read
  of the socket finds, whether the socket is readable when a body without framing is looked
  for, and the draws of the random engine.\<close>

record environment =
  ev_files :: file_system
  ev_regex :: "string \<Rightarrow> string \<Rightarrow> bool"
  ev_avail :: "nat \<Rightarrow> nat"
  ev_has_data :: bool
  ev_draws :: "nat list"

record peer_addresses =
  pa_remote_addr :: string
  pa_remote_port :: int
  pa_local_addr :: string
  pa_local_port :: int

datatype routed = Routed | Not_Routed | Threw

subsection \<open>Routing\<close>

definition set_status :: "int option \<Rightarrow> response \<Rightarrow> response" where
  "set_status stat res = (case stat of None \<Rightarrow> res | Some n \<Rightarrow> res\<lparr>rs_status := n\<rparr>)"

definition run_matched :: "environment \<Rightarrow> http_server \<Rightarrow> matcher \<Rightarrow> handler \<Rightarrow> request \<Rightarrow> response \<Rightarrow> string
    \<Rightarrow> routed \<times> request \<times> response \<times> string" where
  "run_matched ev sv m h req0 res0 s0 =
     (let req = req0\<lparr>rq_matched_route := matcher_pattern m\<rparr> in
      case run_hook (sv_pre_request_handler sv) req res0 of
        (True, res) \<Rightarrow> (Routed, req, res, s0)
      | (False, res) \<Rightarrow>
          (let (b, stat, req1, s) =
             (if expect_content req
              then server_read_content (ev_avail ev) (ev_has_data ev) (sv_payload_max_length sv) req s0
              else (True, None, req, s0));
               res1 = set_status stat res
           in if \<not> b then (Not_Routed, req1, res1, s)
              else (case h req1 res1 of
                  (True, res2) \<Rightarrow> (Threw, req1, res2, s)
                | (False, res2) \<Rightarrow> (Routed, req1, res2, s))))"

fun dispatch_request :: "environment \<Rightarrow> http_server \<Rightarrow> handlers \<Rightarrow> request \<Rightarrow> response \<Rightarrow> string
    \<Rightarrow> routed \<times> request \<times> response \<times> string" where
  "dispatch_request ev sv [] req res s = (Not_Routed, req, res, s)"
| "dispatch_request ev sv ((m, h) # hs) req res s =
     (case match_request (ev_regex ev) m req of
        (True, req1) \<Rightarrow> run_matched ev sv m h req1 res s
      | (False, req1) \<Rightarrow> dispatch_request ev sv hs req1 res s)"

text \<open>The receivers a handler gave to the reader: each is asked with all it has been given, and
  one that was not given is an empty \<open>std::function\<close>, whose call throws.  The state is what was
  given, and whether something was thrown.\<close>

definition receive_event :: "bool \<Rightarrow> (content_event list \<Rightarrow> bool) \<Rightarrow> content_event \<Rightarrow> content_event list \<times> bool
    \<Rightarrow> bool \<times> content_event list \<times> bool" where
  "receive_event given accept e st =
     (if given then (accept (fst st @ [e]), fst st @ [e], snd st) else (False, fst st, True))"

text \<open>Running such a handler: whether it ended with an exception, whether the reader met the limit,
  the request, the response, and the stream.\<close>

primrec run_content_handler :: "environment \<Rightarrow> http_server \<Rightarrow> content_step \<Rightarrow> request \<Rightarrow> string \<Rightarrow> bool
    \<Rightarrow> bool \<times> bool \<times> request \<times> response \<times> string" where
  "run_content_handler ev sv (Finish threw res) req s too_large = (threw, too_large, req, res, s)"
| "run_content_handler ev sv (Read_Content res form accept go_on) req s too_large =
     (case read_content_core (ev_avail ev) (ev_has_data ev) (sv_payload_max_length sv) req
         (\<lambda>d. receive_event (\<not> form) accept (Content_Piece d)) (\<lambda>fd. receive_event form accept (Entry_Header fd))
         (\<lambda>d. receive_event form accept (Content_Piece d)) ([], False) s of
        (b, stat, (given, threw), req1, s1) \<Rightarrow>
          if threw then (True, too_large, req1, set_status stat res, s1)
          else run_content_handler ev sv (go_on (b, given, req1, set_status stat res)) req1 s1
            (too_large \<or> \<not> b \<and> rs_status (set_status stat res) = 413))"

text \<open>\<open>None\<close>: no handler matched; otherwise whether the reader met the limit.\<close>

fun dispatch_request_for_content_reader :: "environment \<Rightarrow> http_server \<Rightarrow> content_handlers \<Rightarrow> request \<Rightarrow> response
    \<Rightarrow> string \<Rightarrow> (bool \<times> bool) option \<times> request \<times> response \<times> string" where
  "dispatch_request_for_content_reader ev sv [] req res s = (None, req, res, s)"
| "dispatch_request_for_content_reader ev sv ((m, h) # hs) req res s =
     (case match_request (ev_regex ev) m req of
        (False, req1) \<Rightarrow> dispatch_request_for_content_reader ev sv hs req1 res s
      | (True, req1) \<Rightarrow>
          (let req2 = req1\<lparr>rq_matched_route := matcher_pattern m\<rparr> in
           case run_hook (sv_pre_request_handler sv) req2 res of
             (True, res1) \<Rightarrow> (Some (False, False), req2, res1, s)
           | (False, res1) \<Rightarrow>
               (case run_content_handler ev sv (h req2 res1) req2 s False of
                  (threw, too_large, req3, res2, s1) \<Rightarrow> (Some (threw, too_large), req3, res2, s1))))"

definition content_handlers_for :: "http_server \<Rightarrow> string \<Rightarrow> content_handlers" where
  "content_handlers_for sv meth =
     (if meth = ''POST'' then sv_post_content_handlers sv
      else if meth = ''PUT'' then sv_put_content_handlers sv
      else if meth = ''PATCH'' then sv_patch_content_handlers sv
      else if meth = ''DELETE'' then sv_delete_content_handlers sv
      else [])"

text \<open>The limit is enforced whatever status the handler has set.\<close>

definition content_outcome :: "bool \<times> bool \<Rightarrow> response \<Rightarrow> routed \<times> response" where
  "content_outcome out res =
     (if fst out then (Threw, res)
      else if snd out then
        (Not_Routed, res\<lparr>rs_status := 413, rs_body := [], rs_content_length := 0, rs_content_provider := None\<rparr>)
      else (Routed, res))"

definition handlers_for :: "http_server \<Rightarrow> string \<Rightarrow> handlers option" where
  "handlers_for sv meth =
     (if meth = ''GET'' \<or> meth = ''HEAD'' then Some (sv_get_handlers sv)
      else if meth = ''POST'' then Some (sv_post_handlers sv)
      else if meth = ''PUT'' then Some (sv_put_handlers sv)
      else if meth = ''DELETE'' then Some (sv_delete_handlers sv)
      else if meth = ''OPTIONS'' then Some (sv_options_handlers sv)
      else if meth = ''PATCH'' then Some (sv_patch_handlers sv)
      else None)"

definition routing :: "environment \<Rightarrow> http_server \<Rightarrow> request \<Rightarrow> response \<Rightarrow> string
    \<Rightarrow> routed \<times> request \<times> response \<times> string" where
  "routing ev sv req res s =
     (case run_hook (sv_pre_routing_handler sv) req res of
        (True, res1) \<Rightarrow> (Routed, req, res1, s)
      | (False, res1) \<Rightarrow>
          (let (served, req1, res2) =
             (if rq_method req = ''GET'' \<or> rq_method req = ''HEAD''
              then handle_file_request (ev_files ev) (sv_files sv) req res1 else (False, req, res1))
           in if served then (Routed, req1, res2, s)
              else (case (if expect_content req1
                          then dispatch_request_for_content_reader ev sv (content_handlers_for sv (rq_method req1)) req1 res2 s
                          else (None, req1, res2, s)) of
                  (Some out, req2, res3, s1) \<Rightarrow> (case content_outcome out res3 of (r, res4) \<Rightarrow> (r, req2, res4, s1))
                | (None, req2, res3, s1) \<Rightarrow>
                    (case handlers_for sv (rq_method req2) of
                       None \<Rightarrow> (Not_Routed, req2, res3\<lparr>rs_status := 400\<rparr>, s1)
                     | Some hs \<Rightarrow> dispatch_request ev sv hs req2 res3 s1))))"

subsection \<open>WebSocket handshake\<close>

fun comma_tokens_acc :: "string \<Rightarrow> string \<Rightarrow> string list" where
  "comma_tokens_acc acc [] = (if acc = [] then [] else [rev acc])"
| "comma_tokens_acc acc (c # cs) = (if c = CHR '','' then rev acc # comma_tokens_acc [] cs else comma_tokens_acc (c # acc) cs)"

definition trim_spaces :: "string \<Rightarrow> string" where
  "trim_spaces t = rev (dropWhile (\<lambda>c. c = CHR '' '') (rev (dropWhile (\<lambda>c. c = CHR '' '') t)))"

definition offered_protocols :: "string \<Rightarrow> string list" where
  "offered_protocols h = filter (\<lambda>t. t \<noteq> []) (map trim_spaces (comma_tokens_acc [] h))"

definition negotiate_protocol :: "request \<Rightarrow> (string list \<Rightarrow> string) option \<Rightarrow> string" where
  "negotiate_protocol req selector =
     (case selector of
        None \<Rightarrow> []
      | Some f \<Rightarrow>
          (let h = rq_header req ''Sec-WebSocket-Protocol'' in
           if h \<noteq> [] then f (offered_protocols h) else []))"

definition handshake_response :: "string \<Rightarrow> string \<Rightarrow> string" where
  "handshake_response accept_key protocol =
     ''HTTP/1.1 101 Switching Protocols'' @ CRLF @ ''Upgrade: websocket'' @ CRLF @ ''Connection: Upgrade'' @ CRLF
     @ ''Sec-WebSocket-Accept: '' @ accept_key @ CRLF
     @ (if protocol \<noteq> [] then ''Sec-WebSocket-Protocol: '' @ protocol @ CRLF else []) @ CRLF"

text \<open>What became of a request: what \<open>process_request\<close> returns, whether the connection is to be
  closed, whether it now belongs to a WebSocket handler, and the connection.\<close>

record request_outcome =
  pr_ret :: bool
  pr_closed :: bool
  pr_upgraded :: bool
  pr_conn :: conn

text \<open>\<open>Inr\<close> goes on with a request that no handler matched.\<close>

fun websocket_loop :: "environment \<Rightarrow> (matcher \<times> (string list \<Rightarrow> string) option) list \<Rightarrow> bool \<Rightarrow> request \<Rightarrow> conn
    \<Rightarrow> request_outcome + request" where
  "websocket_loop ev [] closing req c = Inr req"
| "websocket_loop ev ((m, selector) # es) closing req c =
     (case match_request (ev_regex ev) m req of
        (False, req1) \<Rightarrow> websocket_loop ev es closing req1 c
      | (True, req1) \<Rightarrow>
          (let protocol = negotiate_protocol req1 selector;
               text = handshake_response (websocket_accept_key (rq_header req1 ''Sec-WebSocket-Key'')) protocol
           in if protocol \<noteq> [] \<and> \<not> is_field_value protocol
              then Inl \<lparr>pr_ret = False, pr_closed = closing, pr_upgraded = False, pr_conn = c\<rparr>
              else (case conn_write text c of
                  (None, c1) \<Rightarrow> Inl \<lparr>pr_ret = False, pr_closed = closing, pr_upgraded = False, pr_conn = c1\<rparr>
                | (Some n, c1) \<Rightarrow> Inl \<lparr>pr_ret = True, pr_closed = True, pr_upgraded = True, pr_conn = c1\<rparr>)))"

subsection \<open>Answering\<close>

definition answer :: "bool \<Rightarrow> (bool \<times> response \<times> conn) res \<Rightarrow> request_outcome res" where
  "answer closing r = rbind r (\<lambda>(b, res, c). Inr \<lparr>pr_ret = b, pr_closed = closing, pr_upgraded = False, pr_conn = c\<rparr>)"

definition refuse :: "http_server \<Rightarrow> bool \<Rightarrow> bool \<Rightarrow> request \<Rightarrow> response \<Rightarrow> int \<Rightarrow> conn \<Rightarrow> request_outcome res" where
  "refuse sv close_connection closing req res stat c =
     answer closing (write_response sv close_connection req (res\<lparr>rs_status := stat\<rparr>) c)"

definition without_content :: "int \<Rightarrow> response \<Rightarrow> response" where
  "without_content stat res =
     res\<lparr>rs_body := [], rs_content_length := 0, rs_content_provider := None, rs_status := stat\<rparr>"

text \<open>A response that names a file takes its content from there; \<open>True\<close> is a file that cannot be
  opened.\<close>

definition load_file_content :: "environment \<Rightarrow> http_server \<Rightarrow> response \<Rightarrow> bool \<times> response" where
  "load_file_content ev sv res =
     (if rs_file_path res = [] then (False, res)
      else (case file_bytes (ev_files ev) (rs_file_path res) of
          None \<Rightarrow> (True, without_content 404 res)
        | Some bytes \<Rightarrow>
            (let t = (if rs_file_type res = []
                      then find_content_type (rs_file_path res) (mime_map (sv_files sv)) (default_mime (sv_files sv))
                      else rs_file_type res)
             in (False, set_content_provider (length bytes) t (Bytes_Provider bytes) res))))"

definition send_routed :: "environment \<Rightarrow> http_server \<Rightarrow> bool \<Rightarrow> request \<Rightarrow> response \<Rightarrow> conn
    \<Rightarrow> (bool \<times> request \<times> response \<times> conn) res" where
  "send_routed ev sv close_connection req res c =
     (let res1 = (if rs_status res = -1 then res\<lparr>rs_status := if rq_ranges req = [] then 200 else 206\<rparr> else res);
          keep = (\<lambda>req (b, res, c). Inr (b, req, res, c))
      in case load_file_content ev sv res1 of
           (True, res2) \<Rightarrow> rbind (write_response sv close_connection req res2 c) (keep (req\<lparr>rq_ranges := []\<rparr>))
         | (False, res2) \<Rightarrow>
             (case range_error req res2 of
                (True, req1, res3) \<Rightarrow>
                  rbind (write_response sv close_connection req1 (without_content 416 res3) c)
                    (keep (req1\<lparr>rq_ranges := []\<rparr>))
              | (False, req1, res3) \<Rightarrow>
                  rbind (write_response_with_content sv (make_multipart_data_boundary (ev_draws ev))
                    close_connection req1 res3 c) (keep req1)))"

text \<open>A framed body that nobody read must not become the next request.\<close>

definition drain_body :: "environment \<Rightarrow> http_server \<Rightarrow> bool \<Rightarrow> request \<Rightarrow> response \<Rightarrow> conn \<Rightarrow> bool \<times> conn" where
  "drain_body ev sv closing req res c =
     (if \<not> rq_body_consumed req \<and> has_framed_body req then
        (if rs_header res ''Connection'' = ''close'' then (True, c)
         else (case read_content (ev_avail ev) req (sv_payload_max_length sv) (\<lambda>d offset n u. (True, u)) False () (conn_in c) of
             (b, stat, u, req1, s) \<Rightarrow> (closing \<or> \<not> b, c\<lparr>conn_in := s\<rparr>)))
      else (closing, c))"

definition route_and_answer :: "environment \<Rightarrow> http_server \<Rightarrow> bool \<Rightarrow> bool \<Rightarrow> request \<Rightarrow> response \<Rightarrow> conn \<Rightarrow> request_outcome res" where
  "route_and_answer ev sv close_connection closing req res c =
     (case routing ev sv req res (conn_in c) of
        (outcome, req1, res1, s) \<Rightarrow>
          (let c1 = c\<lparr>conn_in := s\<rparr>;
               (is_routed, res2) =
                 (case outcome of
                    Routed \<Rightarrow> (True, res1)
                  | Not_Routed \<Rightarrow> (False, res1)
                  | Threw \<Rightarrow> (case sv_exception_handler sv of
                        Some f \<Rightarrow> (True, f req1 res1)
                      | None \<Rightarrow> (False, res1\<lparr>rs_status := 500\<rparr>)))
           in rbind
             (if is_routed then send_routed ev sv close_connection req1 res2 c1
              else rbind (write_response sv close_connection req1
                     (if rs_status res2 = -1 then res2\<lparr>rs_status := 404\<rparr> else res2) c1)
                   (\<lambda>(b, res, c). Inr (b, req1\<lparr>rq_ranges := []\<rparr>, res, c)))
             (\<lambda>(b, req2, res3, c2).
                case drain_body ev sv closing req2 res3 c2 of
                  (closed1, c3) \<Rightarrow> Inr \<lparr>pr_ret = b, pr_closed = closed1, pr_upgraded = False, pr_conn = c3\<rparr>)))"


subsection \<open>\<open>process_request\<close>\<close>

definition REQUEST_URI_MAX_LENGTH :: nat where "REQUEST_URI_MAX_LENGTH = 8192"

definition closes_connection :: "request \<Rightarrow> bool" where
  "closes_connection req \<longleftrightarrow> rq_header req ''Connection'' = ''close''
     \<or> rq_version req = ''HTTP/1.0'' \<and> rq_header req ''Connection'' \<noteq> ''Keep-Alive''"

definition client_address :: "http_server \<Rightarrow> string \<Rightarrow> request \<Rightarrow> string" where
  "client_address sv remote_addr req =
     (if remote_addr \<in> set (sv_trusted_proxies sv) \<and> rq_has_header req ''X-Forwarded-For'' then
        (let derived = get_client_ip (rq_header req ''X-Forwarded-For'') (sv_trusted_proxies sv) in
         if derived = [] then remote_addr else derived)
      else remote_addr)"

definition with_addresses :: "peer_addresses \<Rightarrow> request \<Rightarrow> request" where
  "with_addresses pa req = req\<lparr>rq_remote_addr := pa_remote_addr pa, rq_remote_port := pa_remote_port pa,
     rq_local_addr := pa_local_addr pa, rq_local_port := pa_local_port pa\<rparr>"

text \<open>After the handshake is ruled out the request is routed.\<close>

definition upgrade_or_route :: "environment \<Rightarrow> http_server \<Rightarrow> bool \<Rightarrow> bool \<Rightarrow> request \<Rightarrow> response \<Rightarrow> conn \<Rightarrow> request_outcome res" where
  "upgrade_or_route ev sv close_connection closing req res c =
     (if is_websocket_upgrade req then
        (case run_hook (sv_pre_routing_handler sv) req res of
           (True, res1) \<Rightarrow>
             answer closing (write_response sv close_connection req
               (if rs_status res1 = -1 then res1\<lparr>rs_status := 200\<rparr> else res1) c)
         | (False, res1) \<Rightarrow>
             (case websocket_loop ev (sv_websocket_handlers sv) closing req c of
                Inl p \<Rightarrow> Inr p
              | Inr req1 \<Rightarrow> route_and_answer ev sv close_connection closing req1 res1 c))
      else route_and_answer ev sv close_connection closing req res c)"

text \<open>An interim response is written with two writes whose results are ignored.\<close>

definition expect_continue :: "environment \<Rightarrow> http_server \<Rightarrow> bool \<Rightarrow> bool \<Rightarrow> request \<Rightarrow> response \<Rightarrow> conn \<Rightarrow> request_outcome res" where
  "expect_continue ev sv close_connection closing req res c =
     (if rq_header req ''Expect'' = ''100-continue'' then
        (let (stat, res1) = (case sv_expect_100_continue_handler sv of None \<Rightarrow> (100, res) | Some f \<Rightarrow> f req res) in
         if stat = 100 \<or> stat = 417 then
           upgrade_or_route ev sv close_connection closing req res1
             (snd (conn_write CRLF (snd (conn_write (response_line stat) c))))
         else answer True (write_response sv True req res1 c))
      else upgrade_or_route ev sv close_connection closing req res c)"

text \<open>\<open>Accept\<close> and \<open>Range\<close>, once the addresses are known.\<close>

definition check_fields :: "environment \<Rightarrow> http_server \<Rightarrow> bool \<Rightarrow> bool \<Rightarrow> request \<Rightarrow> response \<Rightarrow> conn \<Rightarrow> request_outcome res" where
  "check_fields ev sv close_connection closing req res c =
     (case (if rq_has_header req ''Accept'' then parse_accept_header (rq_header req ''Accept'')
            else Some (rq_accept_content_types req)) of
        None \<Rightarrow> refuse sv close_connection True req res 400 c
      | Some types \<Rightarrow>
          (let req1 = req\<lparr>rq_accept_content_types := types\<rparr> in
           case (if rq_has_header req1 ''Range'' then parse_range_header (rq_header req1 ''Range'')
                 else Some (rq_ranges req1)) of
             None \<Rightarrow> refuse sv close_connection True req1 res 416 c
           | Some ranges \<Rightarrow> expect_continue ev sv close_connection closing (req1\<lparr>rq_ranges := ranges\<rparr>) res c))"

text \<open>The headers that were read before a bad one are dropped; only a hook could see them.\<close>

definition process_request :: "environment \<Rightarrow> http_server \<Rightarrow> peer_addresses \<Rightarrow> bool \<Rightarrow> conn \<Rightarrow> request_outcome res" where
  "process_request ev sv pa close_connection c =
     (case getline (conn_in c) of
        None \<Rightarrow> Inr \<lparr>pr_ret = False, pr_closed = False, pr_upgraded = False, pr_conn = c\<rparr>
      | Some (line, s1) \<Rightarrow>
          (let req0 = with_addresses pa new_request;
               res = new_response\<lparr>rs_version := ''HTTP/1.1'', rs_headers := sv_default_headers sv\<rparr>;
               c1 = c\<lparr>conn_in := s1\<rparr>
           in case parse_request_line line req0 of
                (False, req) \<Rightarrow> refuse sv close_connection False req res 400 c1
              | (True, req) \<Rightarrow>
                  (case read_headers s1 of
                     None \<Rightarrow> refuse sv close_connection False req res 400 c1
                   | Some (h, s2) \<Rightarrow>
                       (let req1 = req\<lparr>rq_headers := h\<rparr>; c2 = c\<lparr>conn_in := s2\<rparr> in
                        if 0 < rq_header_u64 req1 ''Content-Length'' \<and> rq_has_header req1 ''Transfer-Encoding''
                        then refuse sv close_connection True req1 res 400 c2
                        else if REQUEST_URI_MAX_LENGTH < length (rq_target req1)
                        then refuse sv close_connection True req1 res 414 c2
                        else check_fields ev sv close_connection (closes_connection req1)
                          (req1\<lparr>rq_remote_addr := client_address sv (pa_remote_addr pa) req1\<rparr>) res c2))))"

subsection \<open>The loop on a connection\<close>

text \<open>Every request gets a \<open>SocketStream\<close> of its own, so the input is what each of these streams
  receives; what a stream received and the request did not use is lost.  When the list ends,
  the next request did not come in time.  The result is what the loop returns and what is
  written for each request.\<close>

fun connection_loop :: "environment \<Rightarrow> http_server \<Rightarrow> peer_addresses \<Rightarrow> nat \<Rightarrow> (string \<times> nat option list) list
    \<Rightarrow> (bool \<times> string list) res" where
  "connection_loop ev sv pa n [] = Inr (False, [])"
| "connection_loop ev sv pa n ((received, writes) # later) =
     (if n = 0 then Inr (False, [])
      else rbind (process_request ev sv pa (n = 1) \<lparr>conn_in = received, conn_out = [], conn_writes = writes\<rparr>) (\<lambda>p.
        if \<not> pr_ret p \<or> pr_closed p \<or> later = [] \<or> n = 1 then Inr (pr_ret p, [conn_out (pr_conn p)])
        else rbind (connection_loop ev sv pa (n - 1) later) (\<lambda>(b, outs). Inr (b, conn_out (pr_conn p) # outs))))"

text \<open>The assertion that the loop starts with.\<close>

definition process_and_close_socket :: "environment \<Rightarrow> http_server \<Rightarrow> peer_addresses \<Rightarrow> (string \<times> nat option list) list
    \<Rightarrow> (bool \<times> string list) res" where
  "process_and_close_socket ev sv pa streams =
     (if sv_keep_alive_max_count sv = 0 then Inl Undefined_Behaviour
      else connection_loop ev sv pa (sv_keep_alive_max_count sv) streams)"

end
