(* ===== verification/Http_Answers.thy ===== *)
theory Http_Answers
  imports Http_Server
begin

text \<open>
  What the server answers: the stages of \<open>process_request\<close> on requests that are written out as
  text, and the shape of every response.
\<close>

subsection \<open>Requests as text\<close>

definition request_line :: "string \<Rightarrow> string \<Rightarrow> string" where
  "request_line meth target = meth @ '' '' @ target @ '' HTTP/1.1''"

definition request_text :: "string \<Rightarrow> string \<Rightarrow> headers \<Rightarrow> string" where
  "request_text meth target h =
     request_line meth target @ CRLF @ concat (map header_line h) @ CRLF"

definition plain_target :: "string \<Rightarrow> bool" where
  "plain_target t \<longleftrightarrow> trimmed t \<and> length t \<le> REQUEST_URI_MAX_LENGTH
     \<and> list_all (\<lambda>c. c \<notin> {CHR '' '', CHR ''#'', CR, LF, CHR 0x00}) t"

definition plain_headers :: "headers \<Rightarrow> bool" where
  "plain_headers h \<longleftrightarrow> list_all (\<lambda>x. is_field_valid (fst x) (snd x)) h \<and> list_all short_field h
     \<and> length h \<le> HEADER_MAX_COUNT \<and> one_content_length h"

definition parsed_request :: "peer_addresses \<Rightarrow> string \<Rightarrow> string \<Rightarrow> headers \<Rightarrow> request" where
  "parsed_request pa meth target h =
     (with_addresses pa new_request)\<lparr>rq_method := meth, rq_target := target, rq_version := ''HTTP/1.1'',
       rq_path := decode_path_component (fst (divide CHR ''?'' target)),
       rq_params := parse_query_text (snd (divide CHR ''?'' target)) [], rq_headers := h\<rparr>"

lemma parsed_request_simps [simp]:
  "rq_method (parsed_request pa m t h) = m" "rq_headers (parsed_request pa m t h) = h"
  "rq_target (parsed_request pa m t h) = t" "rq_version (parsed_request pa m t h) = ''HTTP/1.1''"
  "rq_ranges (parsed_request pa m t h) = []" "rq_body_consumed (parsed_request pa m t h) = False"
  "rq_path (parsed_request pa m t h) = decode_path_component (fst (divide CHR ''?'' t))"
  "rq_accept_content_types (parsed_request pa m t h) = []"
  by (simp_all add: parsed_request_def with_addresses_def new_request_def)

lemma known_methods_plain:
  "m \<in> set known_methods \<Longrightarrow> trimmed m \<and> CHR '' '' \<notin> set m \<and> CR \<notin> set m \<and> LF \<notin> set m \<and> CHR 0x00 \<notin> set m \<and> length m \<le> 7"
  by (auto simp: known_methods_def trimmed_def is_space_or_tab_def CR_def LF_def)

lemma version_plain: "trimmed ''HTTP/1.1'' \<and> CHR '' '' \<notin> set ''HTTP/1.1''"
  by (simp add: trimmed_def is_space_or_tab_def)

lemma split_request_line:
  assumes "m \<in> set known_methods" "plain_target t"
  shows "split CHR '' '' (request_line m t) = [m, t, ''HTTP/1.1'']"
proof -
  have "split CHR '' '' (join (CHR '' '' # []) [m, t, ''HTTP/1.1'']) = [m, t, ''HTTP/1.1'']"
    using known_methods_plain [OF assms(1)] assms(2) version_plain
    by (intro split_join) (auto simp: plain_target_def list_all_iff npos_def)
  then show ?thesis by (simp add: request_line_def)
qed

lemma request_line_chars:
  assumes "m \<in> set known_methods" "plain_target t" "c \<in> set (request_line m t)"
  shows "c \<noteq> LF \<and> c \<noteq> CHR 0x00"
proof -
  have "c \<in> set m \<or> c \<in> set t \<or> c \<in> set '' HTTP/1.1''" using assms(3) by (auto simp: request_line_def)
  then show ?thesis
    using known_methods_plain [OF assms(1)] assms(2) by (auto simp: plain_target_def list_all_iff LF_def)
qed

lemma parse_good_request_line:
  assumes "m \<in> set known_methods" "plain_target t"
  shows "parse_request_line (request_line m t @ CRLF) (with_addresses pa new_request)
    = (True, parsed_request pa m t [])"
proof -
  let ?l = "request_line m t"
  have c: "c_str (?l @ CRLF) = ?l @ CRLF"
    using request_line_chars [OF assms] by (auto simp: c_str_def takeWhile_eq_all_conv CRLF_split CR_def LF_def)
  have tk: "take (length (?l @ CRLF) - 2) (?l @ CRLF) = ?l" by (simp add: CRLF_split)
  have f: "without_fragment t = t"
    using assms(2) by (auto simp: without_fragment_def plain_target_def list_all_iff takeWhile_eq_all_conv)
  show ?thesis
    unfolding parse_request_line_def c tk split_request_line [OF assms] Let_def
    using assms(1) end_with_crlf_append [of ?l] f
    by (simp add: parsed_request_def with_addresses_def new_request_def split: prod.split)
qed

lemma getline_request_line:
  assumes "m \<in> set known_methods" "plain_target t"
  shows "getline (request_text m t h @ rest)
    = Some (request_line m t @ CRLF, concat (map header_line h) @ CRLF @ rest)"
proof -
  have "LF \<notin> set (request_line m t)" using request_line_chars [OF assms] by blast
  moreover have "length (request_line m t) < MAX_LINE_LENGTH - 1"
    using known_methods_plain [OF assms(1)] assms(2)
    by (simp add: request_line_def plain_target_def MAX_LINE_LENGTH_def REQUEST_URI_MAX_LENGTH_def)
  ultimately have "getline (request_line m t @ CRLF @ concat (map header_line h) @ CRLF @ rest)
      = Some (request_line m t @ CRLF, concat (map header_line h) @ CRLF @ rest)" by (rule getline_crlf)
  then show ?thesis by (simp add: request_text_def)
qed

lemma read_plain_headers:
  assumes "plain_headers h"
  shows "read_headers (concat (map header_line h) @ CRLF @ rest) = Some (h, rest)"
proof -
  have f: "filter (\<lambda>x. is_field_valid (fst x) (snd x)) h = h"
    using assms by (auto simp: plain_headers_def list_all_iff intro: filter_True)
  show ?thesis
    using headers_roundtrip [of h rest] assms by (simp add: write_headers_def f plain_headers_def)
qed

lemma process_text:
  assumes "m \<in> set known_methods" "plain_target t" "plain_headers h"
  shows "process_request ev sv pa fin \<lparr>conn_in = request_text m t h @ rest, conn_out = out, conn_writes = ws\<rparr> =
    (let req = parsed_request pa m t h;
         res = new_response\<lparr>rs_version := ''HTTP/1.1'', rs_headers := sv_default_headers sv\<rparr>;
         c = \<lparr>conn_in = rest, conn_out = out, conn_writes = ws\<rparr> in
     if 0 < rq_header_u64 req ''Content-Length'' \<and> rq_has_header req ''Transfer-Encoding''
     then refuse sv fin True req res 400 c
     else check_fields ev sv fin (closes_connection req)
       (req\<lparr>rq_remote_addr := client_address sv (pa_remote_addr pa) req\<rparr>) res c)"
proof -
  have p: "(parsed_request pa m t [])\<lparr>rq_headers := h\<rparr> = parsed_request pa m t h"
    by (simp add: parsed_request_def)
  have l: "\<not> REQUEST_URI_MAX_LENGTH < length t" using assms(2) by (simp add: plain_target_def)
  show ?thesis
    unfolding process_request_def
    by (simp add: getline_request_line [OF assms(1,2)] parse_good_request_line [OF assms(1,2)]
        read_plain_headers [OF assms(3)] p l Let_def)
qed

subsection \<open>Requests without a body\<close>

text \<open>Fields that make nothing but routing happen.\<close>

definition quiet_headers :: "headers \<Rightarrow> bool" where
  "quiet_headers h \<longleftrightarrow> plain_headers h
     \<and> list_all (\<lambda>n. equal_range h n = []) [''Range'', ''Expect'', ''Upgrade'', ''Content-Length'', ''Transfer-Encoding'']
     \<and> header_text h ''Connection'' \<noteq> ''close'' \<and> parse_accept_header (header_text h ''Accept'') \<noteq> None"

definition routed_request :: "http_server \<Rightarrow> peer_addresses \<Rightarrow> string \<Rightarrow> string \<Rightarrow> headers \<Rightarrow> request" where
  "routed_request sv pa m t h =
     (let req = parsed_request pa m t h in
      req\<lparr>rq_remote_addr := client_address sv (pa_remote_addr pa) req,
        rq_accept_content_types := (if has_header h ''Accept'' then the (parse_accept_header (header_text h ''Accept'')) else [])\<rparr>)"

lemma routed_request_simps [simp]:
  "rq_method (routed_request sv pa m t h) = m" "rq_headers (routed_request sv pa m t h) = h"
  "rq_ranges (routed_request sv pa m t h) = []" "rq_body_consumed (routed_request sv pa m t h) = False"
  "rq_path (routed_request sv pa m t h) = decode_path_component (fst (divide CHR ''?'' t))"
  "rq_version (routed_request sv pa m t h) = ''HTTP/1.1''"
  by (simp_all add: routed_request_def Let_def)

lemma quiet_lookups:
  assumes "quiet_headers h"
  shows "header_text h ''Range'' = []" "\<not> has_header h ''Range''" "header_text h ''Expect'' = []"
    "\<not> has_header h ''Content-Length''" "\<not> has_header h ''Transfer-Encoding''"
    "equal_range h ''Upgrade'' = []" "get_header_value_u64 h ''Content-Length'' 0 0 = (0, False)"
    "\<not> is_chunked_transfer_encoding h" "header_text h ''Connection'' \<noteq> ''close''"
    "parse_accept_header (header_text h ''Accept'') \<noteq> None"
proof -
  have e: "equal_range h ''Range'' = []" "equal_range h ''Expect'' = []" "equal_range h ''Upgrade'' = []"
    "equal_range h ''Content-Length'' = []" "equal_range h ''Transfer-Encoding'' = []"
    and r: "header_text h ''Connection'' \<noteq> ''close''" "parse_accept_header (header_text h ''Accept'') \<noteq> None"
    using assms by (simp_all add: quiet_headers_def)
  show "header_text h ''Range'' = []" "\<not> has_header h ''Range''" "header_text h ''Expect'' = []"
    "\<not> has_header h ''Content-Length''" "\<not> has_header h ''Transfer-Encoding''"
    by (simp_all add: known_header known_names_def e)
  show "get_header_value_u64 h ''Content-Length'' 0 0 = (0, False)" by (simp add: get_header_value_u64_def e)
  show "\<not> is_chunked_transfer_encoding h" by (simp add: is_chunked_transfer_encoding_def e)
  show "equal_range h ''Upgrade'' = []" by (rule e)
qed (use assms in \<open>simp_all add: quiet_headers_def\<close>)

lemma process_quiet:
  assumes "m \<in> set known_methods" "plain_target t" "quiet_headers h"
  shows "process_request ev sv pa fin \<lparr>conn_in = request_text m t h @ rest, conn_out = out, conn_writes = ws\<rparr> =
    route_and_answer ev sv fin False (routed_request sv pa m t h)
      (new_response\<lparr>rs_version := ''HTTP/1.1'', rs_headers := sv_default_headers sv\<rparr>)
      \<lparr>conn_in = rest, conn_out = out, conn_writes = ws\<rparr>"
proof -
  note q = quiet_lookups [OF assms(3)]
  have ph: "plain_headers h" using assms(3) by (simp add: quiet_headers_def)
  obtain types where a: "parse_accept_header (header_text h ''Accept'') = Some types" using q(10) by blast
  have rr: "(parsed_request pa m t h)\<lparr>rq_remote_addr := x, rq_accept_content_types := ts, rq_ranges := []\<rparr>
      = (parsed_request pa m t h)\<lparr>rq_remote_addr := x, rq_accept_content_types := ts\<rparr>" for x ts
    by (simp add: parsed_request_def with_addresses_def new_request_def)
  have up: "\<not> is_websocket_upgrade (routed_request sv pa m t h)"
    by (simp add: is_websocket_upgrade_def q(6))
  have cl: "\<not> closes_connection (parsed_request pa m t h)"
    using q(9) by (simp add: closes_connection_def rq_header_def)
  show ?thesis
    unfolding process_text [OF assms(1,2) ph] Let_def
    using up cl a q
    by (auto simp: rq_has_header_def rq_header_def check_fields_def expect_continue_def upgrade_or_route_def
        Let_def routed_request_def rr)
qed

lemma expect_content_quiet: "quiet_headers h \<Longrightarrow> rq_headers req = h \<Longrightarrow> \<not> has_framed_body req"
  using quiet_lookups [of h] by (simp add: has_framed_body_def rq_header_u64_def)

subsection \<open>Sending a page\<close>

lemma show_nat_valid: "is_field_content (show_nat n)"
proof -
  have v: "is_field_vchar c" if "c \<in> set (show_nat n)" for c
    using show_nat_digits [of n] that
    by (auto simp: is_field_vchar_def is_vchar_def byte_def isdigit_def)
  then show ?thesis by (auto simp: field_content_iff list_all_iff)
qed

lemma show_nat_length: "n < 10 ^ Suc k \<Longrightarrow> length (show_nat n) \<le> Suc k"
proof (induction k arbitrary: n)
  case (Suc k)
  show ?case
  proof (cases "n < 10")
    case False
    have "n div 10 < 10 ^ Suc k" using Suc.prems by (simp add: div_less_iff_less_mult)
    then show ?thesis using Suc.IH [of "n div 10"] False by (subst show_nat.simps) simp
  qed (subst show_nat.simps, simp)
qed (subst show_nat.simps, simp)

lemma show_size_length: "n \<le> MAX_STRING \<Longrightarrow> length (show_nat n) \<le> 19"
  using show_nat_length [of n 18] by (simp add: MAX_STRING_def)

definition page_headers :: "bool \<Rightarrow> string \<Rightarrow> string \<Rightarrow> headers" where
  "page_headers fin t page =
     (let connection = (if fin then (''Connection'', ''close'') else (''Keep-Alive'', ''timeout=5, max=100'')) in
      if page = [] then [(''Content-Type'', t), connection, (''Content-Length'', ''0'')]
      else [(''Content-Type'', t), (''Content-Length'', show_nat (length page)), connection])"

lemma digit_texts: "char_of (48 :: nat) = CHR ''0''" "char_of (49 :: nat) = CHR ''1''" "char_of (53 :: nat) = CHR ''5''"
  using char_of_char [of "CHR ''0''"] char_of_char [of "CHR ''1''"] char_of_char [of "CHR ''5''"] by simp_all

lemma show_nat_0: "show_nat 0 = ''0''"
  by (subst show_nat.simps) (simp add: digit_chr_def digit_texts)

lemma keep_alive_text: "show_int 5 = ''5''" "show_nat 100 = ''100''"
proof -
  have "show_nat 5 = ''5''" "show_nat 1 = ''1''"
    by (subst show_nat.simps, simp add: digit_chr_def digit_texts)+
  then show "show_int 5 = ''5''" "show_nat 100 = ''100''"
    by (simp_all add: show_int_def show_nat.simps [of 100] show_nat.simps [of 10] digit_chr_def digit_texts)
qed

lemma page_names_valid:
  "is_field_valid ''Content-Length'' (show_nat n)" "is_field_valid ''Connection'' ''close''"
  "is_field_valid ''Keep-Alive'' ''timeout=5, max=100''" "is_field_name ''Content-Type''"
  "is_field_valid ''Content-Length'' ''0''"
proof -
  show "is_field_valid ''Content-Length'' (show_nat n)" for n
    by (simp add: is_field_valid_def is_field_value_def show_nat_valid is_field_name_def is_field_token_def
        is_token_char_def is_ascii_alnum_def is_ascii_alpha_def byte_def)
  from this [of 0] show "is_field_valid ''Content-Length'' ''0''" by (simp add: show_nat_0)
qed (simp_all add: is_field_valid_def is_field_value_def field_content_iff is_field_name_def is_field_token_def
    is_token_char_def is_ascii_alnum_def is_ascii_alpha_def is_ascii_digit_def byte_def is_field_vchar_def
    is_vchar_def is_obs_text_def is_space_or_tab_def)

lemma page_headers_good:
  assumes "is_field_value t" "length t < 8000" "length page \<le> MAX_STRING"
  shows "plain_headers (page_headers fin t page)"
    "equal_range (page_headers fin t page) ''Content-Length'' = [show_nat (length page)]"
    "equal_range (page_headers fin t page) ''Content-Type'' = [t]"
proof -
  have ct: "is_field_valid ''Content-Type'' t" using page_names_valid(4) assms(1) by (simp add: is_field_valid_def)
  show cl: "equal_range (page_headers fin t page) ''Content-Length'' = [show_nat (length page)]"
    and "equal_range (page_headers fin t page) ''Content-Type'' = [t]"
    by (simp_all add: page_headers_def Let_def equal_range_def case_equal_def show_nat_0)
  have "length (show_nat (length page)) \<le> 19" using assms(3) by (rule show_size_length)
  then have "list_all short_field (page_headers fin t page)"
    using assms(2) by (simp add: page_headers_def Let_def short_field_def)
  moreover have "list_all (\<lambda>x. is_field_valid (fst x) (snd x)) (page_headers fin t page)"
    using ct page_names_valid by (simp add: page_headers_def Let_def)
  moreover have "length (page_headers fin t page) \<le> HEADER_MAX_COUNT"
    by (simp add: page_headers_def Let_def HEADER_MAX_COUNT_def)
  ultimately show "plain_headers (page_headers fin t page)"
    by (simp add: plain_headers_def one_content_length_def cl)
qed

definition page_response :: "string \<Rightarrow> string \<Rightarrow> response" where
  "page_response t page = set_content page t (new_response\<lparr>rs_version := ''HTTP/1.1'', rs_headers := []\<rparr>)"

definition plain_server :: "handlers \<Rightarrow> http_server" where
  "plain_server hs = new_http_server\<lparr>sv_get_handlers := hs\<rparr>"

lemma plain_server_simps [simp]:
  "sv_error_handler (plain_server hs) = None" "sv_exception_handler (plain_server hs) = None"
  "sv_pre_routing_handler (plain_server hs) = None" "sv_post_routing_handler (plain_server hs) = None"
  "sv_pre_request_handler (plain_server hs) = None" "base_dirs (sv_files (plain_server hs)) = []"
  "sv_get_handlers (plain_server hs) = hs" "sv_default_headers (plain_server hs) = []"
  "sv_keep_alive_max_count (plain_server hs) = 100" "sv_keep_alive_timeout_sec (plain_server hs) = 5"
  "sv_post_handlers (plain_server hs) = []" "sv_put_handlers (plain_server hs) = []"
  "sv_delete_handlers (plain_server hs) = []" "sv_options_handlers (plain_server hs) = []"
  "sv_patch_handlers (plain_server hs) = []" "content_handlers_for (plain_server hs) m = []"
  by (simp_all add: plain_server_def new_http_server_def content_handlers_for_def)

definition page_record :: "int \<Rightarrow> headers \<Rightarrow> string \<Rightarrow> nat \<Rightarrow> response" where
  "page_record status h page n = \<lparr>rs_version = ''HTTP/1.1'', rs_status = status, rs_headers = h, rs_body = page,
     rs_content_length = n, rs_content_provider = None, rs_chunked_provider = False, rs_file_path = [],
     rs_file_type = []\<rparr>"

lemma page_record_simps [simp]:
  "rs_status (page_record st h p n) = st" "rs_headers (page_record st h p n) = h" "rs_body (page_record st h p n) = p"
  "rs_content_length (page_record st h p n) = n" "rs_content_provider (page_record st h p n) = None"
  "rs_file_path (page_record st h p n) = []"
  "(page_record st h p n)\<lparr>rs_status := st'\<rparr> = page_record st' h p n"
  "(page_record st h p n)\<lparr>rs_content_length := n'\<rparr> = page_record st h p n'"
  "is_field_valid k v \<Longrightarrow> rs_set_header k v (page_record st h p n) = page_record st (h @ [(k, v)]) p n"
  by (simp_all add: page_record_def rs_set_header_def set_header_def emplace_def)

lemma page_response_record:
  assumes "is_field_value t"
  shows "page_response t page = page_record (-1) [(''Content-Type'', t)] page 0"
  using page_names_valid(4) assms
  by (simp add: page_response_def set_content_def rs_set_header_def set_header_def emplace_def erase_header_def
      is_field_valid_def page_record_def new_response_def)

lemma write_page_record:
  assumes "rq_ranges req = []" "conn_writes c = []"
  shows "write_response_core (plain_server hs) b fin req apply_them (page_record st h page n) c =
    (if st = -1 then Inl Undefined_Behaviour
     else let r1 = (if apply_them \<and> page \<noteq> [] then page_record st (h @ [(''Content-Length'', show_nat (length page))]) page (length page)
           else if apply_them \<and> 0 < n then page_record st (h @ [(''Content-Length'', show_nat n)]) page n
           else page_record st h page n);
         r2 = content_headers req (connection_header (plain_server hs) fin req r1)
     in Inr (True, r2, c\<lparr>conn_out := conn_out c @ response_head r2 @ (if rq_method req = ''HEAD'' then [] else page)\<rparr>))"
proof -
  have cp: "rs_content_provider (content_headers req (connection_header (plain_server hs) fin req r)) = rs_content_provider r"
    "rs_body (content_headers req (connection_header (plain_server hs) fin req r)) = rs_body r" for r
    by (simp_all add: content_headers_def connection_header_def Let_def)
  show ?thesis
    using assms page_names_valid(1) cp
    by (simp add: write_response_core_def run_hook_def apply_ranges_def start_multipart_def apply_ranges_body_def
        apply_ranges_sized_def Let_def write_data_all)
qed

lemma page_record_has: "rs_has_header (page_record st h p n) k \<longleftrightarrow> equal_range h k \<noteq> []"
  by (simp add: rs_has_header_def)

lemma equal_range_Cons: "equal_range ((k, v) # h) key = (if case_equal key k then [v] else []) @ equal_range h key"
  by (simp add: equal_range_def)

lemma equal_range_Nil: "equal_range [] key = []"
  by (simp add: equal_range_def)

lemma page_names_differ:
  "case_equal ''Content-Type'' ''Content-Type''" "\<not> case_equal ''Content-Type'' ''Content-Length''"
  "\<not> case_equal ''Content-Length'' ''Content-Type''" "\<not> case_equal ''Content-Length'' ''Connection''"
  "\<not> case_equal ''Content-Length'' ''Keep-Alive''"
  by (simp_all add: case_equal_def to_lower_def lower_byte_def byte_def)

lemma page_headers_written:
  assumes "rq_header req ''Connection'' \<noteq> ''close''" "rq_method req \<noteq> ''HEAD''"
  shows "content_headers req (connection_header (plain_server hs) fin req
      (if page = [] then page_record 200 [(''Content-Type'', t)] [] 0
       else page_record 200 [(''Content-Type'', t), (''Content-Length'', show_nat (length page))] page (length page)))
    = page_record 200 (page_headers fin t page) page (length page)"
  using assms page_names_valid
  by (cases "page = []"; cases fin)
     (simp_all add: connection_header_def content_headers_def Let_def page_record_has equal_range_Cons
       equal_range_Nil page_names_differ keep_alive_text page_headers_def)

lemma send_page:
  assumes "is_field_value t" "rq_ranges req = []" "rq_header req ''Connection'' \<noteq> ''close''" "rq_method req \<noteq> ''HEAD''"
    "conn_writes c = []"
  shows "send_routed ev (plain_server hs) fin req (page_response t page) c
    = Inr (True, req, page_record 200 (page_headers fin t page) page (length page),
        c\<lparr>conn_out := conn_out c @ response_line 200 @ write_headers (page_headers fin t page) @ page\<rparr>)"
proof -
  have "write_response_with_content (plain_server hs) b fin req (page_record 200 [(''Content-Type'', t)] page 0) c
    = Inr (True, page_record 200 (page_headers fin t page) page (length page),
        c\<lparr>conn_out := conn_out c @ response_line 200 @ write_headers (page_headers fin t page) @ page\<rparr>)" for b
    using page_headers_written [OF assms(3,4), of hs fin page t] assms
    by (cases "page = []")
       (simp_all add: write_response_with_content_def write_page_record Let_def response_head_def)
  then show ?thesis
    using assms(1,2)
    by (simp add: send_routed_def page_response_record load_file_content_def range_error_def Let_def)
qed

subsection \<open>Servers with one page\<close>

lemma literal_match:
  "list_all (\<lambda>c. c \<notin> set regex_specials) pat \<Longrightarrow> regex_match re pat path \<longleftrightarrow> path = pat"
  by (simp add: regex_match_def)

lemma route_quiet:
  assumes "quiet_headers h"
  shows "routing ev (plain_server hs) (routed_request sv pa m t h) res s =
    (case handlers_for (plain_server hs) m of
       None \<Rightarrow> (Not_Routed, routed_request sv pa m t h, res\<lparr>rs_status := 400\<rparr>, s)
     | Some hs' \<Rightarrow> dispatch_request ev (plain_server hs) hs' (routed_request sv pa m t h) res s)"
  by (cases "expect_content (routed_request sv pa m t h)")
     (simp_all add: routing_def run_hook_def handle_file_request_def)

lemma drain_quiet: "quiet_headers h \<Longrightarrow> rq_headers req = h \<Longrightarrow> drain_body ev sv closing req res c = (closing, c)"
  by (simp add: drain_body_def expect_content_quiet)

lemma get_page:
  assumes "list_all (\<lambda>c. c \<notin> set regex_specials) pat"
    "\<And>req. f req (new_response\<lparr>rs_version := ''HTTP/1.1'', rs_headers := []\<rparr>) = (False, page_response ct page)"
    "is_field_value ct" "plain_target t" "quiet_headers h" "decode_path_component (fst (divide CHR ''?'' t)) = pat"
  shows "process_request ev (plain_server [(Regex_Matcher pat, f)]) pa fin
      \<lparr>conn_in = request_text ''GET'' t h @ rest, conn_out = [], conn_writes = []\<rparr>
    = Inr \<lparr>pr_ret = True, pr_closed = False, pr_upgraded = False,
        pr_conn = \<lparr>conn_in = rest, conn_out = response_line 200 @ write_headers (page_headers fin ct page) @ page,
          conn_writes = []\<rparr>\<rparr>"
proof -
  let ?sv = "plain_server [(Regex_Matcher pat, f)]"
  have g: "''GET'' \<in> set known_methods" by (simp add: known_methods_def)
  define req where "req = (routed_request ?sv pa ''GET'' t h)\<lparr>rq_path_params := [], rq_matched_route := pat\<rparr>"
  have rq: "rq_method req = ''GET''" "rq_headers req = h" "rq_ranges req = []"
    by (simp_all add: req_def)
  have ne: "\<not> expect_content req" using rq expect_content_quiet [OF assms(5) rq(2)] by (simp add: expect_content_def)
  have d: "routing ev ?sv (routed_request ?sv pa ''GET'' t h) (new_response\<lparr>rs_version := ''HTTP/1.1'', rs_headers := []\<rparr>) rest
      = (Routed, req, page_response ct page, rest)"
    using ne assms(2,6)
    by (simp add: route_quiet [OF assms(5)] handlers_for_def literal_match [OF assms(1)] run_matched_def run_hook_def
        set_status_def req_def [symmetric])
  have "send_routed ev ?sv fin req (page_response ct page) \<lparr>conn_in = rest, conn_out = [], conn_writes = []\<rparr>
    = Inr (True, req, page_record 200 (page_headers fin ct page) page (length page),
       \<lparr>conn_in = rest, conn_out = response_line 200 @ write_headers (page_headers fin ct page) @ page, conn_writes = []\<rparr>)"
    using send_page [OF assms(3) rq(3)] quiet_lookups(9) [OF assms(5)] by (simp add: rq_header_def rq(1,2))
  then show ?thesis
    by (simp add: process_quiet [OF g assms(4,5)] route_and_answer_def d drain_quiet [OF assms(5) rq(2)])
qed

definition error_headers :: "string \<Rightarrow> headers" where
  "error_headers m = [(''Connection'', ''close''), (''Content-Length'', ''0'')]
     @ (if m = ''HEAD'' then [(''Accept-Ranges'', ''bytes'')] else [])"

lemma error_names:
  "is_field_valid ''Accept-Ranges'' ''bytes''" "\<not> case_equal ''Content-Length'' ''Connection''"
  "\<not> case_equal ''Accept-Ranges'' ''Connection''" "\<not> case_equal ''Accept-Ranges'' ''Content-Length''"
proof -
  show "is_field_valid ''Accept-Ranges'' ''bytes''"
    by (simp add: is_field_valid_def is_field_value_def field_content_iff is_field_name_def is_field_token_def
      is_token_char_def is_ascii_alnum_def is_ascii_alpha_def byte_def is_field_vchar_def is_vchar_def)
qed (simp_all add: case_equal_def)

lemma send_error:
  assumes "400 \<le> st" "conn_writes c = []"
  shows "write_response (plain_server hs) fin req (page_record st [] [] 0) c
    = Inr (True, page_record st (error_headers (rq_method req)) [] 0,
        c\<lparr>conn_out := conn_out c @ response_line st @ write_headers (error_headers (rq_method req))\<rparr>)"
  using assms page_names_valid error_names
  by (simp add: write_response_def write_page_record Let_def connection_header_def content_headers_def
      page_record_has equal_range_Cons equal_range_Nil error_headers_def response_head_def)

lemma new_response_record:
  "new_response\<lparr>rs_version := ''HTTP/1.1'', rs_headers := []\<rparr> = page_record (-1) [] [] 0"
  by (simp add: new_response_def page_record_def)

lemma plain_handlers:
  assumes "m \<in> set known_methods" "m \<notin> {''GET'', ''HEAD''}"
  shows "handlers_for (plain_server hs) m = (if m \<in> {''CONNECT'', ''TRACE'', ''PRI''} then None else Some [])"
proof -
  have "m \<in> {''POST'', ''PUT'', ''DELETE'', ''CONNECT'', ''OPTIONS'', ''TRACE'', ''PATCH'', ''PRI''}"
    using assms by (auto simp: known_methods_def)
  then show ?thesis by (elim insertE emptyE) (simp_all add: handlers_for_def)
qed

lemma no_page:
  assumes "list_all (\<lambda>c. c \<notin> set regex_specials) pat" "plain_target t" "quiet_headers h" "m \<in> set known_methods"
    "decode_path_component (fst (divide CHR ''?'' t)) \<noteq> pat \<or> m \<notin> {''GET'', ''HEAD''}"
    "st = (if m \<in> {''CONNECT'', ''TRACE'', ''PRI''} then 400 else 404)"
  shows "process_request ev (plain_server [(Regex_Matcher pat, f)]) pa fin
      \<lparr>conn_in = request_text m t h @ rest, conn_out = [], conn_writes = []\<rparr>
    = Inr \<lparr>pr_ret = True, pr_closed = False, pr_upgraded = False,
        pr_conn = \<lparr>conn_in = rest, conn_out = response_line st @ write_headers (error_headers m), conn_writes = []\<rparr>\<rparr>"
proof -
  let ?sv = "plain_server [(Regex_Matcher pat, f)]"
  obtain req where r: "routing ev ?sv (routed_request ?sv pa m t h) (page_record (-1) [] [] 0) rest
      = (Not_Routed, req, page_record (if st = 400 then 400 else -1) [] [] 0, rest)"
    "rq_headers req = h" "rq_method req = m"
  proof (cases "m \<in> {''GET'', ''HEAD''}")
    case True
    then show ?thesis
      using that [of "(routed_request ?sv pa m t h)\<lparr>rq_path_params := []\<rparr>"] assms(5,6)
      by (auto simp: route_quiet [OF assms(3)] handlers_for_def literal_match [OF assms(1)])
  next
    case False
    then show ?thesis
      using that [of "routed_request ?sv pa m t h"] assms(6) plain_handlers [OF assms(4) False]
      by (cases "m \<in> {''CONNECT'', ''TRACE'', ''PRI''}") (simp_all add: route_quiet [OF assms(3)])
  qed
  have st: "st = 400 \<or> st = 404" using assms(6) by (simp split: if_splits)
  define c where "c = \<lparr>conn_in = rest, conn_out = [], conn_writes = []\<rparr>"
  have "write_response ?sv fin req (page_record st [] [] 0) c
      = Inr (True, page_record st (error_headers m) [] 0, c\<lparr>conn_out := response_line st @ write_headers (error_headers m)\<rparr>)"
    using send_error [of st c "[(Regex_Matcher pat, f)]" fin req] st r(3) by (auto simp: c_def)
  moreover have "(if rs_status (page_record (if st = 400 then 400 else -1) [] [] 0) = -1
      then (page_record (if st = 400 then 400 else -1) [] [] 0)\<lparr>rs_status := 404\<rparr>
      else page_record (if st = 400 then 400 else -1) [] [] 0) = page_record st [] [] 0"
    using st by auto
  moreover have "drain_body ev ?sv False (req\<lparr>rq_ranges := []\<rparr>) res c' = (False, c')" for res c'
    using r(2) by (intro drain_quiet [OF assms(3)]) simp
  moreover have "c\<lparr>conn_in := rest\<rparr> = c" by (simp add: c_def)
  ultimately have "route_and_answer ev ?sv fin False (routed_request ?sv pa m t h) (page_record (-1) [] [] 0) c
      = Inr \<lparr>pr_ret = True, pr_closed = False, pr_upgraded = False,
          pr_conn = c\<lparr>conn_out := response_line st @ write_headers (error_headers m)\<rparr>\<rparr>"
    using r(1) by (simp add: route_and_answer_def c_def)
  then show ?thesis
    unfolding process_quiet [OF assms(4,2,3)] c_def plain_server_simps new_response_record by simp
qed

subsection \<open>Requests that are refused\<close>

lemma refuse_plain:
  assumes "400 \<le> st" "conn_writes c = []"
  shows "refuse (plain_server hs) fin closing req (new_response\<lparr>rs_version := ''HTTP/1.1'', rs_headers := []\<rparr>) st c
    = Inr \<lparr>pr_ret = True, pr_closed = closing, pr_upgraded = False,
        pr_conn = c\<lparr>conn_out := conn_out c @ response_line st @ write_headers (error_headers (rq_method req))\<rparr>\<rparr>"
  using send_error [OF assms] by (simp add: refuse_def answer_def new_response_record)


lemma ambiguous_example:
  "plain_headers [(''Content-Length'', ''3''), (''Transfer-Encoding'', ''chunked'')]"
  "0 < fst (get_header_value_u64 [(''Content-Length'', ''3''), (''Transfer-Encoding'', ''chunked'')] ''Content-Length'' 0 0)"
proof -
  let ?h = "[(''Content-Length'', ''3''), (''Transfer-Encoding'', ''chunked'')]"
  have e: "equal_range ?h ''Content-Length'' = [''3'']" by (simp add: equal_range_def case_equal_def)
  have "is_field_valid ''Content-Length'' ''3''" "is_field_valid ''Transfer-Encoding'' ''chunked''"
    by (simp_all add: is_field_valid_def is_field_value_def field_content_iff is_field_name_def is_field_token_def
        is_token_char_def is_ascii_alnum_def is_ascii_alpha_def byte_def is_field_vchar_def is_vchar_def is_space_or_tab_def)
  then show "plain_headers ?h"
    by (simp add: plain_headers_def short_field_def HEADER_MAX_COUNT_def one_content_length_def e)
  show "0 < fst (get_header_value_u64 ?h ''Content-Length'' 0 0)"
    using header_number [of 0 ?h "''Content-Length''" 0]
    by (simp add: e is_numeric_def is_ascii_digit_def byte_def digit_val_def npos_def)
qed


text \<open>A request line that cannot be read is answered with 400 and \<open>Connection: close\<close>, but the
  connection is not closed: what comes next on it is taken for the next request.\<close>

theorem bad_request_line_keeps_connection:
  assumes "getline s = Some (line, s1)" "parse_request_line line (with_addresses pa new_request) = (False, req)"
  shows "connection_loop ev (plain_server hs) pa (Suc (Suc n)) ((s, []) # nxt # later)
    = rbind (connection_loop ev (plain_server hs) pa (Suc n) (nxt # later)) (\<lambda>(b, outs).
        Inr (b, (response_line 400 @ write_headers (error_headers (rq_method req))) # outs))"
proof -
  have "process_request ev (plain_server hs) pa False \<lparr>conn_in = s, conn_out = [], conn_writes = []\<rparr>
      = Inr \<lparr>pr_ret = True, pr_closed = False, pr_upgraded = False, pr_conn = \<lparr>conn_in = s1,
          conn_out = response_line 400 @ write_headers (error_headers (rq_method req)), conn_writes = []\<rparr>\<rparr>"
    using assms by (simp add: process_request_def refuse_plain Let_def)
  then show ?thesis by (simp del: connection_loop.simps(1) add: connection_loop.simps(2) [of _ _ _ _ s])
qed

lemma bad_line_example:
  "getline (''PING'' @ CRLF) = Some (''PING'' @ CRLF, [])"
  "parse_request_line (''PING'' @ CRLF) (with_addresses pa new_request)
    = (False, (with_addresses pa new_request)\<lparr>rq_method := ''PING''\<rparr>)"
proof -
  show "getline (''PING'' @ CRLF) = Some (''PING'' @ CRLF, [])"
    using getline_crlf [of "''PING''" "[]"] by (simp add: MAX_LINE_LENGTH_def LF_def)
  have "split CHR '' '' ''PING'' = [''PING'']"
    by (rule split_single) (simp_all add: trimmed_def is_space_or_tab_def)
  then show "parse_request_line (''PING'' @ CRLF) (with_addresses pa new_request)
      = (False, (with_addresses pa new_request)\<lparr>rq_method := ''PING''\<rparr>)"
    using end_with_crlf_append [of "''PING''"]
    by (simp add: parse_request_line_def c_str_def CRLF_split CR_def LF_def)
qed

theorem bad_request_line_keeps_connection_witness:
  "\<forall>ev pa. connection_loop ev (plain_server []) pa 2 [(''PING'' @ CRLF, []), (''PING'' @ CRLF, [])]
    = Inr (True, [response_line 400 @ write_headers (error_headers ''PING''),
        response_line 400 @ write_headers (error_headers ''PING'')])"
proof -
  have "connection_loop ev (plain_server []) pa 1 [(''PING'' @ CRLF, [])]
      = Inr (True, [response_line 400 @ write_headers (error_headers ''PING'')])" for ev pa
    using bad_line_example by (simp add: process_request_def refuse_plain Let_def with_addresses_def)
  moreover have "rq_method ((with_addresses pa new_request)\<lparr>rq_method := ''PING''\<rparr>) = ''PING''" for pa by simp
  ultimately show ?thesis
    using bad_request_line_keeps_connection [OF bad_line_example, where hs = "[]" and n = 0
      and nxt = "(''PING'' @ CRLF, [])" and later = "[]"]
    by (simp add: numeral_2_eq_2 del: connection_loop.simps)
qed

end
