(* ===== verification/Metrics_Page.thy ===== *)
theory Metrics_Page
  imports Http_Answers Server_Loop
begin

text \<open>
  The metrics endpoint, from \<open>src/utils/MetricsServer.cpp\<close>: an HTTP server with the one route
  \<open>/metrics\<close>, what it answers, and what it does on a connection that is kept alive.
\<close>

subsection \<open>The server\<close>

text \<open>The handler of the route: what \<open>exportMetrics\<close> does to the metrics is \<open>scrape\<close>.\<close>

definition metrics_route :: "string option \<Rightarrow> cpu_reading \<Rightarrow> metrics \<Rightarrow> handler" where
  "metrics_route status reading m req res =
     (case metrics_handler status reading m of
        Inl e \<Rightarrow> (True, res)
      | Inr ((page, content_type), m1) \<Rightarrow> (False, set_content page content_type res))"

definition startMetricsServer :: "string option \<Rightarrow> cpu_reading \<Rightarrow> metrics \<Rightarrow> http_server res" where
  "startMetricsServer status reading m = server_get ''/metrics'' (metrics_route status reading m) new_http_server"

subsection \<open>Its parts\<close>

lemma start_metrics_server:
  "startMetricsServer status reading m = Inr (plain_server [(Regex_Matcher ''/metrics'', metrics_route status reading m)])"
  by (simp add: startMetricsServer_def server_get_def make_matcher_def has_infix_def plain_server_def new_http_server_def)

lemma metrics_literal: "list_all (\<lambda>c. c \<notin> set regex_specials) ''/metrics''"
  by (simp add: regex_specials_def)

lemma text_plain: "is_field_value ''text/plain''" "length ''text/plain'' < 8000"
  by (simp_all add: is_field_value_def field_content_iff is_field_vchar_def is_vchar_def byte_def)

lemma metrics_route_page:
  "metrics_handler status reading m = Inr ((page, ct), m1) \<Longrightarrow>
     metrics_route status reading m req (new_response\<lparr>rs_version := ''HTTP/1.1'', rs_headers := []\<rparr>)
       = (False, page_response ct page)"
  by (simp add: metrics_route_def page_response_def)

lemma metrics_handler_type: "metrics_handler status reading m = Inr ((page, ct), m1) \<Longrightarrow> ct = ''text/plain''"
  by (auto simp: metrics_handler_def)

lemma response_line_text: "response_line 200 = ''HTTP/1.1 200 OK'' @ CRLF"
proof -
  have "show_nat 2 = ''2''" using char_of_char [of "CHR ''2''"]
    by (subst show_nat.simps) (simp add: digit_chr_def)
  then have "show_int 200 = ''200''"
    by (simp add: show_int_def show_nat.simps [of 200] show_nat.simps [of 20] digit_chr_def digit_texts)
  then show ?thesis by (simp add: response_line_def status_message_def status_texts_def)
qed

lemma page_text_read:
  assumes "is_field_value ct" "length ct < 8000" "length page \<le> MAX_STRING"
  shows "getline (response_line 200 @ write_headers (page_headers fin ct page) @ page)
      = Some (''HTTP/1.1 200 OK'' @ CRLF, write_headers (page_headers fin ct page) @ page)"
    "read_headers (write_headers (page_headers fin ct page) @ page) = Some (page_headers fin ct page, page)"
proof -
  show "getline (response_line 200 @ write_headers (page_headers fin ct page) @ page)
      = Some (''HTTP/1.1 200 OK'' @ CRLF, write_headers (page_headers fin ct page) @ page)"
    using getline_crlf [of "''HTTP/1.1 200 OK''"] by (simp add: response_line_text MAX_LINE_LENGTH_def LF_def)
  have v: "filter (\<lambda>x. is_field_valid (fst x) (snd x)) (page_headers fin ct page) = page_headers fin ct page"
    using page_headers_good(1) [OF assms] by (auto simp: plain_headers_def list_all_iff intro: filter_True)
  have "write_headers (page_headers fin ct page) @ page
      = concat (map header_line (page_headers fin ct page)) @ CRLF @ page"
    by (simp add: write_headers_def v)
  then show "read_headers (write_headers (page_headers fin ct page) @ page) = Some (page_headers fin ct page, page)"
    using read_plain_headers [OF page_headers_good(1) [OF assms]] by simp
qed

lemma fourth_part: "\<exists>a b. x1 @ x2 @ x3 @ c @ y = a @ c @ b"
  by (metis append.assoc)

lemma page_shows_clients:
  assumes "metrics_handler status reading m = Inr ((page, ct), m1)"
  shows "\<exists>a b. page = a @ metric_block ''fluxendb_connected_clients'' ''Current number of connected clients'' ''gauge''
    (show_i32 (clients m)) @ b"
  using assms by (auto simp: metrics_handler_def exportMetrics_def Let_def split: prod.splits intro!: fourth_part)

subsection \<open>The first page of a server, and a short request\<close>

definition first_reading :: cpu_reading where
  "first_reading = \<lparr>utime_sec = 0, utime_usec = 0, stime_sec = 0, stime_usec = 0, wall_ns = 0\<rparr>"

lemma metric_block_length:
  "length (metric_block name help kind val) = 20 + 3 * length name + length help + length kind + length val"
  by (simp add: metric_block_def)

lemma zero_texts: "show_i32 0 = ''0''" "show_size 0 = ''0''" "show_int 0 = ''0''" "length (show_fixed 6 0) = 8"
proof -
  show "show_i32 0 = ''0''" "show_size 0 = ''0''" "show_int 0 = ''0''"
    by (simp_all add: show_i32_def show_size_def show_int_def show_nat_0)
  have "length (pad_digits k n) = k" for k n by (induction k arbitrary: n) auto
  then show "length (show_fixed 6 0) = 8" by (simp add: show_fixed_def round_even_def show_nat_0)
qed

lemma first_page_length:
  "\<exists>page m1. metrics_handler None first_reading no_metrics = Inr ((page, ''text/plain''), m1) \<and> length page \<le> 10000"
proof -
  obtain page m1 where p: "exportMetrics None first_reading no_metrics = Inr (page, m1)" and l: "length page \<le> 10000"
    by (simp add: exportMetrics_def add_i32_def no_metrics_def INT_MIN_def INT_MAX_def getCpuUsagePercent_def Let_def
        metric_block_length zero_texts show_nat_0 getMemoryUsageKB_def del: One_nat_def)
  then show ?thesis by (auto simp: metrics_handler_def)
qed

lemma first_page:
  "\<exists>page m1. metrics_handler None first_reading no_metrics = Inr ((page, ''text/plain''), m1)
    \<and> length page \<le> MAX_STRING \<and> length page \<le> PAYLOAD_MAX_LENGTH"
  using first_page_length by (fastforce simp: MAX_STRING_def PAYLOAD_MAX_LENGTH_def)

definition short_scrape :: "string \<times> headers \<times> string" where
  "short_scrape = (''/metrics'', [(''Host'', ''x'')], ''GET'')"

lemma short_target: "plain_target ''/metrics''" "decode_path_component (fst (divide CHR ''?'' ''/metrics'')) = ''/metrics''"
  "plain_target ''/''" "decode_path_component (fst (divide CHR ''?'' ''/'')) = ''/''"
  by (simp_all add: plain_target_def trimmed_def is_space_or_tab_def REQUEST_URI_MAX_LENGTH_def CR_def LF_def divide_def)

lemma short_headers: "quiet_headers [(''Host'', ''x'')]"
proof -
  have h: "header_text [(''Host'', ''x'')] ''Connection'' = []" "header_text [(''Host'', ''x'')] ''Accept'' = []"
    by (rule known_lookups; simp add: known_names_def equal_range_def case_equal_def)+
  have "is_field_valid ''Host'' ''x''"
    by (simp add: is_field_valid_def is_field_value_def field_content_iff is_field_name_def is_field_token_def
        is_token_char_def is_ascii_alnum_def is_ascii_alpha_def byte_def is_field_vchar_def is_vchar_def)
  then show ?thesis
    by (simp add: quiet_headers_def plain_headers_def h short_field_def HEADER_MAX_COUNT_def one_content_length_def
        equal_range_def case_equal_def parse_accept_header_def)
qed

subsection \<open>One request\<close>

text \<open>A scrape gets the page.  Any \<open>GET\<close> whose path decodes to \<open>/metrics\<close>, with any query
  and any ordinary header fields, is answered with status 200, the length of the page as
  \<open>Content-Length\<close>, the type of the page, and exactly the page that \<open>exportMetrics\<close> builds, which
  holds the gauge of the connected clients; nothing behind the request is touched.\<close>

theorem metrics_page_served:
  assumes "startMetricsServer status reading m = Inr sv" "metrics_handler status reading m = Inr ((page, ct), m1)"
    "length page \<le> MAX_STRING" "plain_target t" "quiet_headers h"
    "decode_path_component (fst (divide CHR ''?'' t)) = ''/metrics''"
  shows "\<exists>out hs r. process_request ev sv pa fin \<lparr>conn_in = request_text ''GET'' t h @ rest, conn_out = [], conn_writes = []\<rparr>
      = Inr \<lparr>pr_ret = True, pr_closed = False, pr_upgraded = False,
          pr_conn = \<lparr>conn_in = rest, conn_out = out, conn_writes = []\<rparr>\<rparr>
    \<and> getline out = Some (''HTTP/1.1 200 OK'' @ CRLF, r) \<and> read_headers r = Some (hs, page)
    \<and> equal_range hs ''Content-Length'' = [show_nat (length page)] \<and> equal_range hs ''Content-Type'' = [''text/plain'']
    \<and> (\<exists>a b. page = a @ metric_block ''fluxendb_connected_clients'' ''Current number of connected clients'' ''gauge''
          (show_i32 (clients m)) @ b)"
proof -
  have sv: "sv = plain_server [(Regex_Matcher ''/metrics'', metrics_route status reading m)]"
    using assms(1) by (simp add: start_metrics_server)
  have ct: "ct = ''text/plain''" using assms(2) by (rule metrics_handler_type)
  show ?thesis
    unfolding sv
    using get_page [where f = "metrics_route status reading m", OF metrics_literal metrics_route_page [OF assms(2)] _ assms(4-6)]
      page_text_read [OF text_plain assms(3)] page_headers_good [OF text_plain assms(3)]
      page_shows_clients [OF assms(2)] text_plain(1) ct
    by blast
qed

theorem metrics_page_served_witness:
  "\<forall>ev pa. \<exists>sv out hs r page. startMetricsServer None first_reading no_metrics = Inr sv
    \<and> process_request ev sv pa False \<lparr>conn_in = request_text ''GET'' ''/metrics'' [(''Host'', ''x'')] @ [],
        conn_out = [], conn_writes = []\<rparr>
      = Inr \<lparr>pr_ret = True, pr_closed = False, pr_upgraded = False,
          pr_conn = \<lparr>conn_in = [], conn_out = out, conn_writes = []\<rparr>\<rparr>
    \<and> getline out = Some (''HTTP/1.1 200 OK'' @ CRLF, r) \<and> read_headers r = Some (hs, page)"
proof -
  obtain page m1 where p: "metrics_handler None first_reading no_metrics = Inr ((page, ''text/plain''), m1)"
    "length page \<le> MAX_STRING" using first_page by blast
  show ?thesis
    using metrics_page_served [OF start_metrics_server p short_target(1) short_headers short_target(2), where rest = "[]"]
      start_metrics_server [of None first_reading no_metrics] by blast
qed



subsection \<open>A connection\<close>

definition good_scrape :: "string \<times> headers \<times> string \<Rightarrow> bool" where
  "good_scrape x = (case x of (t, h, rest) \<Rightarrow>
     plain_target t \<and> quiet_headers h \<and> decode_path_component (fst (divide CHR ''?'' t)) = ''/metrics'')"

definition scrape_stream :: "string \<times> headers \<times> string \<Rightarrow> string \<times> nat option list" where
  "scrape_stream x = (case x of (t, h, rest) \<Rightarrow> (request_text ''GET'' t h @ rest, []))"

definition page_text :: "bool \<Rightarrow> string \<Rightarrow> string" where
  "page_text fin page = response_line 200 @ write_headers (page_headers fin ''text/plain'' page) @ page"

lemma scrape_once:
  assumes "startMetricsServer status reading m = Inr sv" "metrics_handler status reading m = Inr ((page, ct), m1)"
    "good_scrape x"
  shows "process_request ev sv pa fin \<lparr>conn_in = fst (scrape_stream x), conn_out = [], conn_writes = snd (scrape_stream x)\<rparr>
    = Inr \<lparr>pr_ret = True, pr_closed = False, pr_upgraded = False,
        pr_conn = \<lparr>conn_in = snd (snd x), conn_out = page_text fin page, conn_writes = []\<rparr>\<rparr>"
proof -
  obtain t h rest where x: "x = (t, h, rest)" by (cases x) auto
  have sv: "sv = plain_server [(Regex_Matcher ''/metrics'', metrics_route status reading m)]"
    using assms(1) by (simp add: start_metrics_server)
  have ct: "ct = ''text/plain''" using assms(2) by (rule metrics_handler_type)
  show ?thesis
    using assms(3) get_page [where f = "metrics_route status reading m", OF metrics_literal metrics_route_page [OF assms(2)],
      of t h ev pa fin rest] text_plain(1)
    by (simp add: x sv ct good_scrape_def scrape_stream_def page_text_def)
qed

lemma scrapes_served:
  assumes "startMetricsServer status reading m = Inr sv" "metrics_handler status reading m = Inr ((page, ct), m1)"
  shows "xs \<noteq> [] \<Longrightarrow> 0 < n \<Longrightarrow> list_all good_scrape xs \<Longrightarrow>
    connection_loop ev sv pa n (map scrape_stream xs)
      = Inr (True, map (\<lambda>i. page_text (Suc i = n) page) [0..<min n (length xs)])"
proof (induction xs arbitrary: n)
  case (Cons x xs)
  obtain k where n: "n = Suc k" using Cons.prems(2) by (cases n) auto
  have p: "process_request ev sv pa (n = 1) \<lparr>conn_in = fst (scrape_stream x), conn_out = [], conn_writes = snd (scrape_stream x)\<rparr>
    = Inr \<lparr>pr_ret = True, pr_closed = False, pr_upgraded = False,
        pr_conn = \<lparr>conn_in = snd (snd x), conn_out = page_text (n = 1) page, conn_writes = []\<rparr>\<rparr>"
    using Cons.prems(3) by (intro scrape_once [OF assms]) simp
  obtain b ws where ss: "scrape_stream x = (b, ws)" by fastforce
  show ?case
  proof (cases "xs = [] \<or> k = 0")
    case True
    then show ?thesis using p n by (auto simp: ss)
  next
    case False
    have shift: "map (\<lambda>i. page_text (Suc i = Suc k) page) [0..<Suc j]
        = page_text False page # map (\<lambda>i. page_text (Suc i = k) page) [0..<j]" if "0 < k" for j
      using that by (simp add: upt_conv_Cons map_Suc_upt [symmetric] del: upt_Suc)
    have "connection_loop ev sv pa k (map scrape_stream xs)
        = Inr (True, map (\<lambda>i. page_text (Suc i = k) page) [0..<min k (length xs)])"
      using False Cons.prems(3) by (intro Cons.IH) auto
    then show ?thesis using p n False shift [of "min k (length xs)"] by (simp add: ss del: upt_Suc)
  qed
qed simp

text \<open>C34: The loop on a connection ends, and serves what it should.  Of the scrapes that come one
  after the other on one connection, the first hundred are answered, each with the page, the
  hundredth with \<open>Connection: close\<close>, whatever bytes were received behind a request; no more
  are answered, and the loop reports success.\<close>

theorem keep_alive_serves_hundred:
  assumes "startMetricsServer status reading m = Inr sv" "metrics_handler status reading m = Inr ((page, ct), m1)"
    "xs \<noteq> []" "list_all good_scrape xs"
  shows "process_and_close_socket ev sv pa (map scrape_stream xs)
    = Inr (True, map (\<lambda>i. page_text (i = 99) page) [0..<min 100 (length xs)])"
proof -
  have "sv_keep_alive_max_count sv = 100" using assms(1) by (auto simp: start_metrics_server)
  then show ?thesis
    using scrapes_served [OF assms(1,2,3) _ assms(4), of 100] by (simp add: process_and_close_socket_def)
qed

theorem keep_alive_serves_hundred_witness:
  "\<forall>ev pa. \<exists>sv page. startMetricsServer None first_reading no_metrics = Inr sv
    \<and> process_and_close_socket ev sv pa (map scrape_stream [short_scrape, short_scrape])
      = Inr (True, [page_text False page, page_text False page])"
proof -
  obtain page m1 where p: "metrics_handler None first_reading no_metrics = Inr ((page, ''text/plain''), m1)"
    using first_page by blast
  have "good_scrape short_scrape" using short_target short_headers by (simp add: good_scrape_def short_scrape_def)
  then show ?thesis
    using keep_alive_serves_hundred [OF start_metrics_server p, where xs = "[short_scrape, short_scrape]"]
      start_metrics_server [of None first_reading no_metrics]
    by (auto simp: upt_rec [of 0 2] upt_rec [of 1 2] intro!: exI [of _ page])
qed

end
