(* ===== verification/Http_Guards.thy ===== *)
theory Http_Guards
  imports Http_Answers
begin

text \<open>
  What the server protects: the address of a client behind proxies, the files outside the mount
  points, and the copies that clients keep of a file.
\<close>

subsection \<open>Forwarded addresses\<close>

lemma segments_append:
  "count_list a d + 1 < m \<Longrightarrow>
     segments d m acc (a @ d # b) = segments d m acc a @ segments d (m - count_list a d - 1) [] b"
proof (induction a arbitrary: m acc)
  case (Cons c a)
  show ?case
  proof (cases "c = d")
    case True
    then have "segments d (m - 1) [] (a @ d # b) = segments d (m - 1) [] a @ segments d (m - 1 - count_list a d - 1) [] b"
      using Cons.prems by (intro Cons.IH) simp
    then show ?thesis using True Cons.prems by simp
  next
    case False
    then show ?thesis using Cons.IH [of m "acc @ [c]"] Cons.prems by simp
  qed
qed simp

lemma segments_limit:
  "count_list s d < m \<Longrightarrow> count_list s d < m' \<Longrightarrow> segments d m acc s = segments d m' acc s"
proof (induction s arbitrary: m m' acc)
  case (Cons c s)
  show ?case
  proof (cases "c = d")
    case True
    then show ?thesis using Cons.IH [of "m - 1" "m' - 1" "[]"] Cons.prems by auto
  next
    case False
    then show ?thesis using Cons.IH [of m m' "acc @ [c]"] Cons.prems by simp
  qed
qed simp

lemma split_append:
  assumes "length a + length b + 1 < npos"
  shows "split d (a @ d # b) = split d a @ split d b"
proof -
  have c: "count_list a d \<le> length a" "count_list b d \<le> length b" by (simp_all add: count_le_length)
  have "segments d npos [] (a @ d # b) = segments d npos [] a @ segments d (npos - count_list a d - 1) [] b"
    using c assms by (intro segments_append) linarith
  moreover have "segments d (npos - count_list a d - 1) [] b = segments d npos [] b"
    using c assms by (intro segments_limit) linarith+
  ultimately show ?thesis by (simp add: split_def split_max_def)
qed

definition address :: "string \<Rightarrow> bool" where
  "address a \<longleftrightarrow> trimmed a \<and> CHR '','' \<notin> set a"

lemma last_untrusted:
  assumes "client \<notin> T" "list_all (\<lambda>p. p \<in> T) ps"
  shows "find (\<lambda>ip. ip \<notin> T) (rev (xs @ client # ps)) = Some client"
proof -
  have "find (\<lambda>ip. ip \<notin> T) (rev ps @ ys) = find (\<lambda>ip. ip \<notin> T) ys" for ys
    using assms(2) by (induction ps rule: rev_induct) auto
  then show ?thesis using assms(1) by simp
qed



subsection \<open>Files\<close>

lemma set_headers_provider [simp]: "rs_content_provider (set_headers h res) = rs_content_provider res"
  by (induction h arbitrary: res) (simp_all add: set_headers_def)

lemma not_modified_provider:
  "check_if_not_modified fs req etag mtime res = (b, res') \<Longrightarrow> rs_content_provider res' = rs_content_provider res"
  by (auto simp: check_if_not_modified_def Let_def split: if_splits)

lemma serve_file_provider:
  assumes "serve_file fs cfg e path st req res = (b, req', res')" "file_request_handler cfg = None"
    "rs_content_provider res = None" "rs_content_provider res' = Some provider"
  shows "\<exists>bytes. file_bytes fs path = Some bytes \<and> provider = Bytes_Provider bytes"
  using assms
  by (auto simp: serve_file_def Let_def set_content_provider_def split: prod.splits bool.splits option.splits if_splits
      dest!: not_modified_provider)

lemma file_request_inside:
  assumes "file_request_loop fs cfg es req res = (True, req', res')" "file_request_handler cfg = None"
    "rs_content_provider res = None" "rs_content_provider res' = Some provider"
  shows "\<exists>e \<in> set es. \<exists>sub path bytes. mounted_path e (rq_path req) = Some (sub, path) \<and> \<not> escapes_base fs e path
    \<and> file_bytes fs path = Some bytes \<and> provider = Bytes_Provider bytes"
  using assms
proof (induction es)
  case (Cons e es)
  show ?case
  proof (cases "mounted_path e (rq_path req)")
    case None
    then show ?thesis using Cons by simp
  next
    case (Some sp)
    obtain sub path where sp: "mounted_path e (rq_path req) = Some (sub, path)" using Some by (cases sp) auto
    consider "\<not> escapes_base fs e path" "fs_is_file (stat_of fs path)" "\<not> fs_is_dir (stat_of fs path)"
      | "\<not> escapes_base fs e path" "\<not> fs_is_file (stat_of fs path)" "\<not> fs_is_dir (stat_of fs path)"
      using Cons.prems sp by (auto simp: Let_def set_redirect_def split: if_splits)
    then show ?thesis
    proof cases
      case 1
      then have "serve_file fs cfg e path (stat_of fs path) req res = (True, req', res')"
        using Cons.prems(1) sp by (simp add: Let_def)
      then show ?thesis using serve_file_provider Cons.prems(2-4) sp 1(1) by (metis list.set_intros(1))
    next
      case 2
      then show ?thesis using Cons sp by (simp add: Let_def)
    qed
  qed
qed simp

lemma within_base_prefix:
  assumes "is_path_within_base r base" "CHR 0x00 \<notin> set base" "CHR 0x00 \<notin> set r"
  shows "prefix base r"
proof -
  have c: "c_str s = s" if "CHR 0x00 \<notin> set s" for s
    using that by (auto simp: c_str_def takeWhile_eq_all_conv)
  have "c_str (take (length base) r) = take (length base) r"
    using assms(3) by (intro c) (metis in_set_takeD)
  then have "take (length base) r = base" using assms(1,2) by (simp add: is_path_within_base_def strncmp_eq_def c)
  then show ?thesis by (metis take_is_prefix)
qed

text \<open>C38: Only files below a mount point are served.  The name of a file that is served is the
  directory of a mount point followed by a path that, read component by component, never leaves
  the directory it starts in, and where symbolic links really lead to is below the resolved
  directory too.\<close>

theorem served_files_inside_mount:
  assumes "handle_file_request fs cfg req res = (True, req', res')" "rs_content_provider res = None"
    "rs_content_provider res' = Some provider" "file_request_handler cfg = None"
    "\<forall>p r. realpath fs p = Some r \<longrightarrow> CHR 0x00 \<notin> set r"
    "\<forall>e \<in> set (base_dirs cfg). me_resolved_base_dir e \<noteq> [] \<and> CHR 0x00 \<notin> set (me_resolved_base_dir e)"
  shows "\<exists>e \<in> set (base_dirs cfg). \<exists>sub path bytes.
    provider = Bytes_Provider bytes \<and> file_bytes fs path = Some bytes
    \<and> (path = me_base_dir e @ sub \<or> path = me_base_dir e @ sub @ ''index.html'')
    \<and> (\<forall>base k. base \<noteq> [] \<longrightarrow> prefix base (foldl walk base (take k (path_components sub))))
    \<and> (\<forall>r. realpath fs path = Some r \<longrightarrow> prefix (me_resolved_base_dir e) r)"
proof -
  obtain e sub path bytes where e: "e \<in> set (base_dirs cfg)" "mounted_path e (rq_path req) = Some (sub, path)"
    "\<not> escapes_base fs e path" "file_bytes fs path = Some bytes" "provider = Bytes_Provider bytes"
    using file_request_inside [OF assms(1) [unfolded handle_file_request_def] assms(4,2,3)] by blast
  have sub: "is_valid_path sub" "path = me_base_dir e @ sub \<or> path = me_base_dir e @ sub @ ''index.html''"
    using e(2) by (auto simp: mounted_path_def Let_def split: if_splits)
  have "prefix (me_resolved_base_dir e) r" if "realpath fs path = Some r" for r
    using e(3) that assms(5,6) e(1) by (auto simp: escapes_base_def intro: within_base_prefix)
  then show ?thesis using e(1,4,5) sub valid_path_walk by blast
qed

definition one_file :: "string \<Rightarrow> string \<Rightarrow> file_system" where
  "one_file path bytes = \<lparr>
     stat_of = (\<lambda>p. if p = path then Some \<lparr>st_regular = True, st_directory = False, st_mtime = 7, st_size = length bytes\<rparr> else None),
     realpath = (\<lambda>p. if p = path then Some path else None),
     file_bytes = (\<lambda>p. if p = path then Some bytes else None),
     http_date = (\<lambda>t. []), parse_http_date = (\<lambda>s. - 1)\<rparr>"

definition one_mount :: file_config where
  "one_mount = \<lparr>base_dirs = [\<lparr>me_mount_point = ''/'', me_base_dir = ''/w'', me_resolved_base_dir = ''/w/'', me_headers = []\<rparr>],
     mime_map = [], default_mime = [], file_request_handler = None\<rparr>"

lemma valid_short_path: "is_valid_path ''/a''"
proof -
  have "path_components ''/a'' = [''a'']"
    by (simp add: path_components.simps [of "''/a''"] path_components.simps [of "[]"])
  then show ?thesis by (simp add: is_valid_path_def)
qed

theorem served_files_inside_mount_witness:
  "\<exists>req' res'. handle_file_request (one_file ''/w/a'' ''hi'') one_mount
      (new_request\<lparr>rq_path := ''/a''\<rparr>) new_response = (True, req', res')
    \<and> rs_content_provider res' = Some (Bytes_Provider ''hi'')
    \<and> (\<exists>e \<in> set (base_dirs one_mount). prefix (me_resolved_base_dir e) ''/w/a'')"
proof -
  let ?fs = "one_file ''/w/a'' ''hi''" and ?req = "new_request\<lparr>rq_path := ''/a''\<rparr>"
  have m: "mounted_path (hd (base_dirs one_mount)) ''/a'' = Some (''/a'', ''/w/a'')"
    using valid_short_path by (simp add: mounted_path_def one_mount_def Let_def)
  have nh: "\<not> has_header [] k" for k by (simp add: has_header_def equal_range_def)
  obtain req' res' where r: "handle_file_request ?fs one_mount ?req new_response = (True, req', res')"
    "rs_content_provider res' = Some (Bytes_Provider ''hi'')"
    using m
    by (simp add: handle_file_request_def one_mount_def one_file_def escapes_base_def is_path_within_base_def
        strncmp_eq_def c_str_def fs_is_dir_def fs_is_file_def serve_file_def Let_def check_if_not_modified_def
        rq_has_header_def new_request_def nh set_content_provider_def rs_set_header_def)
  have "\<exists>e \<in> set (base_dirs one_mount). \<exists>sub path bytes.
      Bytes_Provider ''hi'' = Bytes_Provider bytes \<and> file_bytes ?fs path = Some bytes
      \<and> (path = me_base_dir e @ sub \<or> path = me_base_dir e @ sub @ ''index.html'')
      \<and> (\<forall>base k. base \<noteq> [] \<longrightarrow> prefix base (foldl walk base (take k (path_components sub))))
      \<and> (\<forall>r. realpath ?fs path = Some r \<longrightarrow> prefix (me_resolved_base_dir e) r)"
    using r by (intro served_files_inside_mount [OF r(1) _ r(2)])
      (auto simp: one_mount_def one_file_def new_response_def split: if_splits)
  then have "\<exists>e \<in> set (base_dirs one_mount). prefix (me_resolved_base_dir e) ''/w/a''"
    by (auto simp: one_file_def split: if_splits)
  then show ?thesis using r by blast
qed

subsection \<open>Revalidation\<close>

definition etag_text :: "nat \<Rightarrow> nat \<Rightarrow> string" where
  "etag_text t n = ''W/'' @ [CHR 0x22] @ from_i_to_hex t @ ''-'' @ from_i_to_hex n @ [CHR 0x22]"

lemma hex_char_facts:
  assumes "c \<in> set (from_i_to_hex n)"
  shows "c \<noteq> CHR ''-''" "c \<noteq> CHR '',''" "c \<noteq> CHR 0x00" "c \<noteq> CHR 0x22"
  using i_to_hex_chars [OF assms] by (auto simp: is_hex_def is_ascii_digit_def byte_def)

lemma from_i_to_hex_eq: "from_i_to_hex m = from_i_to_hex n \<longleftrightarrow> m = n"
  using hex_loop_i_to_hex by (metis option.inject)

lemma etag_text_eq: "etag_text t n = etag_text t' n' \<longleftrightarrow> t = t' \<and> n = n'"
proof
  assume "etag_text t n = etag_text t' n'"
  then have e: "from_i_to_hex t @ CHR ''-'' # from_i_to_hex n = from_i_to_hex t' @ CHR ''-'' # from_i_to_hex n'"
    by (simp add: etag_text_def)
  have "CHR ''-'' \<notin> set (from_i_to_hex k)" for k using hex_char_facts(1) by blast
  then have "from_i_to_hex t = from_i_to_hex t' \<and> from_i_to_hex n = from_i_to_hex n'"
    using e by (metis append_Cons_eq_iff)
  then show "t = t' \<and> n = n'" by (simp add: from_i_to_hex_eq)
qed simp

lemma etag_text_chars: "CHR '','' \<notin> set (etag_text t n)" "CHR 0x00 \<notin> set (etag_text t n)" "trimmed (etag_text t n)"
  "etag_text t n \<noteq> ''*''"
proof -
  have "CHR '','' \<notin> set (from_i_to_hex k)" "CHR 0x00 \<notin> set (from_i_to_hex k)" for k
    using hex_char_facts [of _ k] by blast+
  then show "CHR '','' \<notin> set (etag_text t n)" "CHR 0x00 \<notin> set (etag_text t n)" "trimmed (etag_text t n)"
    "etag_text t n \<noteq> ''*''"
    by (simp_all add: etag_text_def trimmed_def is_space_or_tab_def)
qed

lemma compute_etag_text:
  "st_regular st \<Longrightarrow> 0 \<le> st_mtime st \<Longrightarrow> compute_etag (Some st) = etag_text (size_of_int (st_mtime st)) (st_size st)"
  by (simp add: compute_etag_def fs_is_file_def fs_mtime_def fs_size_def etag_text_def)

lemma etag_listed_text: "etag_listed (etag_text t n) (etag_text t' n') \<longleftrightarrow> t = t' \<and> n = n'"
  using etag_text_chars [of t' n'] by (auto simp: etag_listed_def split_single etag_text_eq)

text \<open>C39: A client that repeats the tag it was given for a file is told that nothing changed exactly
  when the time and the size of the file are the ones of that tag; otherwise it is sent the whole
  file.\<close>

theorem etag_revalidation:
  assumes "equal_range (rq_headers req) ''If-None-Match'' = [compute_etag (Some old)]"
    "st_regular old" "0 \<le> st_mtime old" "st_mtime old \<le> LLONG_MAX"
    "st_regular new" "0 \<le> st_mtime new" "st_mtime new \<le> LLONG_MAX"
    "file_bytes fs path = Some bytes" "bytes \<noteq> []" "file_request_handler cfg = None" "rs_content_provider res = None"
    "rs_status res = -1"
  shows "\<exists>req' res'. serve_file fs cfg e path (Some new) req res = (True, req', res')
    \<and> (if st_mtime new = st_mtime old \<and> st_size new = st_size old
       then rs_status res' = 304 \<and> rs_content_provider res' = None
       else rs_status res' = -1 \<and> rs_content_provider res' = Some (Bytes_Provider bytes)
         \<and> rs_content_length res' = length bytes)"
proof -
  let ?new = "etag_text (size_of_int (st_mtime new)) (st_size new)"
  let ?old = "etag_text (size_of_int (st_mtime old)) (st_size old)"
  have n: "compute_etag (Some new) = ?new" and o: "compute_etag (Some old) = ?old"
    using assms by (simp_all add: compute_etag_text)
  have k: "''If-None-Match'' \<in> set known_names" by (simp add: known_names_def)
  have "c_str ?old = ?old" using etag_text_chars(2) [of "size_of_int (st_mtime old)" "st_size old"]
    by (auto simp: c_str_def takeWhile_eq_all_conv)
  then have h: "rq_header req ''If-None-Match'' = ?old" "rq_has_header req ''If-None-Match''"
    using assms(1) by (simp_all add: rq_header_def rq_has_header_def known_header [OF k] o)
  have eq: "size_of_int (st_mtime new) = size_of_int (st_mtime old) \<longleftrightarrow> st_mtime new = st_mtime old"
    using assms by (simp add: LLONG_MAX_def eq_nat_nat_iff)
  have st: "rs_status (set_headers l r) = rs_status r" for l r by (induction l arbitrary: r) (simp_all add: set_headers_def)
  have ne: "?new \<noteq> []" by (simp add: etag_text_def)
  have c: "check_if_not_modified fs req ?new t r
      = (if st_mtime new = st_mtime old \<and> st_size new = st_size old then (True, r\<lparr>rs_status := 304\<rparr>) else (False, r))" for t r
    using ne by (simp add: check_if_not_modified_def h etag_listed_text eq)
  show ?thesis
    using assms(8-12)
    by (auto simp: serve_file_def Let_def n c st set_content_provider_def rs_set_header_def)
qed

theorem etag_revalidation_witness:
  "\<exists>req' res'. serve_file (one_file ''/w/a'' ''hi'') one_mount (hd (base_dirs one_mount)) ''/w/a''
      (stat_of (one_file ''/w/a'' ''hi'') ''/w/a'')
      (new_request\<lparr>rq_headers := [(''If-None-Match'', compute_etag (stat_of (one_file ''/w/a'' ''hi'') ''/w/a''))]\<rparr>)
      new_response = (True, req', res')
    \<and> rs_status res' = 304"
proof -
  let ?st = "\<lparr>st_regular = True, st_directory = False, st_mtime = 7, st_size = length ''hi''\<rparr>"
  have "stat_of (one_file ''/w/a'' ''hi'') ''/w/a'' = Some ?st" by (simp add: one_file_def)
  then show ?thesis
    using etag_revalidation [of "new_request\<lparr>rq_headers := [(''If-None-Match'', compute_etag (Some ?st))]\<rparr>" ?st ?st
        "one_file ''/w/a'' ''hi''" "''/w/a''" "''hi''" one_mount new_response "hd (base_dirs one_mount)"]
    by (auto simp: one_file_def one_mount_def new_response_def equal_range_def case_equal_def LLONG_MAX_def)
qed

end
