(* ===== verification/Http_Targets.thy ===== *)
theory Http_Targets
  imports Http_Answers
begin

text \<open>
  Request targets: a path and its parameters, coded by \<open>encode_path_component\<close> and
  \<open>params_to_query_str\<close> and put on a request line, are what \<open>parse_request_line\<close> reads.
\<close>

definition encoded_target :: "string \<Rightarrow> params \<Rightarrow> string" where
  "encoded_target p ps = encode_path_component p @ ''?'' @ params_to_query_str ps"

subsection \<open>Characters the codings never write\<close>

definition line_breakers :: "char list" where
  "line_breakers = [CHR '' '', CHR 0x09, CHR ''#'', CR, LF, CHR 0x00]"

lemma line_breakers_unsafe:
  "list_all (\<lambda>c. \<not> unreserved c \<and> \<not> query_safe c \<and> \<not> path_safe c \<and> c \<notin> set ''+%2B=&''
     \<and> c \<notin> set upper_hex) line_breakers"
  unfolding line_breakers_def by code_simp

lemma question_mark_unsafe: "\<not> path_safe (CHR ''?'') \<and> CHR ''?'' \<noteq> CHR ''%'' \<and> CHR ''?'' \<notin> set upper_hex"
  by code_simp

lemma escape_chars:
  assumes "x \<in> set (escape c)"
  shows "x = CHR ''%'' \<or> x \<in> set upper_hex"
proof -
  have "byte c div 16 < 16" "byte c mod 16 < 16" using byte_less [of c] by simp_all
  then have "upper_hex ! (byte c div 16) \<in> set upper_hex" "upper_hex ! (byte c mod 16) \<in> set upper_hex"
    by (simp_all add: upper_hex_nth)
  then show ?thesis using assms by (auto simp: escape_def)
qed

lemma path_chars: "x \<in> set (encode_path_component p) \<Longrightarrow> path_safe x \<or> x = CHR ''%'' \<or> x \<in> set upper_hex"
  by (auto simp: encode_path_component_def split: if_splits dest: escape_chars)

lemma query_component_chars:
  "x \<in> set (encode_query_component True s) \<Longrightarrow>
     unreserved x \<or> query_safe x \<or> x \<in> set ''+%2B'' \<or> x \<in> set upper_hex"
  by (auto simp: encode_query_component_def split: if_splits dest: escape_chars)

lemma join_chars: "x \<in> set (join sep ys) \<Longrightarrow> x \<in> set sep \<or> (\<exists>y \<in> set ys. x \<in> set y)"
  by (induction sep ys rule: join.induct) auto

lemma query_text_chars:
  assumes "x \<in> set (params_to_query_str ps)"
  shows "unreserved x \<or> query_safe x \<or> x \<in> set ''+%2B=&'' \<or> x \<in> set upper_hex"
  using join_chars [OF assms [unfolded params_to_query_str_def]] query_component_chars
  by (fastforce simp: query_pair_def)

lemma target_chars: "x \<in> set line_breakers \<Longrightarrow> x \<notin> set (encoded_target p ps)"
  using path_chars [of x p] query_text_chars [of x ps] line_breakers_unsafe
  by (auto simp: encoded_target_def list_all_iff line_breakers_def CR_def LF_def)

lemma encoded_target_plain:
  assumes "length (encoded_target p ps) \<le> REQUEST_URI_MAX_LENGTH"
  shows "plain_target (encoded_target p ps)"
proof -
  have n: "encoded_target p ps \<noteq> []" by (simp add: encoded_target_def)
  have "\<not> is_space_or_tab c" if "c \<in> set (encoded_target p ps)" for c
    using that target_chars [of c p ps] by (auto simp: is_space_or_tab_def line_breakers_def)
  then have "trimmed (encoded_target p ps)" using n by (simp add: trimmed_def)
  then show ?thesis
    using assms target_chars [of _ p ps] by (auto simp: plain_target_def list_all_iff line_breakers_def)
qed

lemma divide_target: "divide CHR ''?'' (encoded_target p ps) = (encode_path_component p, params_to_query_str ps)"
  using path_chars [of "CHR ''?''" p] question_mark_unsafe
  by (auto simp: encoded_target_def intro!: divide_at)

subsection \<open>Round trip\<close>

text \<open>C40: A path and parameters that a client codes into a target reach the handlers as they
  were: the request line is accepted and the request has that path and those parameters, whatever
  characters they hold, as long as no key is empty, no pair occurs twice, the pairs are in the order
  of the keys, and the target fits the limit.\<close>

theorem request_target_roundtrip:
  assumes "m \<in> set known_methods" "sorted (map fst ps)" "distinct ps" "list_all (\<lambda>kv. fst kv \<noteq> []) ps"
    "length ps < npos" "length (encoded_target p ps) \<le> REQUEST_URI_MAX_LENGTH"
  shows "\<exists>req. parse_request_line (request_line m (encoded_target p ps) @ CRLF) (with_addresses pa new_request) = (True, req)
    \<and> rq_method req = m \<and> rq_path req = p \<and> rq_params req = ps"
proof -
  have d: "decode_path_component (encode_path_component p) = p"
    unfolding encode_path_component_def by (rule path_component.decode_encode)
  then show ?thesis
    using parse_good_request_line [OF assms(1) encoded_target_plain [OF assms(6)], of pa]
      query_roundtrip [OF assms(2-5)]
    by (simp add: parsed_request_def with_addresses_def new_request_def divide_target)
qed

theorem request_target_roundtrip_witness:
  "\<forall>pa. \<exists>req. parse_request_line (request_line ''GET'' (encoded_target ''/a b?c'' [(''k&'', ''x=#''), (''n'', '''')]) @ CRLF)
      (with_addresses pa new_request) = (True, req)
    \<and> rq_method req = ''GET'' \<and> rq_path req = ''/a b?c'' \<and> rq_params req = [(''k&'', ''x=#''), (''n'', '''')]"
proof -
  have "length (encoded_target ''/a b?c'' [(''k&'', ''x=#''), (''n'', '''')]) \<le> REQUEST_URI_MAX_LENGTH"
    by code_simp
  then show ?thesis
    by (intro allI request_target_roundtrip) (simp_all add: known_methods_def npos_def)
qed

end
