(* ===== verification/Http_Pool.thy ===== *)
theory Http_Pool
  imports Prelude "HOL-Library.Multiset"
begin

text \<open>
  The \<open>ThreadPool\<close> of \<open>include/httplib.h\<close>: the critical sections of its operations as functions
  of the guarded state, and their interleavings as a labelled step relation.  A thread that
  waits on the condition variable may wake up whenever its predicate holds.
\<close>

subsection \<open>State\<close>

text \<open>Where a worker is: in front of the lock, in the wait, in a job, or at its end.\<close>

datatype 'j worker = Fresh | Parked | Busy 'j | Gone

text \<open>\<open>workers\<close> has every thread ever started, by number, with its \<open>is_dynamic\<close>;
  \<open>dynamic_threads\<close> and \<open>finished_threads\<close> are lists of such numbers.  The base threads come
  first.\<close>

record 'j pool =
  base_thread_count :: nat
  max_thread_count :: nat
  max_queued_requests :: nat
  idle_thread_count :: nat
  shutdown_flag :: bool
  jobs :: "'j list"
  workers :: "(bool \<times> 'j worker) list"
  dynamic_threads :: "nat list"
  finished_threads :: "nat list"

subsection \<open>Operations\<close>

definition new_thread_pool :: "nat \<Rightarrow> nat \<Rightarrow> nat \<Rightarrow> 'j pool res" where
  "new_thread_pool n max_n mqr =
     (if max_n \<noteq> 0 \<and> max_n < n then Inl Invalid_Argument
      else Inr \<lparr>base_thread_count = n, max_thread_count = (if max_n = 0 then n else max_n),
        max_queued_requests = mqr, idle_thread_count = 0, shutdown_flag = False, jobs = [],
        workers = replicate n (False, Fresh), dynamic_threads = [], finished_threads = []\<rparr>)"

text \<open>The threads on the list have left their last critical section, so joining them does not
  wait.\<close>

definition cleanup_finished_threads :: "'j pool \<Rightarrow> 'j pool" where
  "cleanup_finished_threads p = p\<lparr>finished_threads := []\<rparr>"

definition spawn_dynamic :: "'j pool \<Rightarrow> 'j pool" where
  "spawn_dynamic p = (cleanup_finished_threads p)
     \<lparr>dynamic_threads := dynamic_threads p @ [length (workers p)], workers := workers p @ [(True, Fresh)]\<rparr>"

text \<open>What \<open>enqueue\<close> returns, or \<open>None\<close> when the thread cannot be created: the exception leaves
  the job in the queue.\<close>

definition enqueue :: "bool \<Rightarrow> 'j \<Rightarrow> 'j pool \<Rightarrow> bool option \<times> 'j pool" where
  "enqueue can_spawn fn p =
     (if shutdown_flag p then (Some False, p)
      else if 0 < max_queued_requests p \<and> max_queued_requests p \<le> length (jobs p) then (Some False, p)
      else
        (let p1 = p\<lparr>jobs := jobs p @ [fn]\<rparr> in
         if idle_thread_count p1 = 0 \<and> base_thread_count p1 + length (dynamic_threads p1) < max_thread_count p1
         then if can_spawn then (Some True, spawn_dynamic p1) else (None, cleanup_finished_threads p1)
         else (Some True, p1)))"

definition set_worker :: "nat \<Rightarrow> 'j worker \<Rightarrow> 'j pool \<Rightarrow> 'j pool" where
  "set_worker t w p = p\<lparr>workers := (workers p)[t := (fst (workers p ! t), w)]\<rparr>"

definition is_dynamic :: "nat \<Rightarrow> 'j pool \<Rightarrow> bool" where
  "is_dynamic t p = fst (workers p ! t)"

definition worker_at :: "nat \<Rightarrow> 'j pool \<Rightarrow> 'j worker" where
  "worker_at t p = snd (workers p ! t)"

text \<open>The predicate of both waits.\<close>

definition work_ready :: "'j pool \<Rightarrow> bool" where
  "work_ready p \<longleftrightarrow> jobs p \<noteq> [] \<or> shutdown_flag p"

text \<open>Behind the wait: the thread ends, or has the job at the front.\<close>

definition leave_wait :: "nat \<Rightarrow> 'j pool \<Rightarrow> 'j pool" where
  "leave_wait t p =
     (let p1 = p\<lparr>idle_thread_count := idle_thread_count p - 1\<rparr> in
      if shutdown_flag p1 \<and> jobs p1 = [] then set_worker t Gone p1
      else set_worker t (Busy (hd (jobs p1))) (p1\<lparr>jobs := tl (jobs p1)\<rparr>))"

text \<open>The lock is taken and kept up to the wait, which is passed at once when there is work.\<close>

definition park :: "nat \<Rightarrow> 'j pool \<Rightarrow> 'j pool" where
  "park t p = set_worker t Parked (p\<lparr>idle_thread_count := idle_thread_count p + 1\<rparr>)"

definition enter_wait :: "nat \<Rightarrow> 'j pool \<Rightarrow> 'j pool" where
  "enter_wait t p =
     (let p1 = park t p in
      if work_ready p1 then leave_wait t p1 else p1)"

definition move_to_finished :: "nat \<Rightarrow> 'j pool \<Rightarrow> 'j pool" where
  "move_to_finished t p =
     (if t \<in> set (dynamic_threads p)
      then p\<lparr>dynamic_threads := remove1 t (dynamic_threads p), finished_threads := finished_threads p @ [t]\<rparr>
      else p)"

text \<open>A dynamic thread whose wait timed out without work.\<close>

definition idle_timeout :: "nat \<Rightarrow> 'j pool \<Rightarrow> 'j pool" where
  "idle_timeout t p =
     set_worker t Gone (move_to_finished t (p\<lparr>idle_thread_count := idle_thread_count p - 1\<rparr>))"

definition end_job :: "nat \<Rightarrow> 'j pool \<Rightarrow> 'j pool" where
  "end_job t p = set_worker t Fresh p"

definition begin_shutdown :: "'j pool \<Rightarrow> 'j pool" where
  "begin_shutdown p = p\<lparr>shutdown_flag := True\<rparr>"

text \<open>\<open>shutdown\<close> joins the base threads, then takes the dynamic threads off their list and joins
  them, then the finished ones.\<close>

definition base_joined :: "'j pool \<Rightarrow> bool" where
  "base_joined p \<longleftrightarrow> list_all (\<lambda>w. fst w \<or> snd w = Gone) (workers p)"

definition take_dynamic :: "'j pool \<Rightarrow> nat list \<times> 'j pool" where
  "take_dynamic p = (dynamic_threads p, p\<lparr>dynamic_threads := []\<rparr>)"

definition all_joined :: "nat list \<Rightarrow> 'j pool \<Rightarrow> bool" where
  "all_joined ts p \<longleftrightarrow> list_all (\<lambda>t. worker_at t p = Gone) ts"

subsection \<open>Steps\<close>

datatype 'j pool_event =
    Accepted 'j | Refused 'j | Started nat 'j | Completed nat 'j | Internal

fun job_of :: "'j worker \<Rightarrow> 'j list" where
  "job_of (Busy j) = [j]"
| "job_of w = []"

text \<open>A worker that passes the wait starts a job or ends.\<close>

definition event_of :: "nat \<Rightarrow> 'j pool \<Rightarrow> 'j pool_event" where
  "event_of t p = (case worker_at t p of Busy j \<Rightarrow> Started t j | _ \<Rightarrow> Internal)"

inductive worker_step :: "'j pool \<Rightarrow> 'j pool_event \<Rightarrow> 'j pool \<Rightarrow> bool" where
  enters: "t < length (workers p) \<Longrightarrow> worker_at t p = Fresh \<Longrightarrow>
    worker_step p (event_of t (enter_wait t p)) (enter_wait t p)"
| wakes: "t < length (workers p) \<Longrightarrow> worker_at t p = Parked \<Longrightarrow> work_ready p \<Longrightarrow>
    worker_step p (event_of t (leave_wait t p)) (leave_wait t p)"
| times_out: "t < length (workers p) \<Longrightarrow> worker_at t p = Parked \<Longrightarrow> is_dynamic t p \<Longrightarrow> \<not> work_ready p \<Longrightarrow>
    worker_step p Internal (idle_timeout t p)"
| completes: "t < length (workers p) \<Longrightarrow> worker_at t p = Busy j \<Longrightarrow>
    worker_step p (Completed t j) (end_job t p)"

inductive pool_step :: "'j pool \<Rightarrow> 'j pool_event \<Rightarrow> 'j pool \<Rightarrow> bool" where
  works: "worker_step p e p' \<Longrightarrow> pool_step p e p'"
| enqueued: "enqueue b j p = (r, p') \<Longrightarrow> r \<noteq> Some False \<Longrightarrow> pool_step p (Accepted j) p'"
| turned_away: "enqueue b j p = (Some False, p') \<Longrightarrow> pool_step p (Refused j) p'"
| shuts_down: "pool_step p Internal (begin_shutdown p)"
| takes_dynamic: "shutdown_flag p \<Longrightarrow> base_joined p \<Longrightarrow> pool_step p Internal (snd (take_dynamic p))"

inductive pool_run :: "'j pool \<Rightarrow> 'j pool_event list \<Rightarrow> 'j pool \<Rightarrow> bool" for p0 where
  idle: "pool_run p0 [] p0"
| steps: "pool_run p0 es p \<Longrightarrow> pool_step p e p' \<Longrightarrow> pool_run p0 (es @ [e]) p'"

inductive worker_run :: "'j pool \<Rightarrow> 'j pool_event list \<Rightarrow> 'j pool \<Rightarrow> bool" for p0 where
  resting: "worker_run p0 [] p0"
| working: "worker_run p0 es p \<Longrightarrow> worker_step p e p' \<Longrightarrow> worker_run p0 (es @ [e]) p'"

inductive_cases worker_stepE: "worker_step p e p'"
inductive_cases pool_stepE: "pool_step p e p'"

subsection \<open>What happened\<close>

fun accepted_by :: "'j pool_event \<Rightarrow> 'j list" where
  "accepted_by (Accepted j) = [j]"
| "accepted_by e = []"

fun started_by :: "'j pool_event \<Rightarrow> 'j list" where
  "started_by (Started t j) = [j]"
| "started_by e = []"

fun completed_by :: "'j pool_event \<Rightarrow> 'j list" where
  "completed_by (Completed t j) = [j]"
| "completed_by e = []"

definition accepted_jobs :: "'j pool_event list \<Rightarrow> 'j list" where
  "accepted_jobs es = concat (map accepted_by es)"

definition started_jobs :: "'j pool_event list \<Rightarrow> 'j list" where
  "started_jobs es = concat (map started_by es)"

definition completed_jobs :: "'j pool_event list \<Rightarrow> 'j list" where
  "completed_jobs es = concat (map completed_by es)"

lemma jobs_of_events [simp]:
  "accepted_jobs [] = []" "accepted_jobs (es @ [e]) = accepted_jobs es @ accepted_by e"
  "started_jobs [] = []" "started_jobs (es @ [e]) = started_jobs es @ started_by e"
  "completed_jobs [] = []" "completed_jobs (es @ [e]) = completed_jobs es @ completed_by e"
  by (simp_all add: accepted_jobs_def started_jobs_def completed_jobs_def)

text \<open>The jobs that workers have in hand, and the threads that are still there.\<close>

definition in_hand :: "'j pool \<Rightarrow> 'j multiset" where
  "in_hand p = mset (concat (map (job_of \<circ> snd) (workers p)))"

definition parked :: "bool \<times> 'j worker \<Rightarrow> bool" where "parked w \<longleftrightarrow> snd w = Parked"
definition live :: "bool \<times> 'j worker \<Rightarrow> bool" where "live w \<longleftrightarrow> snd w \<noteq> Gone"
definition live_dynamic :: "bool \<times> 'j worker \<Rightarrow> bool" where "live_dynamic w \<longleftrightarrow> fst w \<and> snd w \<noteq> Gone"

definition number :: "(bool \<times> 'j worker \<Rightarrow> bool) \<Rightarrow> 'j pool \<Rightarrow> nat" where
  "number P p = length (filter P (workers p))"

subsection \<open>Counting workers\<close>

lemma sum_list_update_nat:
  "i < length xs \<Longrightarrow> sum_list (map (f :: _ \<Rightarrow> nat) (xs[i := x])) + f (xs ! i) = sum_list (map f xs) + f x"
  by (induction xs arbitrary: i) (auto split: nat.splits)

lemma length_filter_sum: "length (filter P xs) = sum_list (map (\<lambda>x. if P x then 1 else 0) xs)"
  by (induction xs) simp_all

lemma mset_concat_update:
  "i < length xs \<Longrightarrow> mset (concat (map f (xs[i := x]))) + mset (f (xs ! i)) = mset (concat (map f xs)) + mset (f x)"
  by (induction xs arbitrary: i) (auto split: nat.splits simp: ac_simps)

lemma set_worker_frame [simp]:
  "jobs (set_worker t w p) = jobs p" "idle_thread_count (set_worker t w p) = idle_thread_count p"
  "shutdown_flag (set_worker t w p) = shutdown_flag p" "dynamic_threads (set_worker t w p) = dynamic_threads p"
  "base_thread_count (set_worker t w p) = base_thread_count p" "max_thread_count (set_worker t w p) = max_thread_count p"
  "max_queued_requests (set_worker t w p) = max_queued_requests p" "length (workers (set_worker t w p)) = length (workers p)"
  "finished_threads (set_worker t w p) = finished_threads p"
  by (simp_all add: set_worker_def)

lemma worker_at_set [simp]: "t < length (workers p) \<Longrightarrow> worker_at t (set_worker t w p) = w"
  by (simp add: worker_at_def set_worker_def)

lemma number_set_worker:
  "t < length (workers p) \<Longrightarrow> number P (set_worker t w p) + (if P (workers p ! t) then 1 else 0)
     = number P p + (if P (fst (workers p ! t), w) then 1 else 0)"
  using sum_list_update_nat [of t "workers p" "\<lambda>w. if P w then 1 else 0" "(fst (workers p ! t), w)"]
  by (simp add: number_def set_worker_def length_filter_sum)

lemma in_hand_set_worker:
  "t < length (workers p) \<Longrightarrow> in_hand (set_worker t w p) + mset (job_of (worker_at t p))
     = in_hand p + mset (job_of w)"
  using mset_concat_update [of t "workers p" "job_of \<circ> snd" "(fst (workers p ! t), w)"]
  by (simp add: in_hand_def set_worker_def worker_at_def)

subsection \<open>The invariant\<close>

definition is_base :: "bool \<times> 'j worker \<Rightarrow> bool" where "is_base w \<longleftrightarrow> \<not> fst w"
definition gone_base :: "bool \<times> 'j worker \<Rightarrow> bool" where "gone_base w \<longleftrightarrow> \<not> fst w \<and> snd w = Gone"

definition pool_ok :: "'j pool \<Rightarrow> bool" where
  "pool_ok p \<longleftrightarrow> idle_thread_count p = number parked p
     \<and> number is_base p = base_thread_count p
     \<and> base_thread_count p + number live_dynamic p \<le> max_thread_count p
     \<and> (\<not> shutdown_flag p \<longrightarrow> number live_dynamic p \<le> length (dynamic_threads p)
          \<and> base_thread_count p + length (dynamic_threads p) \<le> max_thread_count p)
     \<and> (0 < max_queued_requests p \<longrightarrow> length (jobs p) \<le> max_queued_requests p)
     \<and> (0 < number gone_base p \<longrightarrow> shutdown_flag p \<and> jobs p = [])"

lemmas worker_kinds = parked_def live_dynamic_def is_base_def gone_base_def

lemma number_frame [simp]:
  "number P (p\<lparr>jobs := js\<rparr>) = number P p" "number P (p\<lparr>idle_thread_count := n\<rparr>) = number P p"
  "number P (p\<lparr>shutdown_flag := b\<rparr>) = number P p" "number P (p\<lparr>dynamic_threads := ts\<rparr>) = number P p"
  "number P (p\<lparr>finished_threads := ts\<rparr>) = number P p"
  by (simp_all add: number_def)

lemma in_hand_frame [simp]:
  "in_hand (p\<lparr>jobs := js\<rparr>) = in_hand p" "in_hand (p\<lparr>idle_thread_count := n\<rparr>) = in_hand p"
  "in_hand (p\<lparr>shutdown_flag := b\<rparr>) = in_hand p" "in_hand (p\<lparr>dynamic_threads := ts\<rparr>) = in_hand p"
  "in_hand (p\<lparr>finished_threads := ts\<rparr>) = in_hand p"
  by (simp_all add: in_hand_def)

lemma worker_at_frame [simp]:
  "worker_at t (p\<lparr>jobs := js\<rparr>) = worker_at t p" "worker_at t (p\<lparr>idle_thread_count := n\<rparr>) = worker_at t p"
  by (simp_all add: worker_at_def)

text \<open>How the counts change when one worker moves.\<close>

lemma counts_after:
  assumes "t < length (workers p)" "worker_at t p = w0"
  shows "number parked (set_worker t w p) + (if w0 = Parked then 1 else 0) = number parked p + (if w = Parked then 1 else 0)"
    "number is_base (set_worker t w p) = number is_base p"
    "number live_dynamic (set_worker t w p) + (if is_dynamic t p \<and> w0 \<noteq> Gone then 1 else 0)
       = number live_dynamic p + (if is_dynamic t p \<and> w \<noteq> Gone then 1 else 0)"
    "number gone_base (set_worker t w p) + (if \<not> is_dynamic t p \<and> w0 = Gone then 1 else 0)
       = number gone_base p + (if \<not> is_dynamic t p \<and> w = Gone then 1 else 0)"
  using assms number_set_worker [of t p parked w] number_set_worker [of t p is_base w]
    number_set_worker [of t p live_dynamic w] number_set_worker [of t p gone_base w]
  by (auto simp: worker_kinds worker_at_def is_dynamic_def)

lemma park_at:
  assumes "t < length (workers p)"
  shows "worker_at t (park t p) = Parked" "length (workers (park t p)) = length (workers p)"
    "jobs (park t p) = jobs p" "shutdown_flag (park t p) = shutdown_flag p"
  using assms by (simp_all add: park_def)

lemma pool_ok_park:
  assumes "pool_ok p" "t < length (workers p)" "worker_at t p = Fresh"
  shows "pool_ok (park t p)"
  using assms(1) counts_after [of t "p\<lparr>idle_thread_count := idle_thread_count p + 1\<rparr>" Fresh Parked] assms(2,3)
  by (auto simp: pool_ok_def is_dynamic_def park_def)

lemma pool_ok_leave_wait:
  assumes "pool_ok p" "t < length (workers p)" "worker_at t p = Parked" "work_ready p"
  shows "pool_ok (leave_wait t p)"
proof (cases "jobs p")
  case Nil
  let ?p = "p\<lparr>idle_thread_count := idle_thread_count p - 1\<rparr>"
  show ?thesis
    using assms Nil counts_after [of t ?p Parked Gone]
    by (auto simp: pool_ok_def leave_wait_def work_ready_def is_dynamic_def Let_def)
next
  case (Cons j js)
  let ?p = "p\<lparr>idle_thread_count := idle_thread_count p - 1, jobs := js\<rparr>"
  have e: "leave_wait t p = set_worker t (Busy j) ?p" using Cons by (simp add: leave_wait_def Let_def)
  show ?thesis
    unfolding e using assms Cons counts_after [of t ?p Parked "Busy j"]
    by (auto simp: pool_ok_def is_dynamic_def)
qed

lemma pool_ok_idle_timeout:
  assumes "pool_ok p" "t < length (workers p)" "worker_at t p = Parked" "is_dynamic t p"
  shows "pool_ok (idle_timeout t p)"
proof -
  define q where "q = move_to_finished t (p\<lparr>idle_thread_count := idle_thread_count p - 1\<rparr>)"
  have q: "workers q = workers p" "jobs q = jobs p" "shutdown_flag q = shutdown_flag p"
    "idle_thread_count q = idle_thread_count p - 1" "base_thread_count q = base_thread_count p"
    "max_thread_count q = max_thread_count p" "max_queued_requests q = max_queued_requests p"
    "length (dynamic_threads p) \<le> length (dynamic_threads q) + 1" "length (dynamic_threads q) \<le> length (dynamic_threads p)"
    by (auto simp: q_def move_to_finished_def length_remove1)
  have n: "number P q = number P p" for P by (simp add: number_def q)
  have w: "worker_at t q = Parked" "is_dynamic t q" using assms by (simp_all add: worker_at_def is_dynamic_def q)
  have e: "idle_timeout t p = set_worker t Gone q" by (simp add: idle_timeout_def q_def)
  show ?thesis
    unfolding e using assms counts_after [of t q Parked Gone] w q(8,9)
    by (auto simp: pool_ok_def q(1-7) n)
qed

lemma pool_ok_end_job:
  assumes "pool_ok p" "t < length (workers p)" "worker_at t p = Busy j"
  shows "pool_ok (end_job t p)"
  using assms counts_after [of t p "Busy j" Fresh] by (auto simp: pool_ok_def end_job_def)

lemma pool_ok_worker_step: "worker_step p e p' \<Longrightarrow> pool_ok p \<Longrightarrow> pool_ok p'"
proof (induction rule: worker_step.induct)
  case (enters t p)
  have "pool_ok (park t p)" using enters by (simp add: pool_ok_park)
  then show ?case using enters(1) by (auto simp: enter_wait_def Let_def park_at intro: pool_ok_leave_wait)
qed (auto intro: pool_ok_leave_wait pool_ok_idle_timeout pool_ok_end_job)

lemma pool_ok_queue:
  assumes "pool_ok p" "\<not> shutdown_flag p" "max_queued_requests p = 0 \<or> length (jobs p) < max_queued_requests p"
  shows "pool_ok (p\<lparr>jobs := jobs p @ [j]\<rparr>)"
  using assms by (auto simp: pool_ok_def)

lemma pool_ok_spawn:
  assumes "pool_ok p" "\<not> shutdown_flag p" "base_thread_count p + length (dynamic_threads p) < max_thread_count p"
  shows "pool_ok (spawn_dynamic p)"
proof -
  have "number P (spawn_dynamic p) = number P p + (if P (True, Fresh) then 1 else 0)" for P
    by (simp add: number_def spawn_dynamic_def cleanup_finished_threads_def)
  from this [of parked] this [of is_base] this [of live_dynamic] this [of gone_base] show ?thesis
    using assms by (simp add: pool_ok_def worker_kinds) (simp add: spawn_dynamic_def cleanup_finished_threads_def)
qed

lemma pool_ok_cleanup: "pool_ok p \<Longrightarrow> pool_ok (cleanup_finished_threads p)"
  by (simp add: cleanup_finished_threads_def pool_ok_def)

lemma enqueue_cases:
  assumes "enqueue b j p = (r, p')"
  obtains "p' = p" "r = Some False"
  | q where "q = p\<lparr>jobs := jobs p @ [j]\<rparr>" "\<not> shutdown_flag p"
      "max_queued_requests p = 0 \<or> length (jobs p) < max_queued_requests p" "r \<noteq> Some False"
      "p' = q \<or> p' = cleanup_finished_threads q
        \<or> p' = spawn_dynamic q \<and> base_thread_count q + length (dynamic_threads q) < max_thread_count q"
  using assms by (auto simp: enqueue_def Let_def not_le split: if_splits)

lemma pool_ok_enqueue:
  assumes "pool_ok p" "enqueue b j p = (r, p')"
  shows "pool_ok p'"
  using assms(2)
proof (cases rule: enqueue_cases)
  case 1
  then show ?thesis using assms(1) by simp
next
  case (2 q)
  have "pool_ok q" unfolding 2(1) using assms(1) 2(2,3) by (rule pool_ok_queue)
  moreover have "\<not> shutdown_flag q" using 2(1,2) by simp
  ultimately show ?thesis using 2(5) by (auto intro: pool_ok_cleanup pool_ok_spawn)
qed

lemma pool_ok_flags:
  "pool_ok p \<Longrightarrow> pool_ok (begin_shutdown p)"
  "pool_ok p \<Longrightarrow> shutdown_flag p \<Longrightarrow> pool_ok (snd (take_dynamic p))"
  by (auto simp: pool_ok_def begin_shutdown_def take_dynamic_def)

lemma pool_ok_step: "pool_step p e p' \<Longrightarrow> pool_ok p \<Longrightarrow> pool_ok p'"
  by (induction rule: pool_step.induct) (blast intro: pool_ok_worker_step pool_ok_enqueue pool_ok_flags)+

lemma pool_ok_new: "new_thread_pool n max_n mqr = Inr p \<Longrightarrow> pool_ok p"
  by (auto simp: new_thread_pool_def pool_ok_def number_def worker_kinds split: if_splits)

lemma pool_ok_run: "pool_run p0 es p \<Longrightarrow> pool_ok p0 \<Longrightarrow> pool_ok p"
  by (induction rule: pool_run.induct) (auto intro: pool_ok_step)

subsection \<open>First in, first out\<close>

text \<open>What the workers have started is what was accepted, in that order, up to what is queued; what
  was started is completed or in hand.\<close>

definition pool_history :: "'j pool_event list \<Rightarrow> 'j pool \<Rightarrow> bool" where
  "pool_history es p \<longleftrightarrow> started_jobs es @ jobs p = accepted_jobs es
     \<and> mset (started_jobs es) = mset (completed_jobs es) + in_hand p"

lemma leave_wait_taken:
  assumes "t < length (workers p)" "worker_at t p = Parked" "work_ready p"
  shows "started_by (event_of t (leave_wait t p)) @ jobs (leave_wait t p) = jobs p"
    "in_hand (leave_wait t p) = in_hand p + mset (started_by (event_of t (leave_wait t p)))"
proof -
  have "started_by (event_of t (leave_wait t p)) @ jobs (leave_wait t p) = jobs p
      \<and> in_hand (leave_wait t p) = in_hand p + mset (started_by (event_of t (leave_wait t p)))"
  proof (cases "jobs p")
    case Nil
    then show ?thesis
      using assms in_hand_set_worker [of t "p\<lparr>idle_thread_count := idle_thread_count p - 1\<rparr>" Gone]
      by (simp add: leave_wait_def work_ready_def event_of_def)
  next
    case (Cons j js)
    let ?q = "p\<lparr>idle_thread_count := idle_thread_count p - 1, jobs := js\<rparr>"
    have e: "leave_wait t p = set_worker t (Busy j) ?q" using Cons by (simp add: leave_wait_def Let_def)
    show ?thesis
      unfolding e using assms in_hand_set_worker [of t ?q "Busy j"] Cons by (simp add: event_of_def)
  qed
  then show "started_by (event_of t (leave_wait t p)) @ jobs (leave_wait t p) = jobs p"
    "in_hand (leave_wait t p) = in_hand p + mset (started_by (event_of t (leave_wait t p)))" by blast+
qed

lemma event_of_others [simp]:
  "accepted_by (event_of t p) = []" "completed_by (event_of t p) = []"
  by (simp_all add: event_of_def split: worker.split)

lemma in_hand_park:
  "t < length (workers p) \<Longrightarrow> worker_at t p = Fresh \<Longrightarrow> in_hand (park t p) = in_hand p"
  using in_hand_set_worker [of t "p\<lparr>idle_thread_count := idle_thread_count p + 1\<rparr>" Parked] by (simp add: park_def)

lemma history_enters:
  assumes "pool_history es p" "t < length (workers p)" "worker_at t p = Fresh"
  shows "pool_history (es @ [event_of t (enter_wait t p)]) (enter_wait t p)"
proof (cases "work_ready (park t p)")
  case True
  then have e: "enter_wait t p = leave_wait t (park t p)" by (simp add: enter_wait_def Let_def)
  show ?thesis
    unfolding e using leave_wait_taken [of t "park t p"] True assms park_at [OF assms(2)] in_hand_park [OF assms(2,3)]
    by (simp add: pool_history_def)
next
  case False
  then have e: "enter_wait t p = park t p" by (simp add: enter_wait_def Let_def)
  show ?thesis
    unfolding e using assms park_at [OF assms(2)] in_hand_park [OF assms(2,3)]
    by (simp add: pool_history_def event_of_def)
qed

lemma history_wakes:
  assumes "pool_history es p" "t < length (workers p)" "worker_at t p = Parked" "work_ready p"
  shows "pool_history (es @ [event_of t (leave_wait t p)]) (leave_wait t p)"
  using leave_wait_taken [OF assms(2-4)] assms(1) by (simp add: pool_history_def)

lemma history_times_out:
  assumes "pool_history es p" "t < length (workers p)" "worker_at t p = Parked"
  shows "pool_history (es @ [Internal]) (idle_timeout t p)"
proof -
  let ?q = "move_to_finished t (p\<lparr>idle_thread_count := idle_thread_count p - 1\<rparr>)"
  have "workers ?q = workers p" "jobs ?q = jobs p" by (simp_all add: move_to_finished_def)
  then show ?thesis
    using assms in_hand_set_worker [of t ?q Gone]
    by (simp add: pool_history_def idle_timeout_def worker_at_def in_hand_def)
qed

lemma history_completes:
  assumes "pool_history es p" "t < length (workers p)" "worker_at t p = Busy j"
  shows "pool_history (es @ [Completed t j]) (end_job t p)"
  using assms in_hand_set_worker [of t p Fresh] by (simp add: pool_history_def end_job_def)

lemma history_worker_step: "worker_step p e p' \<Longrightarrow> pool_history es p \<Longrightarrow> pool_history (es @ [e]) p'"
  by (induction rule: worker_step.induct)
    (simp_all add: history_enters history_wakes history_times_out history_completes)

lemma in_hand_spawn [simp]: "in_hand (spawn_dynamic p) = in_hand p" "jobs (spawn_dynamic p) = jobs p"
  by (simp_all add: in_hand_def spawn_dynamic_def cleanup_finished_threads_def)

lemma enqueue_jobs:
  "enqueue b j p = (r, p') \<Longrightarrow> in_hand p' = in_hand p \<and> jobs p' = (if r = Some False then jobs p else jobs p @ [j])"
  by (auto simp: enqueue_def cleanup_finished_threads_def Let_def split: if_splits)

lemma history_step: "pool_step p e p' \<Longrightarrow> pool_history es p \<Longrightarrow> pool_history (es @ [e]) p'"
proof (induction rule: pool_step.induct)
  case (works p e p')
  then show ?case by (simp add: history_worker_step)
qed (auto simp: pool_history_def begin_shutdown_def take_dynamic_def dest!: enqueue_jobs)

lemma history_new: "new_thread_pool n max_n mqr = Inr p \<Longrightarrow> pool_history [] p"
  by (induction n) (auto simp: new_thread_pool_def pool_history_def in_hand_def split: if_splits)

lemma history_run: "pool_run p0 es p \<Longrightarrow> pool_history [] p0 \<Longrightarrow> pool_history es p"
  by (induction rule: pool_run.induct) (auto intro: history_step)

subsection \<open>Shutdown\<close>

text \<open>Every step of a worker uses up some of this.\<close>

fun worker_weight :: "'j worker \<Rightarrow> nat" where
  "worker_weight Gone = 0"
| "worker_weight Parked = 1"
| "worker_weight Fresh = 2"
| "worker_weight (Busy j) = 3"

definition pool_work :: "'j pool \<Rightarrow> nat" where
  "pool_work p = 3 * length (jobs p) + sum_list (map (worker_weight \<circ> snd) (workers p))"

lemma weight_set_worker:
  "t < length (workers p) \<Longrightarrow> pool_work (set_worker t w p) + worker_weight (worker_at t p) = pool_work p + worker_weight w"
  using sum_list_update_nat [of t "workers p" "worker_weight \<circ> snd" "(fst (workers p ! t), w)"]
  by (simp add: pool_work_def set_worker_def worker_at_def)

lemma pool_work_frame [simp]: "pool_work (p\<lparr>idle_thread_count := n\<rparr>) = pool_work p"
  by (simp add: pool_work_def)

lemma leave_wait_work:
  assumes "t < length (workers p)" "worker_at t p = Parked" "work_ready p"
  shows "pool_work (leave_wait t p) < pool_work p"
proof (cases "jobs p")
  case Nil
  then show ?thesis
    using assms weight_set_worker [of t "p\<lparr>idle_thread_count := idle_thread_count p - 1\<rparr>" Gone]
    by (simp add: leave_wait_def work_ready_def)
next
  case (Cons j js)
  let ?q = "p\<lparr>idle_thread_count := idle_thread_count p - 1, jobs := js\<rparr>"
  have e: "leave_wait t p = set_worker t (Busy j) ?q" using Cons by (simp add: leave_wait_def Let_def)
  have "pool_work ?q + 3 = pool_work p" using Cons by (simp add: pool_work_def)
  then show ?thesis unfolding e using assms weight_set_worker [of t ?q "Busy j"] by simp
qed

lemma park_work:
  "t < length (workers p) \<Longrightarrow> worker_at t p = Fresh \<Longrightarrow> pool_work (park t p) < pool_work p"
  using weight_set_worker [of t "p\<lparr>idle_thread_count := idle_thread_count p + 1\<rparr>" Parked] by (simp add: park_def)

lemma worker_step_work: "worker_step p e p' \<Longrightarrow> pool_work p' < pool_work p"
proof (induction rule: worker_step.induct)
  case (enters t p)
  have "pool_work (park t p) < pool_work p" using enters by (rule park_work)
  moreover have "pool_work (leave_wait t (park t p)) < pool_work (park t p)" if "work_ready (park t p)"
    using that park_at [OF enters(1)] enters(1) by (simp add: leave_wait_work)
  ultimately show ?case by (auto simp: enter_wait_def Let_def)
next
  case (wakes t p)
  then show ?case by (simp add: leave_wait_work)
next
  case (times_out t p)
  let ?q = "move_to_finished t (p\<lparr>idle_thread_count := idle_thread_count p - 1\<rparr>)"
  have q: "workers ?q = workers p" "jobs ?q = jobs p" by (simp_all add: move_to_finished_def)
  then have "pool_work ?q = pool_work p" by (simp add: pool_work_def)
  then show ?case
    using times_out weight_set_worker [of t ?q Gone] q by (simp add: idle_timeout_def worker_at_def)
next
  case (completes t p j)
  then show ?case using weight_set_worker [of t p Fresh] by (simp add: end_job_def)
qed

lemma worker_run_work: "worker_run p es p' \<Longrightarrow> length es + pool_work p' \<le> pool_work p"
  by (induction rule: worker_run.induct) (auto dest!: worker_step_work)

lemma worker_run_pool_run: "worker_run p es' p' \<Longrightarrow> pool_run p0 es p \<Longrightarrow> pool_run p0 (es @ es') p'"
proof (induction rule: worker_run.induct)
  case (working es' p e p')
  then have "pool_run p0 ((es @ es') @ [e]) p'" by (intro pool_run.steps) (auto intro: works)
  then show ?case by simp
qed simp

lemma worker_step_flag: "worker_step p e p' \<Longrightarrow> shutdown_flag p' = shutdown_flag p"
  by (induction rule: worker_step.induct)
    (simp_all add: enter_wait_def leave_wait_def park_def idle_timeout_def move_to_finished_def end_job_def Let_def)

lemma worker_run_flag: "worker_run p es p' \<Longrightarrow> shutdown_flag p' = shutdown_flag p"
  by (induction rule: worker_run.induct) (auto dest: worker_step_flag)

text \<open>The limits never change.\<close>

definition pool_limits :: "'j pool \<Rightarrow> nat \<times> nat \<times> nat" where
  "pool_limits p = (base_thread_count p, max_thread_count p, max_queued_requests p)"

lemma worker_step_limits: "worker_step p e p' \<Longrightarrow> pool_limits p' = pool_limits p"
  by (induction rule: worker_step.induct)
    (simp_all add: pool_limits_def enter_wait_def leave_wait_def park_def idle_timeout_def move_to_finished_def end_job_def Let_def)

lemma pool_step_limits: "pool_step p e p' \<Longrightarrow> pool_limits p' = pool_limits p"
proof (induction rule: pool_step.induct)
  case (works p e p')
  then show ?case by (rule worker_step_limits)
qed (auto simp: pool_limits_def enqueue_def spawn_dynamic_def cleanup_finished_threads_def begin_shutdown_def
    take_dynamic_def Let_def split: if_splits)

lemma pool_run_limits: "pool_run p0 es p \<Longrightarrow> pool_limits p = pool_limits p0"
  by (induction rule: pool_run.induct) (auto dest: pool_step_limits)

lemma worker_step_accepts: "worker_step p e p' \<Longrightarrow> accepted_by e = []"
  by (induction rule: worker_step.induct) simp_all

lemma worker_run_accepts: "worker_run p es p' \<Longrightarrow> accepted_jobs es = []"
  by (induction rule: worker_run.induct) (auto dest: worker_step_accepts)

text \<open>When no worker can move, all of them have ended.\<close>

lemma stuck_gone:
  assumes "\<And>e p'. \<not> worker_step p e p'" "shutdown_flag p" "t < length (workers p)"
  shows "worker_at t p = Gone"
proof (cases "worker_at t p")
  case (Busy j)
  then show ?thesis using completes [OF assms(3)] assms(1) by blast
qed (use assms enters [of t p] wakes [of t p] in \<open>auto simp: work_ready_def\<close>)

lemma gone_no_jobs:
  assumes "pool_ok p" "0 < base_thread_count p" "list_all (\<lambda>w. snd w = Gone) (workers p)"
  shows "jobs p = []" "in_hand p = {#}"
proof -
  have "filter gone_base (workers p) = filter is_base (workers p)"
    using assms(3) by (auto simp: worker_kinds list_all_iff intro!: filter_cong)
  then have "0 < number gone_base p" using assms(1,2) by (simp add: pool_ok_def number_def)
  then show "jobs p = []" using assms(1) by (simp add: pool_ok_def)
  show "in_hand p = {#}" using assms(3) by (auto simp: in_hand_def list_all_iff)
qed

lemma stuck_empty:
  assumes "\<And>e p'. \<not> worker_step p e p'" "shutdown_flag p" "pool_ok p" "0 < base_thread_count p"
  shows "jobs p = []" "in_hand p = {#}" "list_all (\<lambda>w. snd w = Gone) (workers p)"
proof -
  show g: "list_all (\<lambda>w. snd w = Gone) (workers p)"
    using stuck_gone [OF assms(1,2)] by (auto simp: list_all_length worker_at_def)
  show "jobs p = []" "in_hand p = {#}" using gone_no_jobs [OF assms(3,4) g] .
qed

lemma live_counts: "number live p = number is_base p - number gone_base p + number live_dynamic p"
proof -
  have "length (filter live ws) + length (filter gone_base ws) = length (filter is_base ws) + length (filter live_dynamic ws)"
    for ws :: "(bool \<times> 'a worker) list"
    by (induction ws) (auto simp: worker_kinds live_def)
  moreover have "length (filter gone_base ws) \<le> length (filter is_base ws)" for ws :: "(bool \<times> 'a worker) list"
    by (induction ws) (auto simp: worker_kinds)
  ultimately show ?thesis unfolding number_def by (metis Nat.add_diff_assoc2 add_diff_cancel_right')
qed

subsection \<open>Properties\<close>

text \<open>C13: The thread pool is a queue.  However its threads interleave, the jobs are started in the
  order in which they were accepted and each once: those started, then those still queued, are those
  accepted; each one started is completed or in the hands of one worker.  There are never more
  threads or queued jobs than the limits allow, and the idle count is the number of waiting
  threads.\<close>

theorem pool_is_a_queue:
  assumes "new_thread_pool n max_n mqr = Inr p0" "pool_run p0 es p"
  shows "started_jobs es @ jobs p = accepted_jobs es
    \<and> mset (started_jobs es) = mset (completed_jobs es) + in_hand p
    \<and> number live p \<le> (if max_n = 0 then n else max_n) \<and> (0 < mqr \<longrightarrow> length (jobs p) \<le> mqr)
    \<and> idle_thread_count p = number parked p"
proof -
  have l: "pool_limits p = (n, if max_n = 0 then n else max_n, mqr)"
    using pool_run_limits [OF assms(2)] assms(1) by (auto simp: new_thread_pool_def pool_limits_def split: if_splits)
  have "pool_history es p" "pool_ok p"
    using history_run [OF assms(2) history_new [OF assms(1)]] pool_ok_run [OF assms(2) pool_ok_new [OF assms(1)]] .
  then show ?thesis
    using l live_counts [of p] by (auto simp: pool_history_def pool_ok_def pool_limits_def)
qed

text \<open>Two jobs on a pool with one thread.\<close>

lemma pool_example:
  assumes "new_thread_pool 1 2 0 = Inr p0"
  shows "pool_run p0 [Internal, Accepted a, Accepted b, Started 0 a]
    (p0\<lparr>workers := [(False, Busy a)], jobs := [b]\<rparr>)"
proof -
  have p0: "p0 = \<lparr>base_thread_count = 1, max_thread_count = 2, max_queued_requests = 0, idle_thread_count = 0,
      shutdown_flag = False, jobs = [], workers = [(False, Fresh)], dynamic_threads = [], finished_threads = []\<rparr>"
    using assms by (simp add: new_thread_pool_def)
  let ?p1 = "p0\<lparr>workers := [(False, Parked)], idle_thread_count := 1\<rparr>"
  have e1: "enter_wait 0 p0 = ?p1" "event_of 0 ?p1 = Internal"
    by (simp_all add: p0 enter_wait_def park_def set_worker_def work_ready_def event_of_def worker_at_def)
  have "pool_step p0 (event_of 0 (enter_wait 0 p0)) (enter_wait 0 p0)"
    by (intro works enters) (simp_all add: p0 worker_at_def)
  then have "pool_step p0 Internal ?p1" unfolding e1 .
  from pool_run.steps [OF pool_run.idle this] have r1: "pool_run p0 [Internal] ?p1" by simp
  have "enqueue True a ?p1 = (Some True, ?p1\<lparr>jobs := [a]\<rparr>)" by (simp add: p0 enqueue_def)
  from pool_run.steps [OF r1 enqueued [OF this]] have r2: "pool_run p0 [Internal, Accepted a] (?p1\<lparr>jobs := [a]\<rparr>)" by simp
  have "enqueue True b (?p1\<lparr>jobs := [a]\<rparr>) = (Some True, ?p1\<lparr>jobs := [a, b]\<rparr>)" by (simp add: p0 enqueue_def)
  from pool_run.steps [OF r2 enqueued [OF this]]
  have r3: "pool_run p0 [Internal, Accepted a, Accepted b] (?p1\<lparr>jobs := [a, b]\<rparr>)" by simp
  let ?p4 = "p0\<lparr>workers := [(False, Busy a)], jobs := [b]\<rparr>"
  have e4: "leave_wait 0 (?p1\<lparr>jobs := [a, b]\<rparr>) = ?p4" "event_of 0 ?p4 = Started 0 a"
    by (simp_all add: p0 leave_wait_def set_worker_def event_of_def worker_at_def)
  have "pool_step (?p1\<lparr>jobs := [a, b]\<rparr>) (event_of 0 (leave_wait 0 (?p1\<lparr>jobs := [a, b]\<rparr>))) (leave_wait 0 (?p1\<lparr>jobs := [a, b]\<rparr>))"
    by (intro works wakes) (simp_all add: p0 worker_at_def work_ready_def)
  then have "pool_step (?p1\<lparr>jobs := [a, b]\<rparr>) (Started 0 a) ?p4" unfolding e4 .
  from pool_run.steps [OF r3 this] show ?thesis by simp
qed

theorem pool_is_a_queue_witness:
  "\<exists>es p. pool_run (projr (new_thread_pool 1 2 0)) es p \<and> started_jobs es = [7 :: nat] \<and> jobs p = [8]
    \<and> started_jobs es @ jobs p = accepted_jobs es"
proof -
  obtain p0 :: "nat pool" where p0: "new_thread_pool 1 2 0 = Inr p0" by (simp add: new_thread_pool_def)
  let ?es = "[Internal, Accepted 7, Accepted 8, Started 0 (7 :: nat)]"
  let ?p = "p0\<lparr>workers := [(False, Busy 7)], jobs := [8]\<rparr>"
  have r: "pool_run p0 ?es ?p" by (rule pool_example [OF p0])
  have j: "jobs ?p = [8]" "started_jobs ?es = [7]" by (simp_all add: started_jobs_def)
  have "started_jobs ?es @ jobs ?p = accepted_jobs ?es" using pool_is_a_queue [OF p0 r] by blast
  then show ?thesis unfolding p0 sum.sel using r j by blast
qed



text \<open>A job can wait below the limit.  \<open>enqueue\<close> starts a thread only when no thread is idle,
  and a thread that was notified but has not run yet still counts as idle.  So two jobs that come
  close together share the one thread, and the second waits for the end of the first although
  another thread could have been started.\<close>

theorem queued_job_waits_below_limit:
  assumes "new_thread_pool 1 2 0 = Inr p0"
  shows "\<exists>p. pool_run p0 [Internal, Accepted a, Accepted b, Started 0 a] p \<and> jobs p = [b]
    \<and> number live p < max_thread_count p
    \<and> (\<forall>e p'. worker_step p e p' \<longrightarrow> e = Completed 0 a)"
proof -
  have p0: "max_thread_count p0 = 2" using assms by (auto simp: new_thread_pool_def)
  let ?p = "p0\<lparr>workers := [(False, Busy a)], jobs := [b]\<rparr>"
  have "e = Completed 0 a" if "worker_step ?p e p'" for e p'
    using that by (rule worker_stepE) (auto simp: worker_at_def)
  then show ?thesis
    using pool_example [OF assms, of a b] p0 by (intro exI [of _ ?p]) (auto simp: number_def live_def)
qed

theorem queued_job_waits_below_limit_witness:
  "\<exists>p0 p. new_thread_pool 1 2 0 = Inr p0 \<and> pool_run p0 [Internal, Accepted 7, Accepted (8 :: nat), Started 0 7] p \<and> jobs p = [8]"
proof -
  obtain p0 :: "nat pool" where p0: "new_thread_pool 1 2 0 = Inr p0" by (simp add: new_thread_pool_def)
  then show ?thesis using queued_job_waits_below_limit [OF p0, of 7 8] by blast
qed

end
