(* ===== verification/Http_Listen.thy ===== *)
theory Http_Listen
  imports Http_Pool
begin

text \<open>
  The listening side of the server of \<open>include/httplib.h\<close>: \<open>bind_internal\<close>, the loop of
  \<open>listen_internal\<close> over the thread pool, and \<open>stop\<close>.  A job is the descriptor of a connection;
  running it is \<open>process_and_close_socket\<close>, which ends by closing the descriptor.
\<close>

subsection \<open>State\<close>

text \<open>\<open>svr_open\<close>: \<open>svr_sock_\<close> is not \<open>INVALID_SOCKET\<close>.  The last three fields record how often that
  descriptor was closed, what \<open>accept\<close> handed out, and what of it has been closed.\<close>

record listener =
  svr_open :: bool
  is_running :: bool
  is_decommissioned :: bool
  task_queue :: "int pool"
  server_closes :: nat
  accepted_sockets :: "int list"
  closed_sockets :: "int list"

datatype listen_control =
    Loop_Head                       \<comment> \<open>at the condition of the loop\<close>
  | At_Accept                       \<comment> \<open>in \<open>select\<close> or \<open>accept\<close>\<close>
  | Leaving_Loop bool               \<comment> \<open>behind the loop, with \<open>ret\<close>\<close>
  | Joining_Base bool               \<comment> \<open>in \<open>shutdown\<close>, joining the base threads\<close>
  | Joining_Dynamic bool "nat list" \<comment> \<open>joining the threads taken off the list\<close>
  | Returned bool
  | Threw_Out                       \<comment> \<open>a thread could not be created\<close>

subsection \<open>Operations\<close>

text \<open>\<open>create_server_socket\<close> gives a descriptor or \<open>-1\<close>; \<open>sock_port\<close> is the port that
  \<open>getsockname\<close> reports, \<open>None\<close> when it fails or the address family is unknown.\<close>

definition bind_internal :: "int \<Rightarrow> int option \<Rightarrow> int \<Rightarrow> listener \<Rightarrow> int \<times> listener" where
  "bind_internal created sock_port port s =
     (if is_decommissioned s then (-1, s)
      else
        (let s1 = s\<lparr>svr_open := created \<noteq> -1\<rparr> in
         if \<not> svr_open s1 then (-1, s1)
         else if port = 0 then (case sock_port of None \<Rightarrow> (-1, s1) | Some n \<Rightarrow> (n, s1))
         else (port, s1)))"

definition bind_to_port :: "int \<Rightarrow> int option \<Rightarrow> int \<Rightarrow> listener \<Rightarrow> bool \<times> listener" where
  "bind_to_port created sock_port port s =
     (case bind_internal created sock_port port s of
        (ret, s1) \<Rightarrow> (0 \<le> ret, if ret = -1 then s1\<lparr>is_decommissioned := True\<rparr> else s1))"

text \<open>The start of \<open>listen_internal\<close> with the pool of \<open>new_task_queue\<close>; \<open>None\<close> is \<open>return false\<close>.\<close>

definition listen_start :: "int pool \<Rightarrow> listener \<Rightarrow> listener option" where
  "listen_start new_queue s =
     (if is_decommissioned s then None else Some (s\<lparr>is_running := True, task_queue := new_queue\<rparr>))"

definition accept_socket :: "bool \<Rightarrow> int \<Rightarrow> listener \<Rightarrow> listen_control \<times> listener" where
  "accept_socket can_spawn sock s =
     (case enqueue can_spawn sock (task_queue s) of
        (r, q) \<Rightarrow>
          (let s1 = s\<lparr>task_queue := q, accepted_sockets := accepted_sockets s @ [sock]\<rparr> in
           case r of
             None \<Rightarrow> (Threw_Out, s1)
           | Some True \<Rightarrow> (Loop_Head, s1)
           | Some False \<Rightarrow> (Loop_Head, s1\<lparr>closed_sockets := closed_sockets s1 @ [sock]\<rparr>)))"

text \<open>An error of \<open>accept\<close> other than \<open>EMFILE\<close>, \<open>EINTR\<close> and \<open>EAGAIN\<close>.  The descriptor is closed and
  stays in \<open>svr_sock_\<close>.\<close>

definition accept_failed :: "listener \<Rightarrow> listen_control \<times> listener" where
  "accept_failed s =
     (if svr_open s then (Leaving_Loop False, s\<lparr>server_closes := server_closes s + 1\<rparr>) else (Leaving_Loop True, s))"

definition listen_end :: "bool \<Rightarrow> listener \<Rightarrow> listener" where
  "listen_end ret s = s\<lparr>task_queue := cleanup_finished_threads (task_queue s), is_decommissioned := \<not> ret,
     is_running := False\<rparr>"

text \<open>\<open>stop\<close>; a second call while the server still runs fails an assertion.\<close>

definition stop :: "listener \<Rightarrow> listener res" where
  "stop s =
     (if is_running s then
        (if svr_open s then Inr (s\<lparr>svr_open := False, server_closes := server_closes s + 1, is_decommissioned := False\<rparr>) else Inl Undefined_Behaviour)
      else Inr (s\<lparr>is_decommissioned := False\<rparr>))"

subsection \<open>Steps\<close>

text \<open>Steps of the listening thread, of the workers, and of whoever calls \<open>stop\<close> while the server
  runs.\<close>

inductive listen_step :: "listen_control \<times> listener \<Rightarrow> listen_control \<times> listener \<Rightarrow> bool" where
  goes_on: "svr_open s \<Longrightarrow> listen_step (Loop_Head, s) (At_Accept, s)"
| loop_ends: "\<not> svr_open s \<Longrightarrow> listen_step (Loop_Head, s) (Leaving_Loop True, s)"
| accepts: "listen_step (At_Accept, s) (accept_socket b sock s)"
| again: "listen_step (At_Accept, s) (Loop_Head, s)"
| fails: "listen_step (At_Accept, s) (accept_failed s)"
| shutdown_begins: "listen_step (Leaving_Loop r, s) (Joining_Base r, s\<lparr>task_queue := begin_shutdown (task_queue s)\<rparr>)"
| base_threads_joined: "base_joined (task_queue s) \<Longrightarrow> take_dynamic (task_queue s) = (ts, q) \<Longrightarrow>
    listen_step (Joining_Base r, s) (Joining_Dynamic r ts, s\<lparr>task_queue := q\<rparr>)"
| others_joined: "all_joined ts (task_queue s) \<Longrightarrow> listen_step (Joining_Dynamic r ts, s) (Returned r, listen_end r s)"
| worker: "worker_step (task_queue s) e q \<Longrightarrow>
    listen_step (pc, s) (pc, s\<lparr>task_queue := q, closed_sockets := closed_sockets s @ completed_by e\<rparr>)"
| stopped: "is_running s \<Longrightarrow> stop s = Inr s' \<Longrightarrow> listen_step (pc, s) (pc, s')"

inductive listen_run :: "listen_control \<times> listener \<Rightarrow> nat \<Rightarrow> listen_control \<times> listener \<Rightarrow> bool" for c0 where
  no_step: "listen_run c0 0 c0"
| one_more: "listen_run c0 n c \<Longrightarrow> listen_step c c' \<Longrightarrow> listen_run c0 (Suc n) c'"

inductive_cases listen_stepE: "listen_step c c'"

subsection \<open>Nothing is lost\<close>

text \<open>Every connection is queued, in the hands of a worker, or closed.\<close>

definition sockets_kept :: "listener \<Rightarrow> bool" where
  "sockets_kept s \<longleftrightarrow> mset (accepted_sockets s)
     = mset (closed_sockets s) + mset (jobs (task_queue s)) + in_hand (task_queue s)"

definition ids_listed :: "nat list \<Rightarrow> 'j pool \<Rightarrow> bool" where
  "ids_listed ts p \<longleftrightarrow> (\<forall>t \<in> set ts. t < length (workers p)) \<and> (\<forall>t < length (workers p). is_dynamic t p \<and> worker_at t p \<noteq> Gone \<longrightarrow> t \<in> set ts)"

text \<open>What holds at each point: before the dynamic threads are taken off their list, the list has
  every one that runs; afterwards the caller of \<open>shutdown\<close> has it.\<close>

fun threads_known :: "listen_control \<Rightarrow> int pool \<Rightarrow> bool" where
  "threads_known (Joining_Dynamic r ts) p \<longleftrightarrow> shutdown_flag p \<and> base_joined p \<and> ids_listed ts p"
| "threads_known (Joining_Base r) p \<longleftrightarrow> shutdown_flag p \<and> ids_listed (dynamic_threads p) p"
| "threads_known (Returned r) p \<longleftrightarrow> shutdown_flag p \<and> list_all (\<lambda>w. snd w = Gone) (workers p)"
| "threads_known Threw_Out p \<longleftrightarrow> True"
| "threads_known pc p \<longleftrightarrow> ids_listed (dynamic_threads p) p"

definition listen_ok :: "listen_control \<times> listener \<Rightarrow> bool" where
  "listen_ok c \<longleftrightarrow> (case c of (pc, s) \<Rightarrow> pool_ok (task_queue s) \<and> 0 < base_thread_count (task_queue s)
     \<and> sockets_kept s \<and> threads_known pc (task_queue s))"

subsection \<open>The steps of a worker\<close>

lemma worker_step_sockets:
  "worker_step p e p' \<Longrightarrow> mset (completed_by e) + mset (jobs p') + in_hand p' = mset (jobs p) + in_hand p"
proof (induction rule: worker_step.induct)
  case (enters t p)
  show ?case
  proof (cases "work_ready (park t p)")
    case True
    then show ?thesis
      using leave_wait_taken [of t "park t p"] park_at [OF enters(1)] in_hand_park [OF enters] enters(1)
      by (simp add: enter_wait_def Let_def) (metis mset_append union_assoc union_commute)
  next
    case False
    then show ?thesis using park_at [OF enters(1)] in_hand_park [OF enters] by (simp add: enter_wait_def Let_def)
  qed
next
  case (wakes t p)
  then show ?case
    using leave_wait_taken [of t p] by simp (metis mset_append union_assoc union_commute)
next
  case (times_out t p)
  let ?q = "move_to_finished t (p\<lparr>idle_thread_count := idle_thread_count p - 1\<rparr>)"
  have "workers ?q = workers p" "jobs ?q = jobs p" by (simp_all add: move_to_finished_def)
  then show ?case
    using times_out in_hand_set_worker [of t ?q Gone] by (simp add: idle_timeout_def worker_at_def in_hand_def)
next
  case (completes t p j)
  then show ?case using in_hand_set_worker [of t p Fresh] by (simp add: end_job_def)
qed

text \<open>A thread that has ended stays so, its list loses it at most, and no worker becomes dynamic.\<close>

definition ends_kept :: "'j pool \<Rightarrow> 'j pool \<Rightarrow> bool" where
  "ends_kept p p' \<longleftrightarrow> length (workers p') = length (workers p)
     \<and> set (dynamic_threads p') \<subseteq> set (dynamic_threads p)
     \<and> (\<forall>t < length (workers p). is_dynamic t p' = is_dynamic t p
          \<and> (worker_at t p = Gone \<longrightarrow> worker_at t p' = Gone)
          \<and> (worker_at t p' \<noteq> Gone \<and> t \<in> set (dynamic_threads p) \<longrightarrow> t \<in> set (dynamic_threads p')))"

lemma set_worker_nth:
  "workers (set_worker t w p) ! s
     = (if s = t \<and> t < length (workers p) then (fst (workers p ! t), w) else workers p ! s)"
  by (cases "t < length (workers p)") (simp_all add: set_worker_def nth_list_update list_update_beyond not_less)

lemma set_worker_at:
  "worker_at s (set_worker t w p) = (if s = t \<and> t < length (workers p) then w else worker_at s p)"
  "is_dynamic s (set_worker t w p) = is_dynamic s p"
  by (simp_all add: worker_at_def is_dynamic_def set_worker_nth)

lemma ends_kept_set: "worker_at t p \<noteq> Gone \<Longrightarrow> ends_kept p (set_worker t w p)"
  by (auto simp: ends_kept_def set_worker_at)

lemma ends_kept_trans: "ends_kept p q \<Longrightarrow> ends_kept q r \<Longrightarrow> ends_kept p r"
  by (auto simp: ends_kept_def)

lemma ends_kept_frame:
  "workers p' = workers p \<Longrightarrow> dynamic_threads p' = dynamic_threads p \<Longrightarrow> ends_kept p p'"
  by (simp add: ends_kept_def is_dynamic_def worker_at_def)

lemma ends_kept_leave_wait:
  assumes "worker_at t p = Parked"
  shows "ends_kept p (leave_wait t p)"
proof -
  have "ends_kept p (set_worker t w q)" if "workers q = workers p" "dynamic_threads q = dynamic_threads p" for q w
  proof -
    have "worker_at t q \<noteq> Gone" using assms that by (simp add: worker_at_def)
    then show ?thesis by (rule ends_kept_trans [OF ends_kept_frame [OF that] ends_kept_set])
  qed
  then show ?thesis by (cases "shutdown_flag p \<and> jobs p = []") (simp_all add: leave_wait_def Let_def)
qed

lemma ends_kept_worker_step: "worker_step p e p' \<Longrightarrow> ends_kept p p'"
proof (induction rule: worker_step.induct)
  case (enters t p)
  let ?q = "p\<lparr>idle_thread_count := idle_thread_count p + 1\<rparr>"
  have "ends_kept p ?q" by (rule ends_kept_frame) simp_all
  moreover have "ends_kept ?q (park t p)" unfolding park_def by (rule ends_kept_set) (simp add: enters)
  ultimately have "ends_kept p (park t p)" by (rule ends_kept_trans)
  then show ?case
    using park_at(1) [OF enters(1)] by (auto simp: enter_wait_def Let_def intro: ends_kept_trans ends_kept_leave_wait)
next
  case (wakes t p)
  then show ?case by (simp add: ends_kept_leave_wait)
next
  case (times_out t p)
  then show ?case
    by (auto simp: ends_kept_def idle_timeout_def set_worker_def move_to_finished_def is_dynamic_def worker_at_def
        nth_list_update in_set_remove1 dest: subsetD [OF set_remove1_subset] split: if_splits)
next
  case (completes t p j)
  then show ?case unfolding end_job_def by (intro ends_kept_set) simp
qed

subsection \<open>The invariant of the listening server\<close>

lemma ends_kept_known:
  assumes "ends_kept p p'" "shutdown_flag p' = shutdown_flag p" "threads_known pc p"
  shows "threads_known pc p'"
proof -
  have l: "ids_listed ts p \<Longrightarrow> ids_listed ts p'" "ids_listed (dynamic_threads p) p \<Longrightarrow> ids_listed (dynamic_threads p') p'" for ts
    using assms(1) by (force simp: ids_listed_def ends_kept_def)+
  have g: "list_all (\<lambda>w. fst w \<or> snd w = Gone) (workers p')" if "list_all (\<lambda>w. fst w \<or> snd w = Gone) (workers p)"
    using assms(1) that by (auto simp: ends_kept_def list_all_length is_dynamic_def worker_at_def)
  have a: "list_all (\<lambda>w. snd w = Gone) (workers p')" if "list_all (\<lambda>w. snd w = Gone) (workers p)"
    using assms(1) that by (auto simp: ends_kept_def list_all_length worker_at_def)
  show ?thesis using assms(2,3) l g a by (cases pc) (auto simp: base_joined_def)
qed

lemma enqueue_known:
  assumes "enqueue b j p = (r, p')" "ids_listed (dynamic_threads p) p"
  shows "ids_listed (dynamic_threads p') p'"
  using assms(1)
proof (cases rule: enqueue_cases)
  case 1
  then show ?thesis using assms(2) by simp
next
  case (2 q)
  have "ids_listed (dynamic_threads q) q" using assms(2) 2(1) by (simp add: ids_listed_def is_dynamic_def worker_at_def)
  moreover from this have "ids_listed (dynamic_threads (spawn_dynamic q)) (spawn_dynamic q)"
    by (auto simp: ids_listed_def spawn_dynamic_def cleanup_finished_threads_def is_dynamic_def worker_at_def nth_append less_Suc_eq)
  ultimately show ?thesis
    using 2(5) by (auto simp: cleanup_finished_threads_def ids_listed_def is_dynamic_def worker_at_def)
qed

lemma enqueue_base: "enqueue b j p = (r, p') \<Longrightarrow> base_thread_count p' = base_thread_count p"
  by (erule enqueue_cases) (auto simp: spawn_dynamic_def cleanup_finished_threads_def)

lemma listen_ok_accept:
  assumes "listen_ok (At_Accept, s)"
  shows "listen_ok (accept_socket b sock s)"
proof -
  obtain r q where e: "enqueue b sock (task_queue s) = (r, q)" by fastforce
  have "pool_ok q" "0 < base_thread_count q" "ids_listed (dynamic_threads q) q"
    using assms e by (auto simp: listen_ok_def enqueue_base intro: pool_ok_enqueue enqueue_known)
  then show ?thesis
    using assms enqueue_jobs [OF e]
    by (cases "r = Some False"; cases "r = None")
      (auto simp: accept_socket_def e listen_ok_def sockets_kept_def)
qed

lemma listen_ok_worker:
  assumes "listen_ok (pc, s)" "worker_step (task_queue s) e q"
  shows "listen_ok (pc, s\<lparr>task_queue := q, closed_sockets := closed_sockets s @ completed_by e\<rparr>)"
proof -
  have b: "base_thread_count q = base_thread_count (task_queue s)"
    using worker_step_limits [OF assms(2)] by (simp add: pool_limits_def)
  have k: "threads_known pc q"
    using ends_kept_known [OF ends_kept_worker_step [OF assms(2)] worker_step_flag [OF assms(2)]] assms(1)
    by (simp add: listen_ok_def)
  show ?thesis
    using assms(1) pool_ok_worker_step [OF assms(2)] worker_step_sockets [OF assms(2)] b k
    by (simp add: listen_ok_def sockets_kept_def add.assoc)
qed

lemma all_threads_gone:
  assumes "base_joined p" "ids_listed ts p" "all_joined ts p"
  shows "list_all (\<lambda>w. snd w = Gone) (workers p)"
proof -
  have "worker_at t p = Gone" if "t < length (workers p)" for t
  proof (cases "is_dynamic t p")
    case True
    then show ?thesis using assms(2,3) that by (auto simp: ids_listed_def all_joined_def list_all_iff)
  next
    case False
    then show ?thesis using assms(1) that by (auto simp: base_joined_def list_all_length is_dynamic_def worker_at_def)
  qed
  then show ?thesis by (simp add: list_all_length worker_at_def)
qed

lemma pool_frame [simp]:
  "worker_at t (begin_shutdown p) = worker_at t p" "is_dynamic t (begin_shutdown p) = is_dynamic t p"
  "workers (begin_shutdown p) = workers p" "dynamic_threads (begin_shutdown p) = dynamic_threads p"
  "jobs (begin_shutdown p) = jobs p" "in_hand (begin_shutdown p) = in_hand p"
  "shutdown_flag (begin_shutdown p) = True" "base_thread_count (begin_shutdown p) = base_thread_count p"
  by (simp_all add: begin_shutdown_def worker_at_def is_dynamic_def)

lemma listen_ok_step: "listen_step c c' \<Longrightarrow> listen_ok c \<Longrightarrow> listen_ok c'"
proof (induction rule: listen_step.induct)
  case (accepts s b sock)
  then show ?case by (rule listen_ok_accept)
next
  case (shutdown_begins r s)
  then show ?case by (simp add: listen_ok_def sockets_kept_def ids_listed_def pool_ok_flags)
next
  case (base_threads_joined s ts q r)
  then have q: "q = (task_queue s)\<lparr>dynamic_threads := []\<rparr>" "ts = dynamic_threads (task_queue s)"
    by (simp_all add: take_dynamic_def)
  have "pool_ok q" using base_threads_joined pool_ok_flags(2) [of "task_queue s"] by (simp add: listen_ok_def)
  then show ?case
    using base_threads_joined
    by (simp add: q listen_ok_def sockets_kept_def ids_listed_def base_joined_def is_dynamic_def worker_at_def)
next
  case (others_joined ts s r)
  then have "list_all (\<lambda>w. snd w = Gone) (workers (task_queue s))"
    by (intro all_threads_gone) (simp_all add: listen_ok_def)
  then show ?case
    using others_joined
    by (simp add: listen_ok_def sockets_kept_def listen_end_def pool_ok_cleanup)
      (simp add: cleanup_finished_threads_def)
next
  case (worker s e q pc)
  then show ?case by (intro listen_ok_worker)
next
  case (stopped s s' pc)
  then show ?case by (auto simp: stop_def listen_ok_def sockets_kept_def split: if_splits)
qed (auto simp: listen_ok_def accept_failed_def sockets_kept_def split: if_splits)

lemma listen_ok_run: "listen_run c n c' \<Longrightarrow> listen_ok c \<Longrightarrow> listen_ok c'"
  by (induction rule: listen_run.induct) (auto intro: listen_ok_step)

text \<open>A server that has just begun to listen.\<close>

definition fresh_listener :: "listener \<Rightarrow> bool" where
  "fresh_listener s \<longleftrightarrow> accepted_sockets s = [] \<and> closed_sockets s = []"

lemma listen_ok_start:
  assumes "new_thread_pool n max_n mqr = Inr q" "0 < n" "fresh_listener s" "listen_start q s = Some s0"
  shows "listen_ok (Loop_Head, s0)"
proof -
  have "s0 = s\<lparr>is_running := True, task_queue := q\<rparr>" using assms(4) by (simp add: listen_start_def split: if_splits)
  moreover have "base_thread_count q = n" "ids_listed (dynamic_threads q) q" "jobs q = []"
    using assms(1) by (auto simp: new_thread_pool_def ids_listed_def is_dynamic_def split: if_splits)
  moreover have "in_hand q = {#}" using history_new [OF assms(1)] by (simp add: pool_history_def)
  ultimately show ?thesis
    using assms(2,3) pool_ok_new [OF assms(1)] by (simp add: listen_ok_def sockets_kept_def fresh_listener_def)
qed

subsection \<open>The loop comes to its end\<close>

fun control_work :: "listen_control \<Rightarrow> nat" where
  "control_work At_Accept = 10"
| "control_work Loop_Head = 4"
| "control_work (Leaving_Loop r) = 3"
| "control_work (Joining_Base r) = 2"
| "control_work (Joining_Dynamic r ts) = 1"
| "control_work (Returned r) = 0"
| "control_work Threw_Out = 0"

definition listen_work :: "listen_control \<times> listener \<Rightarrow> nat" where
  "listen_work c = (case c of (pc, s) \<Rightarrow>
     control_work pc + pool_work (task_queue s) + (if svr_open s then 1 else 0))"

definition ending :: "listen_control \<times> listener \<Rightarrow> bool" where
  "ending c \<longleftrightarrow> (case c of (pc, s) \<Rightarrow> svr_open s \<longrightarrow> pc \<noteq> Loop_Head \<and> pc \<noteq> At_Accept)"

lemma enqueue_work: "enqueue b j p = (r, p') \<Longrightarrow> pool_work p' \<le> pool_work p + 5"
  by (erule enqueue_cases) (auto simp: pool_work_def spawn_dynamic_def cleanup_finished_threads_def)

lemma pool_work_simps [simp]:
  "pool_work (begin_shutdown p) = pool_work p" "pool_work (p\<lparr>dynamic_threads := ts\<rparr>) = pool_work p"
  "pool_work (cleanup_finished_threads p) = pool_work p"
  by (simp_all add: begin_shutdown_def pool_work_def cleanup_finished_threads_def)

lemma accept_work:
  assumes "\<not> svr_open s"
  shows "ending (accept_socket b sock s) \<and> listen_work (accept_socket b sock s) < listen_work (At_Accept, s)"
proof -
  obtain r q where e: "enqueue b sock (task_queue s) = (r, q)" by fastforce
  show ?thesis
    using enqueue_work [OF e] assms
    by (cases "r = Some False"; cases "r = None") (auto simp: accept_socket_def e ending_def listen_work_def)
qed

lemma ending_step: "listen_step c c' \<Longrightarrow> ending c \<Longrightarrow> ending c' \<and> listen_work c' < listen_work c"
proof (induction rule: listen_step.induct)
  case (accepts s b sock)
  then show ?case by (intro accept_work) (simp add: ending_def)
next
  case (worker s e q pc)
  then show ?case using worker_step_work [OF worker(1)] by (auto simp: ending_def listen_work_def)
next
  case (base_threads_joined s ts q r)
  then show ?case by (auto simp: ending_def listen_work_def take_dynamic_def)
qed (auto simp: ending_def listen_work_def accept_failed_def listen_end_def stop_def split: if_splits)

lemma ending_run: "listen_run c n c' \<Longrightarrow> ending c \<Longrightarrow> ending c' \<and> n + listen_work c' \<le> listen_work c"
  by (induction rule: listen_run.induct) (auto dest: ending_step)

lemma base_threads_gone:
  assumes "list_all (\<lambda>w. snd w = Gone) (workers p)"
  shows "base_joined p"
  using assms by (auto simp: base_joined_def list_all_iff)

lemma stuck_returned:
  assumes "\<And>c. \<not> listen_step (pc, s) c" "listen_ok (pc, s)"
  shows "(\<exists>r. pc = Returned r) \<or> pc = Threw_Out"
proof -
  have w: "\<not> worker_step (task_queue s) e q" for e q using assms(1) worker by blast
  note gone = stuck_empty(3) [OF w]
  show ?thesis
  proof (cases pc)
    case Loop_Head
    then show ?thesis using assms(1) goes_on loop_ends by blast
  next
    case At_Accept
    then show ?thesis using assms(1) again by blast
  next
    case (Leaving_Loop r)
    then show ?thesis using assms(1) shutdown_begins by blast
  next
    case (Joining_Base r)
    then have "base_joined (task_queue s)" using assms(2) gone by (auto simp: listen_ok_def intro: base_threads_gone)
    then show ?thesis using assms(1) base_threads_joined [OF _ surjective_pairing] Joining_Base by blast
  next
    case (Joining_Dynamic r ts)
    have "worker_at t (task_queue s) = Gone" if "t < length (workers (task_queue s))" for t
      using stuck_gone [OF w] assms(2) Joining_Dynamic that by (simp add: listen_ok_def)
    then have "all_joined ts (task_queue s)"
      using assms(2) Joining_Dynamic by (auto simp: all_joined_def list_all_iff listen_ok_def ids_listed_def)
    then show ?thesis using assms(1) others_joined Joining_Dynamic by blast
  qed simp_all
qed

lemma listen_run_append: "listen_run c' m c'' \<Longrightarrow> listen_run c n c' \<Longrightarrow> listen_run c (n + m) c''"
  by (induction rule: listen_run.induct) (auto intro: listen_run.one_more)

subsection \<open>One connection, and a stop while it is served\<close>

definition small_queue :: "int pool" where "small_queue = projr (new_thread_pool 1 0 0)"

definition small_listener :: listener where
  "small_listener = \<lparr>svr_open = True, is_running = False, is_decommissioned = False, task_queue = small_queue,
     server_closes = 0, accepted_sockets = [], closed_sockets = []\<rparr>"

definition busy_listener :: "bool \<Rightarrow> listener" where
  "busy_listener open = small_listener\<lparr>is_running := True, svr_open := open, server_closes := (if open then 0 else 1),
     task_queue := small_queue\<lparr>workers := [(False, Busy 9)]\<rparr>, accepted_sockets := [9]\<rparr>"

definition idle_listener :: "bool \<Rightarrow> int worker \<Rightarrow> nat list \<Rightarrow> listener" where
  "idle_listener flag w ts = small_listener\<lparr>is_running := True, svr_open := False, server_closes := 1,
     task_queue := small_queue\<lparr>workers := [(False, w)], shutdown_flag := flag, dynamic_threads := ts\<rparr>,
     accepted_sockets := [9], closed_sockets := [9]\<rparr>"

lemma small_pool: "new_thread_pool 1 0 0 = Inr small_queue"
  by (simp add: small_queue_def new_thread_pool_def)

lemma small_queue_eq: "small_queue = \<lparr>base_thread_count = 1, max_thread_count = 1, max_queued_requests = 0,
    idle_thread_count = 0, shutdown_flag = False, jobs = [], workers = [(False, Fresh)], dynamic_threads = [],
    finished_threads = []\<rparr>"
  by (simp add: small_queue_def new_thread_pool_def)

lemmas listener_eqs = small_listener_def busy_listener_def idle_listener_def small_queue_eq worker_at_def set_worker_def
  enter_wait_def park_def leave_wait_def work_ready_def event_of_def end_job_def begin_shutdown_def

lemma small_start: "listen_start small_queue small_listener = Some (small_listener\<lparr>is_running := True\<rparr>)"
  by (simp add: listen_start_def small_listener_def)

lemma small_before_stop: "listen_run (Loop_Head, small_listener\<lparr>is_running := True\<rparr>) 4 (Loop_Head, busy_listener False)"
proof -
  let ?s = "small_listener\<lparr>is_running := True\<rparr>"
  have "listen_step (Loop_Head, ?s) (At_Accept, ?s)" by (rule goes_on) (simp add: small_listener_def)
  note r1 = listen_run.one_more [OF listen_run.no_step this]
  let ?s2 = "?s\<lparr>task_queue := small_queue\<lparr>jobs := [9]\<rparr>, accepted_sockets := [9]\<rparr>"
  have "accept_socket True 9 ?s = (Loop_Head, ?s2)" by (simp add: accept_socket_def enqueue_def listener_eqs)
  then have "listen_step (At_Accept, ?s) (Loop_Head, ?s2)" using accepts [of ?s True 9] by simp
  note r2 = listen_run.one_more [OF r1 this]
  have "worker_step (task_queue ?s2) (event_of 0 (enter_wait 0 (task_queue ?s2))) (enter_wait 0 (task_queue ?s2))"
    by (rule enters) (simp_all add: listener_eqs)
  then have "worker_step (task_queue ?s2) (Started 0 9) (small_queue\<lparr>workers := [(False, Busy 9)]\<rparr>)" by (simp add: listener_eqs)
  from worker [OF this, of Loop_Head] have "listen_step (Loop_Head, ?s2) (Loop_Head, busy_listener True)" by (simp add: listener_eqs)
  note r3 = listen_run.one_more [OF r2 this]
  have "stop (busy_listener True) = Inr (busy_listener False)" by (simp add: stop_def listener_eqs)
  then have "listen_step (Loop_Head, busy_listener True) (Loop_Head, busy_listener False)"
    by (intro stopped) (simp_all add: listener_eqs)
  from listen_run.one_more [OF r3 this] show ?thesis by (simp add: numeral_eq_Suc)
qed

lemma small_after_stop: "listen_run (Loop_Head, busy_listener False) 6 (Returned True, listen_end True (idle_listener True Gone []))"
proof -
  have "worker_step (task_queue (busy_listener False)) (Completed 0 9) (end_job 0 (task_queue (busy_listener False)))"
    by (rule completes) (simp_all add: listener_eqs)
  from worker [OF this, of Loop_Head] have "listen_step (Loop_Head, busy_listener False) (Loop_Head, idle_listener False Fresh [])"
    by (simp add: listener_eqs)
  note r1 = listen_run.one_more [OF listen_run.no_step this]
  have "listen_step (Loop_Head, idle_listener False Fresh []) (Leaving_Loop True, idle_listener False Fresh [])"
    by (rule loop_ends) (simp add: listener_eqs)
  note r2 = listen_run.one_more [OF r1 this]
  have "listen_step (Leaving_Loop True, idle_listener False Fresh []) (Joining_Base True, idle_listener True Fresh [])"
    using shutdown_begins [of True "idle_listener False Fresh []"] by (simp add: listener_eqs)
  note r3 = listen_run.one_more [OF r2 this]
  let ?q = "task_queue (idle_listener True Fresh [])"
  have "worker_step ?q (event_of 0 (enter_wait 0 ?q)) (enter_wait 0 ?q)" by (rule enters) (simp_all add: listener_eqs)
  then have "worker_step ?q Internal (task_queue (idle_listener True Gone []))" by (simp add: listener_eqs)
  from worker [OF this, of "Joining_Base True"]
  have "listen_step (Joining_Base True, idle_listener True Fresh []) (Joining_Base True, idle_listener True Gone [])"
    by (simp add: listener_eqs)
  note r4 = listen_run.one_more [OF r3 this]
  have "listen_step (Joining_Base True, idle_listener True Gone [])
      (Joining_Dynamic True [], (idle_listener True Gone [])\<lparr>task_queue := task_queue (idle_listener True Gone [])\<rparr>)"
    by (rule base_threads_joined) (simp_all add: listener_eqs base_joined_def take_dynamic_def)
  then have "listen_step (Joining_Base True, idle_listener True Gone []) (Joining_Dynamic True [], idle_listener True Gone [])" by simp
  note r5 = listen_run.one_more [OF r4 this]
  have "listen_step (Joining_Dynamic True [], idle_listener True Gone []) (Returned True, listen_end True (idle_listener True Gone []))"
    by (rule others_joined) (simp add: all_joined_def)
  from listen_run.one_more [OF r5 this] show ?thesis by (simp add: numeral_eq_Suc)
qed

subsection \<open>Properties\<close>

text \<open>C17: Every connection is closed exactly once.  Whatever the interleaving of the listening
  thread, the workers and a caller of \<open>stop\<close>, each accepted connection is queued, in the hands of
  one worker, or closed; when \<open>listen\<close> has returned all have been closed, none twice, and every
  thread of the pool has ended.\<close>

theorem connections_closed_once:
  assumes "new_thread_pool n max_n mqr = Inr q" "0 < n" "fresh_listener s" "listen_start q s = Some s0"
    "listen_run (Loop_Head, s0) k (pc, s1)"
  shows "mset (accepted_sockets s1) = mset (closed_sockets s1) + mset (jobs (task_queue s1)) + in_hand (task_queue s1)
    \<and> (pc = Returned r \<longrightarrow> mset (closed_sockets s1) = mset (accepted_sockets s1)
        \<and> list_all (\<lambda>w. snd w = Gone) (workers (task_queue s1)))"
proof -
  have ok: "listen_ok (pc, s1)" using listen_ok_run [OF assms(5) listen_ok_start [OF assms(1-4)]] .
  have "jobs (task_queue s1) = []" "in_hand (task_queue s1) = {#}" if "pc = Returned r"
    using that ok gone_no_jobs [of "task_queue s1"] by (simp_all add: listen_ok_def)
  then show ?thesis using ok by (auto simp: listen_ok_def sockets_kept_def)
qed

theorem connections_closed_once_witness:
  "\<exists>s1. listen_run (Loop_Head, small_listener\<lparr>is_running := True\<rparr>) 10 (Returned True, s1)
    \<and> accepted_sockets s1 = [9] \<and> mset (closed_sockets s1) = {#9#}"
proof -
  have r: "listen_run (Loop_Head, small_listener\<lparr>is_running := True\<rparr>) 10 (Returned True, listen_end True (idle_listener True Gone []))"
    using listen_run_append [OF small_after_stop small_before_stop] by simp
  have a: "accepted_sockets (listen_end True (idle_listener True Gone [])) = [9]" by (simp add: listen_end_def idle_listener_def)
  have f: "fresh_listener small_listener" by (simp add: fresh_listener_def small_listener_def)
  let ?s = "listen_end True (idle_listener True Gone [])"
  have "mset (closed_sockets ?s) = mset (accepted_sockets ?s)"
    using connections_closed_once [OF small_pool zero_less_one f small_start r, of True] by blast
  then show ?thesis using r a by (intro exI [of _ ?s] conjI) simp_all
qed



end
