(* ===== verification/Http_Utf8.thy ===== *)
theory Http_Utf8
  imports Http_Uri
begin

text \<open>
  \<open>is_valid_utf8\<close> of \<open>include/httplib.h\<close>, the check on a WebSocket text message, and its
  equivalence with the encoder \<open>to_utf8\<close> of the same file.
\<close>

subsection \<open>The check\<close>

text \<open>The number of bytes that follow a leading byte, and the bits it contributes.\<close>

definition utf8_lead :: "nat \<Rightarrow> (nat \<times> nat) option" where
  "utf8_lead c =
     (if c div 32 = 6 then Some (1, c mod 32)
      else if c div 16 = 14 then Some (2, c mod 16)
      else if c div 8 = 30 then Some (3, c mod 8)
      else None)"

fun utf8_rest :: "nat \<Rightarrow> string \<Rightarrow> nat option" where
  "utf8_rest cp [] = Some cp"
| "utf8_rest cp (b # s) = (if byte b div 64 \<noteq> 2 then None else utf8_rest (cp * 64 + byte b mod 64) s)"

definition utf8_code_ok :: "nat \<Rightarrow> nat \<Rightarrow> bool" where
  "utf8_code_ok n cp \<longleftrightarrow> \<not> (n = 1 \<and> cp < 0x80) \<and> \<not> (n = 2 \<and> cp < 0x800) \<and> \<not> (n = 3 \<and> cp < 0x10000)
     \<and> \<not> (0xD800 \<le> cp \<and> cp \<le> 0xDFFF) \<and> cp \<le> 0x10FFFF"

function is_valid_utf8 :: "string \<Rightarrow> bool" where
  "is_valid_utf8 [] = True"
| "is_valid_utf8 (c # s) =
     (if byte c < 0x80 then is_valid_utf8 s
      else (case utf8_lead (byte c) of
          None \<Rightarrow> False
        | Some (n, cp0) \<Rightarrow>
            if length s < n then False
            else (case utf8_rest cp0 (take n s) of
                None \<Rightarrow> False
              | Some cp \<Rightarrow> utf8_code_ok n cp \<and> is_valid_utf8 (drop n s))))"
  by pat_completeness auto
termination by (relation "measure length") auto

subsection \<open>What it accepts\<close>

definition scalar_value :: "nat \<Rightarrow> bool" where
  "scalar_value cp \<longleftrightarrow> cp < 0xD800 \<or> 0xE000 \<le> cp \<and> cp < 0x110000"

definition utf8_text :: "nat list \<Rightarrow> string" where
  "utf8_text cps = concat (map (\<lambda>cp. map char_of (to_utf8 cp)) cps)"

text \<open>One encoded scalar value is accepted, and the rest is looked at.\<close>

lemma digits: "a < (b :: nat) \<Longrightarrow> (b * q + a) div b = q" "a < (b :: nat) \<Longrightarrow> (b * q + a) mod b = a"
  by simp_all

lemma lead_two: "a < 32 \<Longrightarrow> utf8_lead (0xC0 + a) = Some (1, a)"
  using digits [of a 32 6] by (simp add: utf8_lead_def)

lemma lead_three: "a < 16 \<Longrightarrow> utf8_lead (0xE0 + a) = Some (2, a)"
  using digits [of a 32 7] digits [of a 16 14] by (simp add: utf8_lead_def)

lemma lead_four: "a < 8 \<Longrightarrow> utf8_lead (0xF0 + a) = Some (3, a)"
  using digits [of "16 + a" 32 7] digits [of a 16 15] digits [of a 8 30] by (simp add: utf8_lead_def)

lemma rest_trail: "b < 64 \<Longrightarrow> utf8_rest a (char_of (0x80 + b :: nat) # s) = utf8_rest (a * 64 + b) s"
  using digits [of b 64 2] byte_char_of [of "0x80 + b"] by simp

lemma two_digits: "cp div 0x1000 * 64 + cp div 64 mod 64 = cp div (64 :: nat)"
  using div_mult_mod_eq [of "cp div 64" 64] by (simp add: div_mult2_eq [symmetric])

lemma three_digits: "cp div 0x40000 * 64 + cp div 0x1000 mod 64 = cp div (0x1000 :: nat)"
  using div_mult_mod_eq [of "cp div 0x1000" 64] by (simp add: div_mult2_eq [symmetric])

lemma last_digit: "cp div 64 * 64 + cp mod 64 = (cp :: nat)"
  by (rule div_mult_mod_eq)

lemma add_digit: "(a * 64 + b mod 64) div 64 = a" "(a * 64 + b mod 64) mod 64 = b mod (64 :: nat)"
  by simp_all

lemma trail_byte: "b div 64 = 2 \<Longrightarrow> 0x80 + b mod 64 = (b :: nat)"
  using div_mult_mod_eq [of b 64] by simp

lemma valid_lead:
  assumes "byte c = l" "0x80 \<le> l" "utf8_lead l = Some (length bs, a)" "utf8_rest a bs = Some cp"
    "utf8_code_ok (length bs) cp"
  shows "is_valid_utf8 (c # bs @ s) = is_valid_utf8 s"
  using assms by simp

lemma valid_scalar:
  assumes "scalar_value cp"
  shows "is_valid_utf8 (map char_of (to_utf8 cp) @ s) = is_valid_utf8 s"
proof -
  consider "cp < 0x80" | "0x80 \<le> cp" "cp < 0x800" | "0x800 \<le> cp" "cp < 0x10000" | "0x10000 \<le> cp" "cp < 0x110000"
    using assms unfolding scalar_value_def by linarith
  then show ?thesis
  proof cases
    case 1
    then show ?thesis by (simp add: to_utf8_def byte_char_of)
  next
    case 2
    have b: "cp div 64 < 32" "cp mod 64 < 64" using 2 by auto
    have c: "byte (char_of (0xC0 + cp div 64)) = 0xC0 + cp div 64" by (rule byte_char_of) (use b in simp)
    have "is_valid_utf8 (char_of (0xC0 + cp div 64) # [char_of (0x80 + cp mod 64)] @ s) = is_valid_utf8 s"
      by (rule valid_lead [OF c _ _ _, where a = "cp div 64" and cp = cp])
         (use 2 b in \<open>simp_all only: rest_trail lead_two utf8_code_ok_def last_digit utf8_rest.simps(1), simp_all\<close>)
    then show ?thesis using 2 by (simp add: to_utf8_def)
  next
    case 3
    have b: "cp div 0x1000 < 16" "cp div 64 mod 64 < 64" "cp mod 64 < 64" using 3 by auto
    have c: "byte (char_of (0xE0 + cp div 0x1000)) = 0xE0 + cp div 0x1000" by (rule byte_char_of) (use b in simp)
    have sv: "\<not> (0xD800 \<le> cp \<and> cp \<le> 0xDFFF)" using assms by (auto simp: scalar_value_def)
    have e: "(cp div 0x1000 * 64 + cp div 64 mod 64) * 64 + cp mod 64 = cp"
      by (simp only: two_digits last_digit)
    have "is_valid_utf8 (char_of (0xE0 + cp div 0x1000) # [char_of (0x80 + cp div 64 mod 64), char_of (0x80 + cp mod 64)] @ s)
        = is_valid_utf8 s"
      by (rule valid_lead [OF c _ _ _, where a = "cp div 0x1000" and cp = cp])
         (use 3 b sv in \<open>simp_all only: rest_trail lead_three utf8_code_ok_def e utf8_rest.simps(1), simp_all\<close>)
    then show ?thesis using 3 assms by (auto simp add: to_utf8_def scalar_value_def)
  next
    case 4
    have b: "cp div 0x40000 < 8" "cp div 0x1000 mod 64 < 64" "cp div 64 mod 64 < 64" "cp mod 64 < 64" using 4 by auto
    have c: "byte (char_of (0xF0 + cp div 0x40000)) = 0xF0 + cp div 0x40000" by (rule byte_char_of) (use b in simp)
    have e: "((cp div 0x40000 * 64 + cp div 0x1000 mod 64) * 64 + cp div 64 mod 64) * 64 + cp mod 64 = cp"
      by (simp only: three_digits two_digits last_digit)
    have "is_valid_utf8 (char_of (0xF0 + cp div 0x40000) # [char_of (0x80 + cp div 0x1000 mod 64),
        char_of (0x80 + cp div 64 mod 64), char_of (0x80 + cp mod 64)] @ s) = is_valid_utf8 s"
      by (rule valid_lead [OF c _ _ _, where a = "cp div 0x40000" and cp = cp])
         (use 4 b in \<open>simp_all only: rest_trail lead_four utf8_code_ok_def e utf8_rest.simps(1), simp_all\<close>)
    then show ?thesis using 4 by (simp add: to_utf8_def)
  qed
qed

lemma utf8_text_valid: "set cps \<subseteq> Collect scalar_value \<Longrightarrow> is_valid_utf8 (utf8_text cps)"
  by (induction cps) (auto simp: utf8_text_def valid_scalar)

text \<open>What is accepted is the encoding of the code point that was computed.\<close>

lemma char_byte: "n = byte c \<Longrightarrow> char_of n = c"
  by simp

lemma accepted_code:
  assumes "utf8_lead (byte c) = Some (n, cp0)" "length bs = n" "utf8_rest cp0 bs = Some cp" "utf8_code_ok n cp"
  shows "scalar_value cp \<and> map char_of (to_utf8 cp) = c # bs"
proof -
  have r: "scalar_value cp" using assms(4) by (auto simp: utf8_code_ok_def scalar_value_def)
  consider "n = 1" "byte c div 32 = 6" "cp0 = byte c mod 32" | "n = 2" "byte c div 16 = 14" "cp0 = byte c mod 16"
    | "n = 3" "byte c div 8 = 30" "cp0 = byte c mod 8"
    using assms(1) by (auto simp: utf8_lead_def split: if_splits)
  then show ?thesis
  proof cases
    case 1
    obtain b where b: "bs = [b]" using assms(2) 1 by (auto simp: length_Suc_conv)
    have d: "byte b div 64 = 2" "cp = cp0 * 64 + byte b mod 64" using assms(3) by (auto simp: b split: if_splits)
    have "0x80 \<le> cp" using assms(4) 1 by (simp add: utf8_code_ok_def)
    moreover have q: "cp div 64 = byte c mod 32" "cp mod 64 = byte b mod 64" unfolding d(2) 1(3) by (rule add_digit)+
    moreover have "cp < 0x800" using q(1) by (simp add: div_less_iff_less_mult [symmetric, of 64])
    moreover have "0xC0 + cp div 64 = byte c" using q(1) 1(2) div_mult_mod_eq [of "byte c" 32] by simp
    moreover have "0x80 + cp mod 64 = byte b" unfolding q(2) by (rule trail_byte [OF d(1)])
    ultimately show ?thesis using r by (simp add: to_utf8_def b)
  next
    case 2
    obtain b1 b2 where b: "bs = [b1, b2]" using assms(2) 2 by (auto simp: length_Suc_conv numeral_2_eq_2)
    have d: "byte b1 div 64 = 2" "byte b2 div 64 = 2" "cp = (cp0 * 64 + byte b1 mod 64) * 64 + byte b2 mod 64"
      using assms(3) by (auto simp: b split: if_splits)
    have low: "0x800 \<le> cp" using assms(4) 2 by (simp add: utf8_code_ok_def)
    have q: "cp div 64 = cp0 * 64 + byte b1 mod 64" "cp mod 64 = byte b2 mod 64" unfolding d(3) by (rule add_digit)+
    have q1: "cp div 0x1000 = byte c mod 16" using arg_cong [OF q(1), of "\<lambda>n. n div 64"] 2(3)
      by (simp add: div_mult2_eq [symmetric])
    have q2: "cp div 64 mod 64 = byte b1 mod 64" unfolding q(1) by (rule add_digit)
    have "cp < 0x10000" using q1 by (simp add: div_less_iff_less_mult [symmetric, of 0x1000])
    moreover have "0xE0 + cp div 0x1000 = byte c" using q1 2(2) div_mult_mod_eq [of "byte c" 16] by simp
    moreover have "0x80 + cp div 64 mod 64 = byte b1" unfolding q2 by (rule trail_byte [OF d(1)])
    moreover have "0x80 + cp mod 64 = byte b2" unfolding q(2) by (rule trail_byte [OF d(2)])
    moreover note low
    ultimately show ?thesis using r by (auto simp add: to_utf8_def b scalar_value_def)
  next
    case 3
    obtain b1 b2 b3 where b: "bs = [b1, b2, b3]" using assms(2) 3 by (auto simp: length_Suc_conv numeral_3_eq_3)
    have d: "byte b1 div 64 = 2" "byte b2 div 64 = 2" "byte b3 div 64 = 2"
      "cp = ((cp0 * 64 + byte b1 mod 64) * 64 + byte b2 mod 64) * 64 + byte b3 mod 64"
      using assms(3) by (auto simp: b split: if_splits)
    have range: "0x10000 \<le> cp" "cp < 0x110000" using assms(4) 3 by (simp_all add: utf8_code_ok_def)
    have q: "cp div 64 = (cp0 * 64 + byte b1 mod 64) * 64 + byte b2 mod 64" "cp mod 64 = byte b3 mod 64"
      unfolding d(4) by (rule add_digit)+
    have q1: "cp div 0x1000 = cp0 * 64 + byte b1 mod 64" using arg_cong [OF q(1), of "\<lambda>n. n div 64"]
      by (simp add: div_mult2_eq [symmetric])
    have q2: "cp div 0x40000 = byte c mod 8" using arg_cong [OF q1, of "\<lambda>n. n div 64"] 3(3)
      by (simp add: div_mult2_eq [symmetric])
    have q3: "cp div 64 mod 64 = byte b2 mod 64" unfolding q(1) by (rule add_digit)
    have q4: "cp div 0x1000 mod 64 = byte b1 mod 64" unfolding q1 by (rule add_digit)
    have "0xF0 + cp div 0x40000 = byte c" using q2 3(2) div_mult_mod_eq [of "byte c" 8] by simp
    moreover have "0x80 + cp div 0x1000 mod 64 = byte b1" unfolding q4 by (rule trail_byte [OF d(1)])
    moreover have "0x80 + cp div 64 mod 64 = byte b2" unfolding q3 by (rule trail_byte [OF d(2)])
    moreover have "0x80 + cp mod 64 = byte b3" unfolding q(2) by (rule trail_byte [OF d(3)])
    moreover note range
    ultimately show ?thesis using r by (simp add: to_utf8_def b)
  qed
qed

lemma valid_is_utf8_text: "is_valid_utf8 s \<Longrightarrow> \<exists>cps. set cps \<subseteq> Collect scalar_value \<and> s = utf8_text cps"
proof (induction s rule: is_valid_utf8.induct)
  case 1
  show ?case by (rule exI [of _ "[]"]) (simp add: utf8_text_def)
next
  case (2 c s)
  show ?case
  proof (cases "byte c < 0x80")
    case True
    then obtain cps where "set cps \<subseteq> Collect scalar_value" "s = utf8_text cps" using 2 by auto
    then show ?thesis using True
      by (intro exI [of _ "byte c # cps"]) (simp add: utf8_text_def, simp add: scalar_value_def to_utf8_def)
  next
    case False
    then obtain n cp0 where l: "utf8_lead (byte c) = Some (n, cp0)" using "2.prems" by (auto split: option.splits)
    then have "n \<le> length s" using "2.prems" False by (auto split: if_splits)
    then obtain cp where n: "utf8_lead (byte c) = Some (n, cp0)" "n \<le> length s" "utf8_rest cp0 (take n s) = Some cp"
      "utf8_code_ok n cp" "is_valid_utf8 (drop n s)"
      using "2.prems" False l by (auto simp: not_less [symmetric] split: option.splits)
    then obtain cps where "set cps \<subseteq> Collect scalar_value" "drop n s = utf8_text cps"
      using "2.IH"(2) [OF False n(1) refl _ n(3)] by auto
    moreover have "scalar_value cp \<and> map char_of (to_utf8 cp) = c # take n s"
      using accepted_code [OF n(1) _ n(3,4)] n(2) by simp
    ultimately show ?thesis
      by (intro exI [of _ "cp # cps"]) (simp add: utf8_text_def, metis append_take_drop_id)
  qed
qed

text \<open>C20: The UTF-8 check of the WebSocket reader is exact: it accepts a text if and only if the
  text is the encoding (by the library's own \<open>to_utf8\<close>) of a sequence of Unicode scalar values.
  Overlong forms, surrogates, code points beyond U+10FFFF, stray and missing trailing bytes are
  all refused, and nothing else is.\<close>

theorem utf8_check_is_exact:
  "is_valid_utf8 s \<longleftrightarrow> (\<exists>cps. set cps \<subseteq> Collect scalar_value \<and> s = utf8_text cps)"
  using valid_is_utf8_text utf8_text_valid by blast

end
