(* ===== verification/Http_Ws.thy ===== *)
theory Http_Ws
  imports Http_Response Http_Utf8
begin

unbundle bit_operations_syntax

text \<open>
  WebSocket frames of \<open>include/httplib.h\<close>: \<open>write_websocket_frame\<close> and \<open>read_websocket_frame\<close>.
  The stream is the one of \<open>Http_Response\<close>; how many bytes each \<open>read\<close> delivers is the
  parameter \<open>avail\<close>, and the bytes of the random masking key are an argument.
\<close>

subsection \<open>Frames\<close>

text \<open>An opcode is the low half of the first byte; the enumeration names six of the sixteen.\<close>

type_synonym opcode = nat

definition Op_Continuation :: opcode where "Op_Continuation = 0"
definition Op_Text :: opcode where "Op_Text = 1"
definition Op_Binary :: opcode where "Op_Binary = 2"
definition Op_Close :: opcode where "Op_Close = 8"
definition Op_Ping :: opcode where "Op_Ping = 9"
definition Op_Pong :: opcode where "Op_Pong = 10"

lemmas opcodes = Op_Continuation_def Op_Text_def Op_Binary_def Op_Close_def Op_Ping_def Op_Pong_def

fun big_endian :: "nat \<Rightarrow> nat \<Rightarrow> string" where
  "big_endian 0 n = []"
| "big_endian (Suc k) n = char_of (n div 256 ^ k mod 256) # big_endian k n"

definition from_big_endian :: "string \<Rightarrow> nat" where
  "from_big_endian s = foldl (\<lambda>n c. n * 256 + byte c) 0 s"

definition mask_char :: "string \<Rightarrow> nat \<Rightarrow> char \<Rightarrow> char" where
  "mask_char key i c = char_of (byte c XOR byte (key ! (i mod 4)))"

definition mask_from :: "string \<Rightarrow> nat \<Rightarrow> string \<Rightarrow> string" where
  "mask_from key offset d = map (\<lambda>(i, c). mask_char key i c) (enumerate offset d)"

text \<open>The masked payload is written in pieces of 4096 bytes.\<close>

function masked_pieces :: "string \<Rightarrow> nat \<Rightarrow> string \<Rightarrow> string list" where
  "masked_pieces key offset d =
     (if d = [] then [] else mask_from key offset (take 4096 d) # masked_pieces key (offset + 4096) (drop 4096 d))"
  by pat_completeness auto
termination by (relation "measure (\<lambda>(key, offset, d). length d)") auto

declare masked_pieces.simps [simp del]

text \<open>The pieces a frame is written in; a mask is a key of four bytes.\<close>

definition frame_pieces :: "opcode \<Rightarrow> string \<Rightarrow> bool \<Rightarrow> string option \<Rightarrow> string list" where
  "frame_pieces op d fin mkey =
     (let b0 = (if fin then 0x80 else 0) + op mod 16;
          m = (if mkey = None then 0 else 0x80);
          n = length d;
          start = (if n < 126 then [[char_of b0, char_of (m + n)]]
            else if n \<le> 0xFFFF then [[char_of b0, char_of (m + 126 :: nat)], big_endian 2 n]
            else [[char_of b0, char_of (m + 127 :: nat)], big_endian 8 n])
      in start @ (case mkey of
           Some key \<Rightarrow> key # masked_pieces key 0 d
         | None \<Rightarrow> if d = [] then [] else [d]))"

text \<open>Only an error ends the writing: a write that takes part of a piece counts as done.\<close>

fun write_pieces :: "string list \<Rightarrow> conn \<Rightarrow> bool \<times> conn" where
  "write_pieces [] c = (True, c)"
| "write_pieces (d # ds) c =
     (case conn_write d c of
        (None, c1) \<Rightarrow> (False, c1)
      | (Some n, c1) \<Rightarrow> write_pieces ds c1)"

definition write_websocket_frame :: "opcode \<Rightarrow> string \<Rightarrow> bool \<Rightarrow> string option \<Rightarrow> conn \<Rightarrow> bool \<times> conn" where
  "write_websocket_frame op d fin mkey c = write_pieces (frame_pieces op d fin mkey) c"

text \<open>A read that gives less than a whole header field ends the reading.\<close>

definition read_field :: "(nat \<Rightarrow> nat) \<Rightarrow> nat \<Rightarrow> string \<Rightarrow> (string \<times> string) option" where
  "read_field avail k s = (case strm_read avail k s of (d, s1) \<Rightarrow> if length d = k then Some (d, s1) else None)"

function read_frame_payload :: "(nat \<Rightarrow> nat) \<Rightarrow> nat \<Rightarrow> string \<Rightarrow> string \<Rightarrow> (string \<times> string) option" where
  "read_frame_payload avail k acc s =
     (if k = 0 then Some (acc, s)
      else (case strm_read avail k s of (d, s1) \<Rightarrow>
        if d = [] then None else read_frame_payload avail (k - length d) (acc @ d) s1))"
  by pat_completeness auto
termination by (relation "measure (\<lambda>(avail, k, acc, s). k)") auto

declare read_frame_payload.simps [simp del]

text \<open>The length a frame announces, and what follows it.\<close>

definition read_frame_length :: "(nat \<Rightarrow> nat) \<Rightarrow> nat \<Rightarrow> string \<Rightarrow> (nat \<times> string) option" where
  "read_frame_length avail n s =
     (if n = 126 then map_option (\<lambda>(ext, s1). (from_big_endian ext, s1)) (read_field avail 2 s)
      else if n = 127 then
        (case read_field avail 8 s of
           None \<Rightarrow> None
         | Some (ext, s1) \<Rightarrow> if 0x80 \<le> byte (hd ext) then None else Some (from_big_endian ext, s1))
      else Some (n, s))"

text \<open>The opcode, the payload, whether it is the final frame, and the rest of the stream; \<open>None\<close> is
  \<open>return false\<close>.\<close>

definition read_websocket_frame :: "(nat \<Rightarrow> nat) \<Rightarrow> bool \<Rightarrow> nat \<Rightarrow> string \<Rightarrow> (opcode \<times> string \<times> bool \<times> string) option" where
  "read_websocket_frame avail expect_masked max_len s =
     (case read_field avail 2 s of
        None \<Rightarrow> None
      | Some (header, s1) \<Rightarrow>
          (let b0 = byte (header ! 0); b1 = byte (header ! 1);
               fin = (0x80 \<le> b0); op = b0 mod 16; masked = (0x80 \<le> b1); n = b1 mod 0x80
           in if b0 div 16 mod 8 \<noteq> 0 then None
              else if 8 \<le> op \<and> (\<not> fin \<or> 125 < n) then None
              else if masked \<noteq> expect_masked then None
              else (case read_frame_length avail n s1 of
                  None \<Rightarrow> None
                | Some (len, s2) \<Rightarrow>
                    if max_len < len then None
                    else (case (if masked then read_field avail 4 s2 else Some ([], s2)) of
                        None \<Rightarrow> None
                      | Some (key, s3) \<Rightarrow>
                          map_option (\<lambda>(d, s4). (op, if masked then mask_from key 0 d else d, fin, s4))
                            (read_frame_payload avail len [] s3)))))"

subsection \<open>A frame is read back\<close>

lemma byte_xor_less: "byte c XOR byte k < 256"
proof -
  have b: "take_bit 8 (byte x) = byte x" for x using byte_less [of x] by (simp add: take_bit_nat_eq_self)
  have "take_bit 8 (byte c XOR byte k) = byte c XOR byte k" by (simp add: take_bit_xor b)
  moreover have "take_bit 8 (byte c XOR byte k) < 2 ^ 8" by (rule take_bit_nat_less_exp)
  ultimately show ?thesis by simp
qed

lemma mask_char_twice: "mask_char key i (mask_char key i c) = c"
proof -
  have "byte (mask_char key i c) = byte c XOR byte (key ! (i mod 4))"
    using byte_xor_less by (simp add: mask_char_def byte_char_of)
  then show ?thesis by (simp add: mask_char_def xor.assoc)
qed

lemma length_mask_from [simp]: "length (mask_from key i d) = length d"
  by (simp add: mask_from_def)

lemma mask_from_append: "mask_from key i (d @ e) = mask_from key i d @ mask_from key (i + length d) e"
  by (simp add: mask_from_def enumerate_append_eq)

lemma mask_from_twice: "mask_from key i (mask_from key i d) = d"
  by (rule nth_equalityI) (simp_all add: mask_from_def nth_enumerate_eq mask_char_twice)

lemma concat_masked_pieces: "concat (masked_pieces key i d) = mask_from key i d"
proof (induction key i d rule: masked_pieces.induct)
  case (1 key i d)
  show ?case
  proof (cases "d = []")
    case True
    then show ?thesis by (simp add: masked_pieces.simps mask_from_def)
  next
    case False
    have "mask_from key (i + length (take 4096 d)) (drop 4096 d) = mask_from key (i + 4096) (drop 4096 d)"
      by (cases "4096 \<le> length d") (simp_all add: mask_from_def)
    then have "mask_from key i (take 4096 d @ drop 4096 d)
        = mask_from key i (take 4096 d) @ mask_from key (i + 4096) (drop 4096 d)"
      by (simp only: mask_from_append)
    then show ?thesis using "1.IH" False by (subst masked_pieces.simps) simp
  qed
qed

lemma length_big_endian [simp]: "length (big_endian k n) = k"
  by (induction k) simp_all

lemma from_big_endian_snoc: "foldl (\<lambda>n c. n * 256 + byte c) a s = a * 256 ^ length s + foldl (\<lambda>n c. n * 256 + byte c) 0 s"
proof (induction s arbitrary: a)
  case (Cons c s)
  have "foldl (\<lambda>n c. n * 256 + byte c) a (c # s) = (a * 256 + byte c) * 256 ^ length s + foldl (\<lambda>n c. n * 256 + byte c) 0 s"
    using Cons.IH [of "a * 256 + byte c"] by simp
  moreover have "foldl (\<lambda>n c. n * 256 + byte c) 0 (c # s) = byte c * 256 ^ length s + foldl (\<lambda>n c. n * 256 + byte c) 0 s"
    using Cons.IH [of "byte c"] by simp
  ultimately show ?case by (simp add: algebra_simps)
qed simp

lemma big_endian_mod: "foldl (\<lambda>n c. n * 256 + byte c) 0 (big_endian k n) = n mod 256 ^ k"
proof (induction k)
  case (Suc k)
  have b: "byte (char_of (n div 256 ^ k mod 256)) = n div 256 ^ k mod 256" by (rule byte_char_of) simp
  have "foldl (\<lambda>n c. n * 256 + byte c) 0 (big_endian (Suc k) n)
      = foldl (\<lambda>n c. n * 256 + byte c) (n div 256 ^ k mod 256) (big_endian k n)"
    by (simp only: big_endian.simps foldl.simps b mult_0 add_0)
  also have "\<dots> = n div 256 ^ k mod 256 * 256 ^ k + n mod 256 ^ k"
    using from_big_endian_snoc [of "n div 256 ^ k mod 256" "big_endian k n"] Suc by simp
  also have "\<dots> = n mod (256 ^ k * 256)" using mod_mult2_eq [of n "256 ^ k" 256] by (simp only: mult.commute)
  also have "\<dots> = n mod 256 ^ Suc k" by (simp only: power_Suc mult.commute)
  finally show ?case .
qed simp

lemma from_big_endian_read: "n < 256 ^ k \<Longrightarrow> from_big_endian (big_endian k n) = n"
  by (simp add: from_big_endian_def big_endian_mod)

lemma read_field_whole:
  assumes "\<forall>n. 8 \<le> avail n" "length d \<le> 8"
  shows "read_field avail (length d) (d @ s) = Some (d, s)"
proof -
  have "8 \<le> avail (length d + length s)" using assms(1) by blast
  then have "min (length d) (max (Suc 0) (avail (length d + length s))) = length d" using assms(2) by (simp add: min_def max_def)
  then show ?thesis by (simp add: read_field_def strm_read_def Let_def)
qed

lemma read_payload_whole: "k \<le> length s \<Longrightarrow> read_frame_payload avail k acc s = Some (acc @ take k s, drop k s)"
proof (induction avail k acc s rule: read_frame_payload.induct)
  case (1 avail k acc s)
  show ?case
  proof (cases "k = 0")
    case True
    then show ?thesis by (simp add: read_frame_payload.simps)
  next
    case False
    obtain d s1 where r: "strm_read avail k s = (d, s1)" by fastforce
    have "s \<noteq> []" using False "1.prems" by auto
    then have d: "s = d @ s1" "length d \<le> k" "d \<noteq> []" using strm_read_split [OF r] False by blast+
    have "read_frame_payload avail k acc s = read_frame_payload avail (k - length d) (acc @ d) s1"
      using False r d(3) by (subst read_frame_payload.simps) simp
    also have "\<dots> = Some ((acc @ d) @ take (k - length d) s1, drop (k - length d) s1)"
    proof (rule "1.IH" [OF False r [symmetric] d(3)])
      show "k - length d \<le> length s1" using "1.prems" by (simp add: d(1))
    qed
    also have "\<dots> = Some (acc @ take k (d @ s1), drop k (d @ s1))" using d(2) by simp
    finally show ?thesis unfolding d(1) [symmetric] .
  qed
qed

definition frame_text :: "opcode \<Rightarrow> string \<Rightarrow> bool \<Rightarrow> string option \<Rightarrow> string" where
  "frame_text op d fin mkey = concat (frame_pieces op d fin mkey)"

lemma write_pieces_all:
  "conn_writes c = [] \<Longrightarrow> write_pieces ds c = (True, c\<lparr>conn_out := conn_out c @ concat ds\<rparr>)"
  by (induction ds arbitrary: c) (simp_all add: conn_write_def)

lemma write_websocket_frame_all:
  "conn_writes c = [] \<Longrightarrow>
     write_websocket_frame op d fin mkey c = (True, c\<lparr>conn_out := conn_out c @ frame_text op d fin mkey\<rparr>)"
  by (simp add: write_websocket_frame_def write_pieces_all frame_text_def)

text \<open>The three forms of the length, and what reading does with the bytes that announce it.\<close>

definition length_code :: "nat \<Rightarrow> nat" where
  "length_code n = (if n < 126 then n else if n \<le> 0xFFFF then 126 else 127)"

definition length_bytes :: "nat \<Rightarrow> string" where
  "length_bytes n = (if n < 126 then [] else if n \<le> 0xFFFF then big_endian 2 n else big_endian 8 n)"

definition body_bytes :: "string option \<Rightarrow> string \<Rightarrow> string" where
  "body_bytes mkey d = (case mkey of Some key \<Rightarrow> key @ mask_from key 0 d | None \<Rightarrow> d)"

lemma frame_text_parts:
  "frame_text op d fin mkey =
     [char_of ((if fin then 0x80 else 0) + op mod 16 :: nat),
      char_of ((if mkey = None then 0 else 0x80) + length_code (length d) :: nat)]
     @ length_bytes (length d) @ body_bytes mkey d"
  by (cases mkey)
     (simp_all add: frame_text_def frame_pieces_def Let_def length_code_def length_bytes_def body_bytes_def
        concat_masked_pieces)

lemma byte_first: "byte (char_of ((if b then 0x80 else 0) + n mod 16 :: nat)) = (if b then 0x80 else 0) + n mod 16"
  by (rule byte_char_of) auto

lemma byte_second: "n < 128 \<Longrightarrow> byte (char_of ((if b then 0 else 0x80) + n :: nat)) = (if b then 0 else 0x80) + n"
  by (rule byte_char_of) auto

lemma first_bits:
  assumes "n < (16 :: nat)"
  shows "((if b then 0x80 else 0) + n mod 16) div 16 mod 8 = 0" "(0x80 \<le> (if b then 0x80 else 0) + n mod 16) = b"
    "((if b then 0x80 else 0) + n mod 16) mod 16 = n"
proof -
  have "(128 + n) div 16 = 8" "(128 + n) mod 16 = n"
    using assms div_mult_self3 [of 16 8 n] mod_mult_self3 [of 8 16 n] by simp_all
  then show "((if b then 0x80 else 0) + n mod 16) div 16 mod 8 = 0" "(0x80 \<le> (if b then 0x80 else 0) + n mod 16) = b"
    "((if b then 0x80 else 0) + n mod 16) mod 16 = n"
    using assms by (cases b; simp)+
qed

lemma second_bits:
  assumes "n < (128 :: nat)"
  shows "((if b then 0 else 0x80) + n) mod 0x80 = n" "(0x80 \<le> (if b then 0 else 0x80) + n) = (\<not> b)"
proof -
  have "(128 + n) mod 128 = n" using assms by (metis mod_add_self1 mod_less)
  then show "((if b then 0 else 0x80) + n) mod 0x80 = n" "(0x80 \<le> (if b then 0 else 0x80) + n) = (\<not> b)"
    using assms by (cases b; simp)+
qed

lemma byte_hd_big_endian: "byte (hd (big_endian (Suc k) n)) = n div 256 ^ k mod 256"
  unfolding big_endian.simps list.sel by (rule byte_char_of) simp

lemma read_length_bytes:
  assumes "\<forall>n. 8 \<le> avail n" "n < 2 ^ 63"
  shows "read_frame_length avail (length_code n) (length_bytes n @ s) = Some (n, s)"
proof -
  have two: "read_field avail 2 (big_endian 2 n @ s) = Some (big_endian 2 n, s)"
    using read_field_whole [OF assms(1), of "big_endian 2 n" s] by simp
  have eight: "read_field avail 8 (big_endian 8 n @ s) = Some (big_endian 8 n, s)"
    using read_field_whole [OF assms(1), of "big_endian 8 n" s] by simp
  have e: "(8 :: nat) = Suc 7" by simp
  have "n div 256 ^ 7 < 0x80" using assms(2) by (simp add: less_mult_imp_div_less)
  then have "byte (hd (big_endian 8 n)) < 0x80" unfolding e byte_hd_big_endian by simp
  moreover have "from_big_endian (big_endian 8 n) = n" using assms(2) by (intro from_big_endian_read) simp
  moreover have "n \<le> 0xFFFF \<Longrightarrow> from_big_endian (big_endian 2 n) = n" by (intro from_big_endian_read) simp
  ultimately show ?thesis
    by (simp add: read_frame_length_def length_code_def length_bytes_def two eight)
qed

lemma read_body_bytes:
  assumes "\<forall>n. 8 \<le> avail n" "\<forall>key. mkey = Some key \<longrightarrow> length key = 4"
  shows "(case (if mkey \<noteq> None then read_field avail 4 (body_bytes mkey d @ s) else Some ([], body_bytes mkey d @ s)) of
        None \<Rightarrow> None
      | Some (key, s3) \<Rightarrow> map_option (\<lambda>(d, s4). (op, if mkey \<noteq> None then mask_from key 0 d else d, fin, s4))
            (read_frame_payload avail (length d) [] s3)) = Some (op, d, fin, s)"
proof (cases mkey)
  case None
  then show ?thesis using read_payload_whole [of "length d" "d @ s" avail "[]"] by (simp add: body_bytes_def)
next
  case (Some key)
  have k: "length key = 4" using assms(2) Some by simp
  have "read_field avail 4 (key @ mask_from key 0 d @ s) = Some (key, mask_from key 0 d @ s)"
    using read_field_whole [OF assms(1), of key "mask_from key 0 d @ s"] k by simp
  moreover have "read_frame_payload avail (length d) [] (mask_from key 0 d @ s) = Some (mask_from key 0 d, s)"
    using read_payload_whole [of "length d" "mask_from key 0 d @ s" avail "[]"] by simp
  ultimately show ?thesis by (simp add: Some body_bytes_def mask_from_twice)
qed

lemma read_frame_text:
  assumes "\<forall>n. 8 \<le> avail n" "op < 16" "8 \<le> op \<longrightarrow> fin \<and> length d \<le> 125" "length d \<le> max_len"
    and "length d < 2 ^ 63" "\<forall>key. mkey = Some key \<longrightarrow> length key = 4"
  shows "read_websocket_frame avail (mkey \<noteq> None) max_len (frame_text op d fin mkey @ s) = Some (op, d, fin, s)"
proof -
  let ?b0 = "(if fin then 0x80 else 0) + op mod 16 :: nat"
  let ?b1 = "(if mkey = None then 0 else 0x80) + length_code (length d) :: nat"
  let ?h = "[char_of ?b0, char_of ?b1]"
  have c: "length_code (length d) < 128" by (simp add: length_code_def)
  have r: "read_field avail 2 (frame_text op d fin mkey @ s) = Some (?h, length_bytes (length d) @ body_bytes mkey d @ s)"
    using read_field_whole [OF assms(1), of ?h] unfolding frame_text_parts by (simp add: numeral_2_eq_2)
  have b0: "byte (?h ! 0) = ?b0" unfolding nth_Cons_0 by (rule byte_first)
  have b1: "byte (?h ! 1) = ?b1" using byte_second [OF c, of "mkey = None"] by simp
  note f = first_bits [OF assms(2), of fin] and g = second_bits [OF c, of "mkey = None"]
  have h: "\<not> (8 \<le> op \<and> (\<not> fin \<or> 125 < length_code (length d)))"
    using assms(3) by (auto simp: length_code_def)
  show ?thesis
    unfolding read_websocket_frame_def r option.case prod.case Let_def b0 b1 f g
    using h read_length_bytes [OF assms(1,5), of "body_bytes mkey d @ s"] assms(4)
      read_body_bytes [OF assms(1,6), where d = d and s = s and op = op and fin = fin]
    by simp
qed

text \<open>C12: A WebSocket frame that \<open>write_websocket_frame\<close> puts on the wire is read back by
  \<open>read_websocket_frame\<close> with the same opcode, payload and final bit, and reading stops
  exactly at its end: for each of the three forms of the length, masked or not, however the
  payload is cut into packets.  Control frames must be final and at most 125 bytes, the length
  within the reader's limit, and no header field may be split between two reads.\<close>

theorem websocket_frame_roundtrip:
  assumes "conn_out c = []" "conn_writes c = []" "\<forall>n. 8 \<le> avail n"
    and "op < 16" "8 \<le> op \<longrightarrow> fin \<and> length d \<le> 125" "length d \<le> max_len" "length d < 2 ^ 63"
    and "\<forall>key. mkey = Some key \<longrightarrow> length key = 4"
  shows "read_websocket_frame avail (mkey \<noteq> None) max_len (conn_out (snd (write_websocket_frame op d fin mkey c)) @ s)
    = Some (op, d, fin, s)"
  using read_frame_text [OF assms(3-8)] by (simp add: write_websocket_frame_all assms(1,2))

theorem websocket_frame_roundtrip_witness:
  "read_websocket_frame (\<lambda>_. 8) True 16777216
     (conn_out (snd (write_websocket_frame Op_Text ''hello'' True (Some ''kEy!'')
        \<lparr>conn_in = [], conn_out = [], conn_writes = []\<rparr>)) @ ''next'') = Some (Op_Text, ''hello'', True, ''next'')"
  using websocket_frame_roundtrip [of "\<lparr>conn_in = [], conn_out = [], conn_writes = []\<rparr>" "\<lambda>_. 8" Op_Text True
      "''hello''" 16777216 "Some ''kEy!''" "''next''"]
  by (simp add: opcodes)

text \<open>A header field that arrives in two packets ends the reading, whatever the frame holds.\<close>

lemma split_header_refused: "read_websocket_frame (\<lambda>_. 1) expect_masked max_len s = None"
proof -
  have "min (length s) (Suc 0) \<noteq> 2" by simp
  then have "read_field (\<lambda>_. 1) 2 s = None" by (simp add: read_field_def strm_read_def Let_def)
  then show ?thesis by (simp add: read_websocket_frame_def)
qed

end
