(* ===== verification/Http_WebSocket.thy ===== *)
theory Http_WebSocket
  imports Http_Ws
begin

text \<open>
  The operations of \<open>WebSocket\<close> (\<open>include/httplib.h\<close>): sending, reading with fragments and
  control frames, closing, and one round of the heartbeat thread.  Both ends use them; a client
  masks what it writes, with keys from a generator that is a parameter of the model.
\<close>

subsection \<open>The socket\<close>

datatype read_result = Read_Fail | Read_Text | Read_Binary

record websocket =
  ws_conn :: conn
  ws_is_server :: bool
  ws_closed :: bool
  ws_unacked_pings :: nat
  ws_random :: "nat \<Rightarrow> string"
  ws_drawn :: nat

definition WEBSOCKET_MAX_PAYLOAD_LENGTH :: nat where "WEBSOCKET_MAX_PAYLOAD_LENGTH = 16777216"

definition Close_GoingAway :: nat where "Close_GoingAway = 1001"
definition Close_InvalidPayload :: nat where "Close_InvalidPayload = 1007"

text \<open>The key of a frame is drawn when the frame is masked, that is, by a client.\<close>

definition ws_mask :: "websocket \<Rightarrow> string option" where
  "ws_mask w = (if ws_is_server w then None else Some (ws_random w (ws_drawn w)))"

definition ws_write :: "opcode \<Rightarrow> string \<Rightarrow> bool \<Rightarrow> websocket \<Rightarrow> bool \<times> websocket" where
  "ws_write op d fin w =
     (case write_websocket_frame op d fin (ws_mask w) (ws_conn w) of (sent, c) \<Rightarrow>
        (sent, w\<lparr>ws_conn := c, ws_drawn := (if ws_is_server w then ws_drawn w else Suc (ws_drawn w))\<rparr>))"

definition send_frame :: "opcode \<Rightarrow> string \<Rightarrow> bool \<Rightarrow> websocket \<Rightarrow> bool \<times> websocket" where
  "send_frame op d fin w = (if ws_closed w then (False, w) else ws_write op d fin w)"

definition ws_send_text :: "string \<Rightarrow> websocket \<Rightarrow> bool \<times> websocket" where
  "ws_send_text d w = send_frame Op_Text d True w"

definition ws_send_binary :: "string \<Rightarrow> websocket \<Rightarrow> bool \<times> websocket" where
  "ws_send_binary d w = send_frame Op_Binary d True w"

text \<open>A frame is read with the opposite masking of what is written.  What a failed read leaves in
  the stream is not read again: every caller gives up.\<close>

definition next_frame :: "(nat \<Rightarrow> nat) \<Rightarrow> nat \<Rightarrow> websocket \<Rightarrow> (opcode \<times> string \<times> bool \<times> websocket) option" where
  "next_frame avail max_len w =
     map_option (\<lambda>(op, d, fin, s). (op, d, fin, w\<lparr>ws_conn := (ws_conn w)\<lparr>conn_in := s\<rparr>\<rparr>))
       (read_websocket_frame avail (ws_is_server w) max_len (conn_in (ws_conn w)))"

lemma read_field_length: "read_field avail k s = Some (d, s1) \<Longrightarrow> length d = k \<and> length s = k + length s1"
  by (auto simp: read_field_def split: prod.splits if_splits dest: strm_read_split)

lemma read_frame_length_shorter: "read_frame_length avail n s = Some (len, s1) \<Longrightarrow> length s1 \<le> length s"
  by (auto simp: read_frame_length_def split: if_splits option.splits dest!: read_field_length)

lemma frame_payload_shorter: "read_frame_payload avail k acc s = Some (d, s1) \<Longrightarrow> length s1 \<le> length s"
proof (induction avail k acc s rule: read_frame_payload.induct)
  case (1 avail k acc s)
  obtain e s2 where r: "strm_read avail k s = (e, s2)" by fastforce
  have "length s2 \<le> length s" using strm_read_split [OF r] by simp
  then show ?case using "1.prems" "1.IH" [OF _ r [symmetric]]
    by (subst (asm) read_frame_payload.simps) (fastforce simp: r split: if_splits)
qed

lemma frame_shorter:
  "read_websocket_frame avail expect_masked max_len s = Some (op, d, fin, s1) \<Longrightarrow> length s1 < length s"
  unfolding read_websocket_frame_def Let_def
  by (fastforce split: option.splits if_splits prod.splits
      dest!: read_field_length read_frame_length_shorter frame_payload_shorter)

lemma ws_write_input [simp]: "conn_in (ws_conn (snd (ws_write op d fin w))) = conn_in (ws_conn w)"
proof -
  have "conn_in (snd (write_pieces ds c)) = conn_in c" for ds c
    by (induction ds arbitrary: c) (auto simp: conn_write_def split: list.splits option.splits)
  then show ?thesis by (simp add: ws_write_def write_websocket_frame_def split: prod.splits) (metis snd_conv)
qed

lemma next_frame_shorter:
  "next_frame avail max_len w = Some (op, d, fin, w1) \<Longrightarrow> length (conn_in (ws_conn w1)) < length (conn_in (ws_conn w))"
  by (auto simp: next_frame_def dest: frame_shorter)

subsection \<open>Reading\<close>

text \<open>What \<open>read\<close> does with a control frame, in a message or between messages.\<close>

definition answer_ping :: "string \<Rightarrow> websocket \<Rightarrow> websocket" where
  "answer_ping d w = snd (ws_write Op_Pong d True w)"

definition note_pong :: "websocket \<Rightarrow> websocket" where
  "note_pong w = w\<lparr>ws_unacked_pings := 0\<rparr>"

definition echo_close :: "string \<Rightarrow> websocket \<Rightarrow> websocket" where
  "echo_close d w = (if ws_closed w then w else snd (ws_write Op_Close d True (w\<lparr>ws_closed := True\<rparr>)))"

lemma answer_input [simp]:
  "conn_in (ws_conn (answer_ping d w)) = conn_in (ws_conn w)"
  "conn_in (ws_conn (note_pong w)) = conn_in (ws_conn w)"
  by (simp_all add: answer_ping_def note_pong_def)

text \<open>The loop over the fragments of a message: whether it was completed, and its text.\<close>

function read_fragments :: "(nat \<Rightarrow> nat) \<Rightarrow> string \<Rightarrow> websocket \<Rightarrow> bool \<times> string \<times> websocket" where
  "read_fragments avail msg w =
     (case next_frame avail WEBSOCKET_MAX_PAYLOAD_LENGTH w of
        None \<Rightarrow> (False, msg, w\<lparr>ws_closed := True\<rparr>)
      | Some (op, d, fin, w1) \<Rightarrow>
          if op = Op_Ping then read_fragments avail msg (answer_ping d w1)
          else if op = Op_Pong then read_fragments avail msg (note_pong w1)
          else if op = Op_Close then (False, msg, echo_close d w1)
          else if op \<noteq> Op_Continuation then (False, msg, w1\<lparr>ws_closed := True\<rparr>)
          else if WEBSOCKET_MAX_PAYLOAD_LENGTH < length (msg @ d) then (False, msg @ d, w1\<lparr>ws_closed := True\<rparr>)
          else if fin then (True, msg @ d, w1)
          else read_fragments avail (msg @ d) w1)"
  by pat_completeness auto
termination
  by (relation "measure (\<lambda>(avail, msg, w). length (conn_in (ws_conn w)))")
     (auto dest: next_frame_shorter)

declare read_fragments.simps [simp del]

text \<open>Closing: the status, at most 123 bytes of the reason, and then the peer's close frame is
  awaited; what arrives before it is thrown away.\<close>

function await_close :: "(nat \<Rightarrow> nat) \<Rightarrow> websocket \<Rightarrow> websocket" where
  "await_close avail w =
     (case next_frame avail 125 w of
        None \<Rightarrow> w
      | Some (op, d, fin, w1) \<Rightarrow> if op = Op_Close then w1 else await_close avail w1)"
  by pat_completeness auto
termination
  by (relation "measure (\<lambda>(avail, w). length (conn_in (ws_conn w)))") (auto dest: next_frame_shorter)

declare await_close.simps [simp del]

definition close_payload :: "nat \<Rightarrow> string \<Rightarrow> string" where
  "close_payload status reason = [char_of (status div 256 mod 256), char_of (status mod 256)] @ take 123 reason"

definition ws_close :: "(nat \<Rightarrow> nat) \<Rightarrow> nat \<Rightarrow> string \<Rightarrow> websocket \<Rightarrow> websocket" where
  "ws_close avail status reason w =
     (if ws_closed w then w
      else await_close avail (snd (ws_write Op_Close (close_payload status reason) True (w\<lparr>ws_closed := True\<rparr>))))"

text \<open>A complete message is handed over; a text that is not UTF-8 closes the connection.\<close>

definition deliver :: "(nat \<Rightarrow> nat) \<Rightarrow> opcode \<Rightarrow> string \<Rightarrow> websocket \<Rightarrow> read_result \<times> string \<times> websocket" where
  "deliver avail op msg w =
     (if op = Op_Text \<and> \<not> is_valid_utf8 msg then
        (Read_Fail, msg, ws_close avail Close_InvalidPayload ''invalid UTF-8'' w)
      else (if op = Op_Text then Read_Text else Read_Binary, msg, w))"

text \<open>\<open>read\<close>: the result, the message, and the socket.\<close>

function ws_read :: "(nat \<Rightarrow> nat) \<Rightarrow> string \<Rightarrow> websocket \<Rightarrow> read_result \<times> string \<times> websocket" where
  "ws_read avail msg w =
     (if ws_closed w then (Read_Fail, msg, w)
      else (case next_frame avail WEBSOCKET_MAX_PAYLOAD_LENGTH w of
          None \<Rightarrow> (Read_Fail, msg, w\<lparr>ws_closed := True\<rparr>)
        | Some (op, d, fin, w1) \<Rightarrow>
            if op = Op_Ping then ws_read avail msg (answer_ping d w1)
            else if op = Op_Pong then ws_read avail msg (note_pong w1)
            else if op = Op_Close then (Read_Fail, msg, echo_close d w1)
            else if op \<noteq> Op_Text \<and> op \<noteq> Op_Binary then (Read_Fail, msg, w1\<lparr>ws_closed := True\<rparr>)
            else if fin then deliver avail op d w1
            else (case read_fragments avail d w1 of
                (False, m, w2) \<Rightarrow> (Read_Fail, m, w2)
              | (True, m, w2) \<Rightarrow> deliver avail op m w2)))"
  by pat_completeness auto
termination
  by (relation "measure (\<lambda>(avail, msg, w). length (conn_in (ws_conn w)))")
     (auto dest: next_frame_shorter)

declare ws_read.simps [simp del]

subsection \<open>The heartbeat\<close>

text \<open>One awakening of the heartbeat thread, and whether it goes back to sleep.\<close>

definition heartbeat :: "(nat \<Rightarrow> nat) \<Rightarrow> int \<Rightarrow> websocket \<Rightarrow> bool \<times> websocket" where
  "heartbeat avail max_missed_pongs w =
     (if ws_closed w then (False, w)
      else if 0 < max_missed_pongs \<and> max_missed_pongs \<le> int (ws_unacked_pings w) then
        (False, ws_close avail Close_GoingAway ''pong timeout'' w)
      else (case send_frame Op_Ping [] True w of
          (False, w1) \<Rightarrow> (False, w1\<lparr>ws_closed := True\<rparr>)
        | (True, w1) \<Rightarrow> (True, w1\<lparr>ws_unacked_pings := Suc (ws_unacked_pings w1)\<rparr>)))"

end
