(* ===== verification/Http_Ws_Session.thy ===== *)
theory Http_Ws_Session
  imports Http_WebSocket
begin

text \<open>
  What a WebSocket session guarantees: nothing is written after the close frame, a fragmented
  message is put together with the control frames between its fragments answered, and a peer
  that stays silent is dropped.
\<close>

subsection \<open>Operations in sequence\<close>

datatype ws_operation = Send_Text string | Send_Binary string | Read_Message | Close_With nat string | Heartbeat

fun ws_step :: "(nat \<Rightarrow> nat) \<Rightarrow> int \<Rightarrow> ws_operation \<Rightarrow> websocket \<Rightarrow> websocket" where
  "ws_step avail mx (Send_Text d) w = snd (ws_send_text d w)"
| "ws_step avail mx (Send_Binary d) w = snd (ws_send_binary d w)"
| "ws_step avail mx Read_Message w = snd (snd (ws_read avail [] w))"
| "ws_step avail mx (Close_With status reason) w = ws_close avail status reason w"
| "ws_step avail mx Heartbeat w = snd (heartbeat avail mx w)"

definition ws_run :: "(nat \<Rightarrow> nat) \<Rightarrow> int \<Rightarrow> ws_operation list \<Rightarrow> websocket \<Rightarrow> websocket" where
  "ws_run avail mx ops w = fold (ws_step avail mx) ops w"

subsection \<open>Nothing follows the close frame\<close>

type_synonym frame = "opcode \<times> string \<times> bool \<times> string option"

definition wire :: "frame list \<Rightarrow> string" where
  "wire fs = concat (map (\<lambda>(op, d, fin, mkey). frame_text op d fin mkey) fs)"

definition unclosed :: "websocket \<Rightarrow> bool" where
  "unclosed w \<longleftrightarrow> conn_writes (ws_conn w) = [] \<and>
     (\<exists>fs. conn_out (ws_conn w) = wire fs \<and> Op_Close \<notin> fst ` set fs)"

definition close_sent :: "websocket \<Rightarrow> bool" where
  "close_sent w \<longleftrightarrow> ws_closed w \<and> conn_writes (ws_conn w) = [] \<and>
     (\<exists>fs f. conn_out (ws_conn w) = wire (fs @ [f]) \<and> Op_Close \<notin> fst ` set fs \<and> fst f = Op_Close)"

definition ws_sound :: "websocket \<Rightarrow> bool" where
  "ws_sound w \<longleftrightarrow> unclosed w \<or> close_sent w"

lemma wire_snoc: "wire (fs @ [(op, d, fin, mkey)]) = wire fs @ frame_text op d fin mkey"
  by (simp add: wire_def)

lemma ws_write_sent:
  assumes "conn_writes (ws_conn w) = []"
  shows "fst (ws_write op d fin w)"
    and "conn_writes (ws_conn (snd (ws_write op d fin w))) = []"
    and "conn_out (ws_conn (snd (ws_write op d fin w))) = conn_out (ws_conn w) @ frame_text op d fin (ws_mask w)"
    and "ws_closed (snd (ws_write op d fin w)) = ws_closed w"
    and "ws_unacked_pings (snd (ws_write op d fin w)) = ws_unacked_pings w"
    and "ws_is_server (snd (ws_write op d fin w)) = ws_is_server w"
  using assms by (simp_all add: ws_write_def write_websocket_frame_all)

lemma unclosed_write: "unclosed w \<Longrightarrow> op \<noteq> Op_Close \<Longrightarrow> unclosed (snd (ws_write op d fin w))"
  unfolding unclosed_def
  by (elim conjE exE, intro conjI, simp add: ws_write_sent, rename_tac fs,
      rule_tac x = "fs @ [(op, d, fin, ws_mask w)]" in exI) (simp add: ws_write_sent wire_snoc)

lemma unclosed_close:
  assumes "unclosed w" "ws_closed w"
  shows "close_sent (snd (ws_write Op_Close d fin w))"
proof -
  obtain fs where "conn_out (ws_conn w) = wire fs" "Op_Close \<notin> fst ` set fs" "conn_writes (ws_conn w) = []"
    using assms(1) by (auto simp: unclosed_def)
  then show ?thesis using assms(2) unfolding close_sent_def
    by (intro conjI exI [of _ fs] exI [of _ "(Op_Close, d, fin, ws_mask w)"]) (simp_all add: ws_write_sent wire_snoc)
qed

lemma same_output:
  assumes "conn_out (ws_conn w1) = conn_out (ws_conn w)" "conn_writes (ws_conn w1) = conn_writes (ws_conn w)"
  shows "unclosed w1 = unclosed w" "ws_closed w1 = ws_closed w \<Longrightarrow> close_sent w1 = close_sent w"
  using assms by (simp_all add: unclosed_def close_sent_def)

lemma next_frame_output:
  assumes "next_frame avail n w = Some (op, d, fin, w1)"
  shows "conn_out (ws_conn w1) = conn_out (ws_conn w)" "conn_writes (ws_conn w1) = conn_writes (ws_conn w)"
    "ws_closed w1 = ws_closed w" "ws_is_server w1 = ws_is_server w" "ws_unacked_pings w1 = ws_unacked_pings w"
  using assms by (auto simp: next_frame_def)

lemma unclosed_next [intro]: "next_frame avail n w = Some (op, d, fin, w1) \<Longrightarrow> unclosed w \<Longrightarrow> unclosed w1"
  using same_output(1) next_frame_output by metis

lemma unclosed_shut [simp]: "unclosed (w\<lparr>ws_closed := b\<rparr>) = unclosed w"
  by (rule same_output) simp_all

lemma unclosed_control: "unclosed w \<Longrightarrow> unclosed (answer_ping d w)" "unclosed w \<Longrightarrow> unclosed (note_pong w)"
  by (simp add: answer_ping_def unclosed_write opcodes) (simp add: note_pong_def unclosed_def)

lemma sound_echo: "unclosed w \<Longrightarrow> ws_sound (echo_close d w)"
  by (simp add: echo_close_def ws_sound_def unclosed_close)

lemma sound_await: "close_sent w \<Longrightarrow> close_sent (await_close avail w)"
proof (induction avail w rule: await_close.induct)
  case (1 avail w)
  have "next_frame avail 125 w = Some (op, d, fin, w1) \<Longrightarrow> close_sent w1" for op d fin w1
    using same_output(2) next_frame_output "1.prems" by metis
  then show ?case using "1.IH" "1.prems"
    by (subst await_close.simps) (auto split: option.splits)
qed

lemma sound_close: "ws_sound w \<Longrightarrow> ws_sound (ws_close avail status reason w)"
  using sound_await [OF unclosed_close [of "w\<lparr>ws_closed := True\<rparr>"]]
  by (auto simp: ws_close_def ws_sound_def close_sent_def)

lemma sound_fragments:
  "unclosed w \<Longrightarrow> read_fragments avail msg w = (b, m, w') \<Longrightarrow> (if b then unclosed w' else ws_sound w')"
proof (induction avail msg w arbitrary: b m w' rule: read_fragments.induct)
  case (1 avail msg w)
  show ?case
  proof (cases "next_frame avail WEBSOCKET_MAX_PAYLOAD_LENGTH w")
    case None
    then show ?thesis using "1.prems" by (subst (asm) read_fragments.simps) (auto simp: ws_sound_def)
  next
    case (Some r)
    obtain op d fin w1 where r: "r = (op, d, fin, w1)" by (cases r)
    have u: "unclosed w1" using unclosed_next Some r "1.prems"(1) by blast
    note IH = "1.IH" [OF Some r [symmetric] refl refl]
    show ?thesis
      using "1.prems"(2) IH u unclosed_control [OF u] sound_echo [OF u]
      by (subst (asm) read_fragments.simps)
         (auto simp: Some r ws_sound_def split: if_splits)
  qed
qed

lemma sound_deliver: "unclosed w \<Longrightarrow> deliver avail op msg w = (r, m, w') \<Longrightarrow> ws_sound w'"
  using sound_close [of w] by (auto simp: deliver_def ws_sound_def split: if_splits)

lemma sound_read: "ws_sound w \<Longrightarrow> ws_read avail msg w = (r, m, w') \<Longrightarrow> ws_sound w'"
proof (induction avail msg w arbitrary: r m w' rule: ws_read.induct)
  case (1 avail msg w)
  show ?case
  proof (cases "ws_closed w \<or> next_frame avail WEBSOCKET_MAX_PAYLOAD_LENGTH w = None")
    case True
    then show ?thesis using "1.prems"
      by (subst (asm) ws_read.simps) (auto simp: ws_sound_def close_sent_def split: if_splits)
  next
    case False
    then obtain op d fin w1 where n: "next_frame avail WEBSOCKET_MAX_PAYLOAD_LENGTH w = Some (op, d, fin, w1)" by auto
    have o: "\<not> ws_closed w" using False by simp
    then have u: "unclosed w1" using unclosed_next [OF n] "1.prems"(1) by (auto simp: ws_sound_def close_sent_def)
    have f: "read_fragments avail d w1 = (b, m, w2) \<Longrightarrow> (if b then unclosed w2 else ws_sound w2)" for b m w2
      by (rule sound_fragments [OF u])
    note IH = "1.IH" [OF o n refl refl refl]
    show ?thesis
      using "1.prems"(2) IH u o unclosed_control [OF u] sound_echo [OF u] sound_deliver f
      by (subst (asm) ws_read.simps)
         (auto simp: n ws_sound_def [of "answer_ping d w1"] ws_sound_def [of "note_pong w1"]
           ws_sound_def [of "w1\<lparr>ws_closed := True\<rparr>"] split: if_splits prod.splits bool.splits)
  qed
qed

lemma sound_send: "ws_sound w \<Longrightarrow> op \<noteq> Op_Close \<Longrightarrow> ws_sound (snd (send_frame op d fin w))"
  by (auto simp: send_frame_def ws_sound_def close_sent_def unclosed_write)

lemma sound_marks: "ws_sound w \<Longrightarrow> ws_sound (w\<lparr>ws_closed := True\<rparr>)"
  "ws_sound (w\<lparr>ws_unacked_pings := n\<rparr>) = ws_sound w"
  by (auto simp: ws_sound_def close_sent_def unclosed_def)

lemma sound_heartbeat: "ws_sound w \<Longrightarrow> ws_sound (snd (heartbeat avail mx w))"
  using sound_send [of w Op_Ping "[]" True] sound_close sound_marks
  by (auto simp: heartbeat_def opcodes split: prod.splits bool.splits)

lemma sound_run: "ws_sound w \<Longrightarrow> ws_sound (ws_run avail mx ops w)"
proof (induction ops arbitrary: w)
  case (Cons p ops)
  have "ws_sound (ws_step avail mx p w)"
  proof (cases p)
    case Read_Message
    obtain r m w' where "ws_read avail [] w = (r, m, w')" by (cases "ws_read avail [] w")
    then show ?thesis using sound_read [OF Cons.prems] Read_Message by simp
  qed (use Cons.prems in \<open>simp_all add: ws_send_text_def ws_send_binary_def sound_send sound_close sound_heartbeat opcodes\<close>)
  then show ?case using Cons.IH by (simp add: ws_run_def)
qed (simp add: ws_run_def)


definition fresh_socket :: "string \<Rightarrow> websocket" where
  "fresh_socket input = \<lparr>ws_conn = \<lparr>conn_in = input, conn_out = [], conn_writes = []\<rparr>, ws_is_server = True,
     ws_closed = False, ws_unacked_pings = 0, ws_random = (\<lambda>_. []), ws_drawn = 0\<rparr>"


subsection \<open>A fragmented message\<close>

text \<open>A frame a client may send between the first and the last fragment.\<close>

fun mid_frame :: "frame \<Rightarrow> bool" where
  "mid_frame (op, d, fin, mkey) \<longleftrightarrow>
     (op = Op_Continuation \<and> \<not> fin \<or> (op = Op_Ping \<or> op = Op_Pong) \<and> fin \<and> length d \<le> 125)
     \<and> map_option length mkey = Some 4"

definition fragments_text :: "frame list \<Rightarrow> string" where
  "fragments_text fs = concat (map (\<lambda>(op, d, fin, mkey). if op = Op_Continuation then d else []) fs)"

definition pong_frames :: "frame list \<Rightarrow> frame list" where
  "pong_frames fs = map (\<lambda>(op, d, fin, mkey). (Op_Pong, d, True, None)) (filter (\<lambda>f. fst f = Op_Ping) fs)"

lemma next_frame_read:
  assumes "ws_is_server w" "\<forall>n. 8 \<le> avail n" "conn_in (ws_conn w) = frame_text op d fin mkey @ s"
    and "op < 16" "8 \<le> op \<longrightarrow> fin \<and> length d \<le> 125" "length d \<le> WEBSOCKET_MAX_PAYLOAD_LENGTH"
    and "map_option length mkey = Some 4"
  shows "next_frame avail WEBSOCKET_MAX_PAYLOAD_LENGTH w =
    Some (op, d, fin, w\<lparr>ws_conn := (ws_conn w)\<lparr>conn_in := s\<rparr>\<rparr>)"
proof -
  have m: "mkey \<noteq> None" "\<forall>key. mkey = Some key \<longrightarrow> length key = 4" using assms(7) by auto
  have "length d < 2 ^ 63" using assms(6) by (simp add: WEBSOCKET_MAX_PAYLOAD_LENGTH_def)
  then show ?thesis
    using read_frame_text [OF assms(2,4,5,6) _ m(2), of s] m(1) assms(1,3) by (simp add: next_frame_def)
qed

definition server_open :: "websocket \<Rightarrow> bool" where
  "server_open w \<longleftrightarrow> ws_is_server w \<and> \<not> ws_closed w \<and> conn_writes (ws_conn w) = []"

lemma server_open_control:
  assumes "server_open w"
  shows "server_open (answer_ping d w)" "server_open (note_pong w)"
    "conn_out (ws_conn (answer_ping d w)) = conn_out (ws_conn w) @ frame_text Op_Pong d True None"
    "conn_out (ws_conn (note_pong w)) = conn_out (ws_conn w)"
  using assms by (simp_all add: server_open_def answer_ping_def note_pong_def ws_write_sent ws_mask_def)

lemma wire_Cons: "wire ((op, d, fin, mkey) # fs) = frame_text op d fin mkey @ wire fs"
  by (simp add: wire_def)

lemma fragments_read:
  assumes "\<forall>n. 8 \<le> avail n" "map_option length mkey = Some 4"
  shows "server_open w \<Longrightarrow> list_all mid_frame fs
    \<Longrightarrow> length (msg @ fragments_text fs @ d) \<le> WEBSOCKET_MAX_PAYLOAD_LENGTH
    \<Longrightarrow> conn_in (ws_conn w) = wire (fs @ [(Op_Continuation, d, True, mkey)]) @ rest
    \<Longrightarrow> \<exists>w'. read_fragments avail msg w = (True, msg @ fragments_text fs @ d, w') \<and> server_open w'
      \<and> conn_in (ws_conn w') = rest \<and> conn_out (ws_conn w') = conn_out (ws_conn w) @ wire (pong_frames fs)"
proof (induction fs arbitrary: w msg)
  case Nil
  have s: "ws_is_server w" using Nil.prems(1) by (simp add: server_open_def)
  have "conn_in (ws_conn w) = frame_text Op_Continuation d True mkey @ rest" using Nil.prems(4) by (simp add: wire_def)
  from next_frame_read [OF s assms(1) this _ _ _ assms(2)]
  have "next_frame avail WEBSOCKET_MAX_PAYLOAD_LENGTH w =
      Some (Op_Continuation, d, True, w\<lparr>ws_conn := (ws_conn w)\<lparr>conn_in := rest\<rparr>\<rparr>)"
    using Nil.prems(3) by (simp add: opcodes)
  then show ?case using Nil.prems
    by (subst read_fragments.simps) (simp add: opcodes fragments_text_def pong_frames_def wire_def server_open_def)
next
  case (Cons f fs)
  obtain op e fin key where f: "f = (op, e, fin, key)" by (cases f)
  let ?s = "wire (fs @ [(Op_Continuation, d, True, mkey)]) @ rest"
  let ?w = "w\<lparr>ws_conn := (ws_conn w)\<lparr>conn_in := ?s\<rparr>\<rparr>"
  have s: "ws_is_server w" using Cons.prems(1) by (simp add: server_open_def)
  have i: "conn_in (ws_conn w) = frame_text op e fin key @ ?s" using Cons.prems(4) by (simp add: f wire_Cons)
  have m: "mid_frame (op, e, fin, key)" "list_all mid_frame fs" using Cons.prems(2) by (simp_all add: f)
  have l: "op = Op_Continuation \<Longrightarrow> length (msg @ e) \<le> WEBSOCKET_MAX_PAYLOAD_LENGTH"
    using Cons.prems(3) by (simp add: f fragments_text_def)
  have n: "next_frame avail WEBSOCKET_MAX_PAYLOAD_LENGTH w = Some (op, e, fin, ?w)"
    using m(1) l by (intro next_frame_read [OF s assms(1) i]) (auto simp: opcodes WEBSOCKET_MAX_PAYLOAD_LENGTH_def)
  have o: "server_open ?w" using Cons.prems(1) by (simp add: server_open_def)
  consider "op = Op_Continuation" "\<not> fin" | "op = Op_Ping" | "op = Op_Pong" using m(1) by auto
  then show ?case
  proof cases
    case 1
    then show ?thesis using Cons.IH [OF o m(2), of "msg @ e"] Cons.prems(3) n l
      by (subst read_fragments.simps) (simp add: f opcodes fragments_text_def pong_frames_def)
  next
    case 2
    then show ?thesis using Cons.IH [OF server_open_control(1) [OF o] m(2), of msg e] Cons.prems(3) n server_open_control(3) [OF o, of e]
      by (subst read_fragments.simps) (simp add: f opcodes fragments_text_def pong_frames_def wire_Cons)
  next
    case 3
    then show ?thesis using Cons.IH [OF server_open_control(2) [OF o] m(2), of msg] Cons.prems(3) n server_open_control(4) [OF o]
      by (subst read_fragments.simps) (simp add: f opcodes fragments_text_def pong_frames_def)
  qed
qed



subsection \<open>A silent peer\<close>

text \<open>Without a pong the connection is given up at the first awakening after \<open>max_missed_pongs\<close>
  pings, and never when that number is not positive, as it is by default.\<close>

lemma await_close_closed [simp]: "ws_closed (await_close avail w) = ws_closed w"
proof (induction avail w rule: await_close.induct)
  case (1 avail w)
  then show ?case by (subst await_close.simps) (auto split: option.splits dest: next_frame_output)
qed

lemma ws_close_closed [simp]: "ws_closed (ws_close avail status reason w)"
proof -
  have "ws_closed (snd (ws_write op d fin w)) = ws_closed w" for op d fin w by (simp add: ws_write_def split: prod.splits)
  then show ?thesis by (simp add: ws_close_def)
qed

lemma heartbeats_closed: "ws_closed w \<Longrightarrow> ws_closed (ws_run avail mx (replicate k Heartbeat) w)"
  by (induction k arbitrary: w) (simp_all add: ws_run_def heartbeat_def)

lemma silent_peer_is_dropped:
  "\<not> ws_closed w \<Longrightarrow> conn_writes (ws_conn w) = []
     \<Longrightarrow> ws_closed (ws_run avail mx (replicate k Heartbeat) w) \<longleftrightarrow> 0 < mx \<and> mx < int (ws_unacked_pings w) + int k \<and> 0 < k"
proof (induction k arbitrary: w)
  case (Suc k)
  show ?case
  proof (cases "0 < mx \<and> mx \<le> int (ws_unacked_pings w)")
    case True
    then have "ws_closed (snd (heartbeat avail mx w))" using Suc.prems by (simp add: heartbeat_def)
    then show ?thesis using heartbeats_closed True by (simp add: ws_run_def)
  next
    case False
    obtain sent w1 where b: "send_frame Op_Ping [] True w = (sent, w1)" by fastforce
    have w1: "sent" "\<not> ws_closed w1" "conn_writes (ws_conn w1) = []" "ws_unacked_pings w1 = ws_unacked_pings w"
      using b Suc.prems ws_write_sent [of w Op_Ping "[]" True] by (auto simp: send_frame_def)
    then have h: "snd (heartbeat avail mx w) = w1\<lparr>ws_unacked_pings := Suc (ws_unacked_pings w)\<rparr>"
      using False Suc.prems(1) b by (auto simp: heartbeat_def)
    show ?thesis using Suc.IH [of "w1\<lparr>ws_unacked_pings := Suc (ws_unacked_pings w)\<rparr>"] w1 False
      by (cases k) (auto simp: ws_run_def h)
  qed
qed (simp add: ws_run_def)

end
