(* ===== verification/Http_Config.thy ===== *)
theory Http_Config
  imports Http_Server
begin

text \<open>
  How a \<open>Server\<close> of \<open>include/httplib.h\<close> is set up: the registration of handlers and the setters
  of what routing and answering consult.  What only concerns sockets, timeouts and loggers is
  left out.
\<close>

subsection \<open>Handlers\<close>

definition server_post :: "string \<Rightarrow> handler \<Rightarrow> http_server \<Rightarrow> http_server res" where
  "server_post pattern h sv =
     rbind (make_matcher pattern) (\<lambda>m. Inr (sv\<lparr>sv_post_handlers := sv_post_handlers sv @ [(m, h)]\<rparr>))"

definition server_put :: "string \<Rightarrow> handler \<Rightarrow> http_server \<Rightarrow> http_server res" where
  "server_put pattern h sv =
     rbind (make_matcher pattern) (\<lambda>m. Inr (sv\<lparr>sv_put_handlers := sv_put_handlers sv @ [(m, h)]\<rparr>))"

definition server_patch :: "string \<Rightarrow> handler \<Rightarrow> http_server \<Rightarrow> http_server res" where
  "server_patch pattern h sv =
     rbind (make_matcher pattern) (\<lambda>m. Inr (sv\<lparr>sv_patch_handlers := sv_patch_handlers sv @ [(m, h)]\<rparr>))"

definition server_delete :: "string \<Rightarrow> handler \<Rightarrow> http_server \<Rightarrow> http_server res" where
  "server_delete pattern h sv =
     rbind (make_matcher pattern) (\<lambda>m. Inr (sv\<lparr>sv_delete_handlers := sv_delete_handlers sv @ [(m, h)]\<rparr>))"

definition server_options :: "string \<Rightarrow> handler \<Rightarrow> http_server \<Rightarrow> http_server res" where
  "server_options pattern h sv =
     rbind (make_matcher pattern) (\<lambda>m. Inr (sv\<lparr>sv_options_handlers := sv_options_handlers sv @ [(m, h)]\<rparr>))"

definition server_post_content :: "string \<Rightarrow> (request \<Rightarrow> response \<Rightarrow> content_step) \<Rightarrow> http_server \<Rightarrow> http_server res" where
  "server_post_content pattern h sv =
     rbind (make_matcher pattern) (\<lambda>m. Inr (sv\<lparr>sv_post_content_handlers := sv_post_content_handlers sv @ [(m, h)]\<rparr>))"

definition server_put_content :: "string \<Rightarrow> (request \<Rightarrow> response \<Rightarrow> content_step) \<Rightarrow> http_server \<Rightarrow> http_server res" where
  "server_put_content pattern h sv =
     rbind (make_matcher pattern) (\<lambda>m. Inr (sv\<lparr>sv_put_content_handlers := sv_put_content_handlers sv @ [(m, h)]\<rparr>))"

definition server_patch_content :: "string \<Rightarrow> (request \<Rightarrow> response \<Rightarrow> content_step) \<Rightarrow> http_server \<Rightarrow> http_server res" where
  "server_patch_content pattern h sv =
     rbind (make_matcher pattern) (\<lambda>m. Inr (sv\<lparr>sv_patch_content_handlers := sv_patch_content_handlers sv @ [(m, h)]\<rparr>))"

definition server_delete_content :: "string \<Rightarrow> (request \<Rightarrow> response \<Rightarrow> content_step) \<Rightarrow> http_server \<Rightarrow> http_server res" where
  "server_delete_content pattern h sv =
     rbind (make_matcher pattern) (\<lambda>m. Inr (sv\<lparr>sv_delete_content_handlers := sv_delete_content_handlers sv @ [(m, h)]\<rparr>))"

definition server_websocket :: "string \<Rightarrow> (string list \<Rightarrow> string) option \<Rightarrow> http_server \<Rightarrow> http_server res" where
  "server_websocket pattern selector sv =
     rbind (make_matcher pattern) (\<lambda>m. Inr (sv\<lparr>sv_websocket_handlers := sv_websocket_handlers sv @ [(m, selector)]\<rparr>))"

subsection \<open>Setters\<close>

text \<open>A handler that returns nothing handles the request.\<close>

definition set_error_handler :: "(request \<Rightarrow> response \<Rightarrow> response) \<Rightarrow> http_server \<Rightarrow> http_server" where
  "set_error_handler h sv = sv\<lparr>sv_error_handler := Some (\<lambda>req res. (True, h req res))\<rparr>"

definition set_error_hook :: "hook \<Rightarrow> http_server \<Rightarrow> http_server" where
  "set_error_hook h sv = sv\<lparr>sv_error_handler := Some h\<rparr>"

definition set_exception_handler :: "(request \<Rightarrow> response \<Rightarrow> response) \<Rightarrow> http_server \<Rightarrow> http_server" where
  "set_exception_handler h sv = sv\<lparr>sv_exception_handler := Some h\<rparr>"

definition set_pre_routing_handler :: "hook \<Rightarrow> http_server \<Rightarrow> http_server" where
  "set_pre_routing_handler h sv = sv\<lparr>sv_pre_routing_handler := Some h\<rparr>"

definition set_post_routing_handler :: "(request \<Rightarrow> response \<Rightarrow> response) \<Rightarrow> http_server \<Rightarrow> http_server" where
  "set_post_routing_handler h sv = sv\<lparr>sv_post_routing_handler := Some h\<rparr>"

definition set_pre_request_handler :: "hook \<Rightarrow> http_server \<Rightarrow> http_server" where
  "set_pre_request_handler h sv = sv\<lparr>sv_pre_request_handler := Some h\<rparr>"

definition set_expect_100_continue_handler :: "(request \<Rightarrow> response \<Rightarrow> int \<times> response) \<Rightarrow> http_server \<Rightarrow> http_server" where
  "set_expect_100_continue_handler h sv = sv\<lparr>sv_expect_100_continue_handler := Some h\<rparr>"

definition set_default_headers :: "headers \<Rightarrow> http_server \<Rightarrow> http_server" where
  "set_default_headers h sv = sv\<lparr>sv_default_headers := h\<rparr>"

definition set_trusted_proxies :: "string list \<Rightarrow> http_server \<Rightarrow> http_server" where
  "set_trusted_proxies proxies sv = sv\<lparr>sv_trusted_proxies := proxies\<rparr>"

definition set_keep_alive_max_count :: "nat \<Rightarrow> http_server \<Rightarrow> http_server" where
  "set_keep_alive_max_count n sv = sv\<lparr>sv_keep_alive_max_count := n\<rparr>"

definition set_keep_alive_timeout :: "int \<Rightarrow> http_server \<Rightarrow> http_server" where
  "set_keep_alive_timeout sec sv = sv\<lparr>sv_keep_alive_timeout_sec := sec\<rparr>"

definition set_payload_max_length :: "nat \<Rightarrow> http_server \<Rightarrow> http_server" where
  "set_payload_max_length n sv = sv\<lparr>sv_payload_max_length := n\<rparr>"

text \<open>Mount points are searched and erased in the order they were set.\<close>

definition remove_mount_point :: "string \<Rightarrow> file_config \<Rightarrow> bool \<times> file_config" where
  "remove_mount_point mnt fc =
     (mnt \<in> set (map me_mount_point (base_dirs fc)),
      fc\<lparr>base_dirs := takeWhile (\<lambda>e. me_mount_point e \<noteq> mnt) (base_dirs fc)
         @ tl (dropWhile (\<lambda>e. me_mount_point e \<noteq> mnt) (base_dirs fc))\<rparr>)"

definition set_mime_mapping :: "string \<Rightarrow> string \<Rightarrow> file_config \<Rightarrow> file_config" where
  "set_mime_mapping ext mime fc = fc\<lparr>mime_map := (ext, mime) # filter (\<lambda>e. fst e \<noteq> ext) (mime_map fc)\<rparr>"

definition set_default_file_mimetype :: "string \<Rightarrow> file_config \<Rightarrow> file_config" where
  "set_default_file_mimetype mime fc = fc\<lparr>default_mime := mime\<rparr>"

subsection \<open>The limit on a body that a handler reads\<close>

lemma limit_stays: "fst (snd (run_content_handler ev sv c req s True))"
proof (induction c arbitrary: req s)
  case (Read_Content res form accept go_on)
  then show ?case by (auto split: prod.splits)
qed simp

text \<open>Once the reader has refused a body as too large, the answer is 413 without a body, whatever
  the handler does afterwards, unless it throws.\<close>

lemma content_limit_enforced:
  assumes "match_request (ev_regex ev) m req = (True, req1)" "sv_pre_request_handler sv = None"
    and "h (req1\<lparr>rq_matched_route := matcher_pattern m\<rparr>) res = Read_Content r form accept go_on"
    and "read_content_core (ev_avail ev) (ev_has_data ev) (sv_payload_max_length sv) (req1\<lparr>rq_matched_route := matcher_pattern m\<rparr>)
         (\<lambda>d. receive_event (\<not> form) accept (Content_Piece d)) (\<lambda>fd. receive_event form accept (Entry_Header fd))
         (\<lambda>d. receive_event form accept (Content_Piece d)) ([], False) s = (False, Some 413, (given, False), req2, s1)"
    and "dispatch_request_for_content_reader ev sv ((m, h) # hs) req res s = (Some out, req3, res3, s3)"
    and "content_outcome out res3 = (r', res')"
  shows "r' = Threw \<or> r' = Not_Routed \<and> rs_status res' = 413 \<and> rs_body res' = [] \<and> rs_content_provider res' = None"
proof -
  have "snd out"
    using assms(5) limit_stays [of ev sv "go_on (False, given, req2, set_status (Some 413) r)" req2 s1]
    by (auto simp: assms(1-4) run_hook_def set_status_def split: prod.splits)
  then show ?thesis using assms(6) by (auto simp: content_outcome_def split: if_splits)
qed

end
