(* ===== verification/Http_Sse.thy ===== *)
theory Http_Sse
  imports Http_Headers
begin

text \<open>
  The reader of server-sent events of \<open>include/httplib.h\<close> (\<open>SSEClient\<close>): the lines of an event,
  the loop over the pieces of a response, and the reconnections.  The connections the loop
  opens, and the pieces each of them delivers, are its input.
\<close>

subsection \<open>Lines\<close>

record sse_message =
  sm_event :: string
  sm_data :: string
  sm_id :: string

definition new_message :: sse_message where
  "new_message = \<lparr>sm_event = ''message'', sm_data = [], sm_id = []\<rparr>"

text \<open>The value of a field: a space behind the colon and a final carriage return are dropped.\<close>

definition sse_value :: "string \<Rightarrow> string" where
  "sse_value rest =
     (let v = (if rest \<noteq> [] \<and> hd rest = CHR '' '' then tl rest else rest)
      in if v \<noteq> [] \<and> last v = CR then butlast v else v)"

text \<open>Whether the event is complete, the event, and the reconnection interval.\<close>

definition parse_sse_line :: "string \<Rightarrow> sse_message \<Rightarrow> int \<Rightarrow> bool \<times> sse_message \<times> int" where
  "parse_sse_line line msg retry_ms =
     (if line = [] \<or> line = [CR] then (True, msg, retry_ms)
      else if hd line = CHR '':'' then (False, msg, retry_ms)
      else if CHR '':'' \<notin> set line then (False, msg, retry_ms)
      else
        (let field = takeWhile (\<lambda>c. c \<noteq> CHR '':'') line;
             v = sse_value (tl (dropWhile (\<lambda>c. c \<noteq> CHR '':'') line))
         in if field = ''event'' then (False, msg\<lparr>sm_event := v\<rparr>, retry_ms)
            else if field = ''data'' then
              (False, msg\<lparr>sm_data := (if sm_data msg \<noteq> [] then sm_data msg @ [LF] else []) @ v\<rparr>, retry_ms)
            else if field = ''id'' then (False, msg\<lparr>sm_id := v\<rparr>, retry_ms)
            else if field = ''retry'' then
              (case from_chars_int v of (ec, n) \<Rightarrow> (False, msg, if ec = Errc_ok then n else retry_ms))
            else (False, msg, retry_ms)))"

subsection \<open>The pieces of a response\<close>

record sse_state =
  ss_buffer :: string
  ss_message :: sse_message
  ss_retry :: int
  ss_last_id :: string

text \<open>One complete line, and the message it completes.\<close>

definition sse_line :: "string \<Rightarrow> sse_state \<Rightarrow> sse_message list \<times> sse_state" where
  "sse_line line st =
     (case parse_sse_line line (ss_message st) (ss_retry st) of
        (complete, msg, retry) \<Rightarrow>
          (let st1 = st\<lparr>ss_message := msg, ss_retry := retry\<rparr> in
           if complete \<and> sm_data msg \<noteq> [] then
             ([msg], st1\<lparr>ss_last_id := (if sm_id msg \<noteq> [] then sm_id msg else ss_last_id st), ss_message := new_message\<rparr>)
           else ([], st1)))"

lemma rest_shorter: "c \<in> set s \<Longrightarrow> length (tl (dropWhile (\<lambda>x. x \<noteq> c) s)) < length s"
  by (induction s) auto

text \<open>The complete lines of the buffer; what follows the last one stays.\<close>

function sse_lines :: "string \<Rightarrow> sse_state \<Rightarrow> sse_message list \<times> sse_state" where
  "sse_lines buf st =
     (if LF \<notin> set buf then ([], st\<lparr>ss_buffer := buf\<rparr>)
      else (case sse_line (takeWhile (\<lambda>c. c \<noteq> LF) buf) st of
          (ms, st1) \<Rightarrow>
            (case sse_lines (tl (dropWhile (\<lambda>c. c \<noteq> LF) buf)) st1 of (ms1, st2) \<Rightarrow> (ms @ ms1, st2))))"
  by pat_completeness auto

termination by (relation "measure (\<lambda>(buf, st). length buf)") (simp_all add: rest_shorter del: length_tl)

declare sse_lines.simps [simp del]

definition sse_piece :: "string \<Rightarrow> sse_state \<Rightarrow> sse_message list \<times> sse_state" where
  "sse_piece d st = sse_lines (ss_buffer st @ d) st"

fun sse_pieces :: "string list \<Rightarrow> sse_state \<Rightarrow> sse_message list \<times> sse_state" where
  "sse_pieces [] st = ([], st)"
| "sse_pieces (d # ds) st =
     (case sse_piece d st of (ms, st1) \<Rightarrow> (case sse_pieces ds st1 of (ms1, st2) \<Rightarrow> (ms @ ms1, st2)))"

subsection \<open>Dispatch and reconnection\<close>

record sse_client =
  sc_headers :: headers
  sc_event_types :: "string list"
  sc_on_message :: bool
  sc_interval :: int
  sc_max_attempts :: int
  sc_last_event_id :: string

datatype sse_action =
    Opens headers
  | Reports_Error
  | Reports_Open
  | Calls_Event string sse_message
  | Calls_Message sse_message
  | Waits int

definition dispatch_event :: "sse_client \<Rightarrow> sse_message \<Rightarrow> sse_action list" where
  "dispatch_event sc msg =
     (if sm_event msg \<in> set (sc_event_types sc) then [Calls_Event (sm_event msg) msg]
      else if sc_on_message sc then [Calls_Message msg] else [])"

definition should_reconnect :: "sse_client \<Rightarrow> int \<Rightarrow> bool" where
  "should_reconnect sc attempts \<longleftrightarrow> sc_max_attempts sc = 0 \<or> attempts < sc_max_attempts sc"

text \<open>What a connection turns out to be: an error, a status other than 200, or pieces and whether
  they ended with a read error.  When the list of connections ends, the client was stopped
  before it opened another.\<close>

datatype sse_connection = Not_Connected | Answered int | Streams "string list" bool

definition request_headers :: "sse_client \<Rightarrow> headers" where
  "request_headers sc =
     (if sc_last_event_id sc \<noteq> [] then sc_headers sc @ [(''Last-Event-ID'', sc_last_event_id sc)] else sc_headers sc)"

fun run_event_loop :: "sse_connection list \<Rightarrow> int \<Rightarrow> sse_client \<Rightarrow> sse_action list" where
  "run_event_loop [] attempts sc = []"
| "run_event_loop (Not_Connected # cs) attempts sc =
     Opens (request_headers sc) # Reports_Error #
     (if should_reconnect sc attempts then Waits (sc_interval sc) # run_event_loop cs (attempts + 1) sc else [])"
| "run_event_loop (Answered status # cs) attempts sc =
     Opens (request_headers sc) # Reports_Error #
     (if status = 204 \<or> status = 404 \<or> status = 403 then []
      else if should_reconnect sc attempts then Waits (sc_interval sc) # run_event_loop cs (attempts + 1) sc else [])"
| "run_event_loop (Streams ds read_error # cs) attempts sc =
     (case sse_pieces ds \<lparr>ss_buffer = [], ss_message = new_message, ss_retry = sc_interval sc,
          ss_last_id = sc_last_event_id sc\<rparr> of
        (ms, st) \<Rightarrow>
          (let sc1 = sc\<lparr>sc_interval := ss_retry st, sc_last_event_id := ss_last_id st\<rparr> in
           Opens (request_headers sc) # Reports_Open # concat (map (dispatch_event sc) ms)
           @ (if read_error then [Reports_Error] else [])
           @ (if should_reconnect sc1 0 then Waits (sc_interval sc1) # run_event_loop cs 1 sc1 else [])))"

subsection \<open>Pieces do not matter\<close>

lemma takeWhile_line: "LF \<notin> set l \<Longrightarrow> takeWhile (\<lambda>c. c \<noteq> LF) (l @ LF # s) = l"
  by (induction l) auto

lemma dropWhile_line: "LF \<notin> set l \<Longrightarrow> dropWhile (\<lambda>c. c \<noteq> LF) (l @ LF # s) = LF # s"
  by (induction l) auto

lemma sse_lines_line:
  "LF \<notin> set l \<Longrightarrow> sse_lines (l @ LF # s) st =
     (case sse_line l st of (ms, st1) \<Rightarrow> (case sse_lines s st1 of (ms1, st2) \<Rightarrow> (ms @ ms1, st2)))"
  by (subst sse_lines.simps) (simp add: takeWhile_line dropWhile_line)

lemma sse_lines_rest: "LF \<notin> set s \<Longrightarrow> sse_lines s st = ([], st\<lparr>ss_buffer := s\<rparr>)"
  by (subst sse_lines.simps) simp

text \<open>The buffer is only written when the lines are used up.\<close>

lemma sse_line_buffer: "sse_line l (st\<lparr>ss_buffer := b\<rparr>) = (case sse_line l st of (ms, st1) \<Rightarrow> (ms, st1\<lparr>ss_buffer := b\<rparr>))"
  by (cases "parse_sse_line l (ss_message st) (ss_retry st)") (simp add: sse_line_def Let_def)

lemma sse_lines_buffer: "sse_lines s (st\<lparr>ss_buffer := b\<rparr>) = sse_lines s st"
proof (induction s st arbitrary: b rule: sse_lines.induct)
  case (1 s st)
  show ?case
  proof (cases "LF \<in> set s")
    case True
    then obtain l r where s: "s = l @ LF # r" "LF \<notin> set l" by (meson split_list_first)
    obtain ms st1 where l: "sse_line l st = (ms, st1)" by fastforce
    have "sse_lines r (st1\<lparr>ss_buffer := b\<rparr>) = sse_lines r st1" for b
      using "1.IH" [of ms st1] True by (simp add: s takeWhile_line dropWhile_line l)
    then show ?thesis by (simp add: s sse_lines_line sse_line_buffer l)
  qed (simp add: sse_lines_rest)
qed

lemma sse_lines_append:
  "sse_lines (s @ t) st = (case sse_lines s st of (ms, st1) \<Rightarrow>
     (case sse_lines (ss_buffer st1 @ t) st1 of (ms1, st2) \<Rightarrow> (ms @ ms1, st2)))"
proof (induction s st rule: sse_lines.induct)
  case (1 s st)
  show ?case
  proof (cases "LF \<in> set s")
    case True
    then obtain l r where s: "s = l @ LF # r" "LF \<notin> set l" by (meson split_list_first)
    obtain ms st1 where l: "sse_line l st = (ms, st1)" by fastforce
    show ?thesis
      using "1.IH" [of ms st1] True
      by (simp add: s takeWhile_line dropWhile_line l sse_lines_line split: prod.splits)
  qed (simp add: sse_lines_rest sse_lines_buffer split: prod.splits)
qed

lemma sse_pieces_concat:
  "ds \<noteq> [] \<Longrightarrow> sse_pieces ds st = sse_piece (concat ds) st"
proof (induction ds arbitrary: st)
  case (Cons d ds)
  show ?case
  proof (cases "ds = []")
    case True
    then show ?thesis by (simp split: prod.splits)
  next
    case False
    then show ?thesis
      using Cons.IH by (simp add: sse_piece_def sse_lines_append [of "ss_buffer st @ d", simplified] split: prod.splits)
  qed
qed simp

subsection \<open>Events are read back\<close>

text \<open>An event as a server writes it: its type, the lines of its data, its identifier.\<close>

type_synonym written_event = "string \<times> string list \<times> string"

fun join_lines :: "string list \<Rightarrow> string" where
  "join_lines [] = []"
| "join_lines [l] = l"
| "join_lines (l # ls) = l @ LF # join_lines ls"

definition field_line :: "string \<Rightarrow> string \<Rightarrow> string" where
  "field_line name v = name @ '': '' @ v @ [LF]"

definition event_text :: "written_event \<Rightarrow> string" where
  "event_text e = (case e of (ev, ls, i) \<Rightarrow>
     field_line ''event'' ev @ concat (map (field_line ''data'') ls) @ field_line ''id'' i @ [LF])"

definition event_message :: "written_event \<Rightarrow> sse_message" where
  "event_message e = (case e of (ev, ls, i) \<Rightarrow> \<lparr>sm_event = ev, sm_data = join_lines ls, sm_id = i\<rparr>)"

definition clean_value :: "string \<Rightarrow> bool" where
  "clean_value v \<longleftrightarrow> LF \<notin> set v \<and> (v = [] \<or> last v \<noteq> CR)"

definition clean_event :: "written_event \<Rightarrow> bool" where
  "clean_event e \<longleftrightarrow> (case e of (ev, ls, i) \<Rightarrow>
     clean_value ev \<and> clean_value i \<and> list_all clean_value ls \<and> ls \<noteq> [] \<and> hd ls \<noteq> [])"

lemma sse_value_clean: "clean_value v \<Longrightarrow> sse_value (CHR '' '' # v) = v"
  by (auto simp: sse_value_def clean_value_def)

lemma parse_field:
  assumes "clean_value v" "name \<in> {''event'', ''data'', ''id''}"
  shows "sse_line (name @ '': '' @ v) st = ([], st\<lparr>ss_message := (let msg = ss_message st in
     if name = ''event'' then msg\<lparr>sm_event := v\<rparr>
     else if name = ''data'' then msg\<lparr>sm_data := (if sm_data msg \<noteq> [] then sm_data msg @ [LF] else []) @ v\<rparr>
     else msg\<lparr>sm_id := v\<rparr>)\<rparr>)"
proof -
  have h: "takeWhile (\<lambda>c. c \<noteq> CHR '':'') (name @ '': '' @ v) = name"
    "tl (dropWhile (\<lambda>c. c \<noteq> CHR '':'') (name @ '': '' @ v)) = CHR '' '' # v"
    "name @ '': '' @ v \<noteq> [] \<and> name @ '': '' @ v \<noteq> [CR] \<and> hd (name @ '': '' @ v) \<noteq> CHR '':''
      \<and> CHR '':'' \<in> set (name @ '': '' @ v)"
    using assms(2) by auto
  have "parse_sse_line (name @ '': '' @ v) msg r = (False, (if name = ''event'' then msg\<lparr>sm_event := v\<rparr>
     else if name = ''data'' then msg\<lparr>sm_data := (if sm_data msg \<noteq> [] then sm_data msg @ [LF] else []) @ v\<rparr>
     else msg\<lparr>sm_id := v\<rparr>), r)" for msg r
    unfolding parse_sse_line_def h Let_def sse_value_clean [OF assms(1)] using h(3) assms(2) by auto
  then show ?thesis by (simp add: sse_line_def Let_def)
qed

lemma read_field:
  assumes "clean_value v" "name \<in> {''event'', ''data'', ''id''}"
  shows "sse_lines (field_line name v @ s) st = sse_lines s (st\<lparr>ss_message := (let msg = ss_message st in
     if name = ''event'' then msg\<lparr>sm_event := v\<rparr>
     else if name = ''data'' then msg\<lparr>sm_data := (if sm_data msg \<noteq> [] then sm_data msg @ [LF] else []) @ v\<rparr>
     else msg\<lparr>sm_id := v\<rparr>)\<rparr>)"
proof -
  have "LF \<notin> set (name @ '': '' @ v)" using assms by (auto simp: clean_value_def LF_def)
  from sse_lines_line [OF this, of s st]
  have "sse_lines (field_line name v @ s) st = (case sse_line (name @ '': '' @ v) st of (ms, st1) \<Rightarrow>
      (case sse_lines s st1 of (ms1, st2) \<Rightarrow> (ms @ ms1, st2)))" by (simp add: field_line_def)
  then show ?thesis unfolding parse_field [OF assms] by simp
qed

lemma read_data_lines:
  assumes "list_all clean_value ls" "sm_data (ss_message st) \<noteq> []"
  shows "sse_lines (concat (map (field_line ''data'') ls) @ s) st =
    sse_lines s (st\<lparr>ss_message := (ss_message st)\<lparr>sm_data := sm_data (ss_message st) @ concat (map (\<lambda>l. LF # l) ls)\<rparr>\<rparr>)"
  using assms
proof (induction ls arbitrary: st)
  case (Cons l ls)
  then show ?case by (simp add: read_field Let_def)
qed simp

lemma join_lines_Cons: "join_lines (l # ls) = l @ concat (map (\<lambda>l. LF # l) ls)"
  by (induction ls arbitrary: l) simp_all

lemma read_event:
  assumes "clean_event e" "ss_message st = new_message"
  shows "\<exists>st1. sse_lines (event_text e @ s) st = (case sse_lines s st1 of (ms, st2) \<Rightarrow> (event_message e # ms, st2))
    \<and> ss_message st1 = new_message \<and> ss_buffer st1 = ss_buffer st"
proof -
  obtain ev l ls i where e: "e = (ev, l # ls, i)" and c: "clean_value ev" "clean_value i" "clean_value l"
    "list_all clean_value ls" "l \<noteq> []"
    using assms(1) by (cases e) (auto simp: clean_event_def neq_Nil_conv)
  let ?st = "st\<lparr>ss_message := event_message e\<rparr>"
  have "sse_lines (event_text e @ s) st = sse_lines (LF # s) ?st"
    using c assms(2) by (simp add: e event_text_def event_message_def read_field read_data_lines join_lines_Cons new_message_def Let_def)
  also have "\<dots> = (case sse_line [] ?st of (ms, st1) \<Rightarrow> (case sse_lines s st1 of (ms1, st2) \<Rightarrow> (ms @ ms1, st2)))"
    using sse_lines_line [of "[]" s ?st] by simp
  also have "sse_line [] ?st = ([event_message e],
      st\<lparr>ss_last_id := (if i \<noteq> [] then i else ss_last_id st), ss_message := new_message\<rparr>)"
    using c(5) by (simp add: sse_line_def parse_sse_line_def e event_message_def join_lines_Cons)
  finally show ?thesis
    by (intro exI [of _ "st\<lparr>ss_last_id := (if i \<noteq> [] then i else ss_last_id st), ss_message := new_message\<rparr>"]) simp
qed

text \<open>However the events of a server are cut into pieces, they are dispatched as they were written.\<close>

lemma events_read:
  "list_all clean_event es \<Longrightarrow> ss_message st = new_message \<Longrightarrow>
     fst (sse_lines (concat (map event_text es)) st) = map event_message es"
proof (induction es arbitrary: st)
  case (Cons e es)
  then obtain st1 where "sse_lines (event_text e @ concat (map event_text es)) st =
      (case sse_lines (concat (map event_text es)) st1 of (ms, st2) \<Rightarrow> (event_message e # ms, st2))"
    "ss_message st1 = new_message"
    using read_event [of e st "concat (map event_text es)"] by auto
  then show ?case using Cons.IH [of st1] Cons.prems(1) by (simp split: prod.splits)
qed (simp add: sse_lines_rest)

theorem sse_events_roundtrip:
  assumes "list_all clean_event es" "concat ds = concat (map event_text es)" "ss_message st = new_message" "ss_buffer st = []"
  shows "fst (sse_pieces ds st) = map event_message es"
proof (cases "ds = []")
  case True
  then show ?thesis using assms(2) by (cases es) (auto simp: event_text_def field_line_def)
next
  case False
  then show ?thesis using events_read [OF assms(1,3)] assms(2,4) by (simp add: sse_pieces_concat sse_piece_def)
qed

text \<open>An event without data is not dispatched, and leaves its type to the next one.\<close>

lemma event_type_left_behind:
  "fst (sse_pieces [''event: x'' @ [LF, LF] @ ''data: y'' @ [LF, LF]] \<lparr>ss_buffer = [], ss_message = new_message, ss_retry = 0, ss_last_id = []\<rparr>)
   = [\<lparr>sm_event = ''x'', sm_data = ''y'', sm_id = []\<rparr>]"
  by code_simp

end
