(* ===== verification/Http_Url.thy ===== *)
theory Http_Url
  imports Http_Codec
begin

unbundle bit_operations_syntax

text \<open>
  What the HTTP client of \<open>include/httplib.h\<close> knows about targets: \<open>parse_url\<close>, the host field,
  the query string, the authentication headers, and the hosts that bypass a proxy.
  \<open>inet_pton\<close> is a parameter: two functions that give the bytes of an address.
\<close>

subsection \<open>URLs\<close>

record url_components =
  uc_scheme :: string
  uc_host :: string
  uc_port :: string
  uc_path :: string
  uc_query :: string

definition until :: "string \<Rightarrow> string \<Rightarrow> string \<times> string" where
  "until stops s = (takeWhile (\<lambda>c. c \<notin> set stops) s, dropWhile (\<lambda>c. c \<notin> set stops) s)"

definition ipv6_char :: "char \<Rightarrow> bool" where
  "ipv6_char c \<longleftrightarrow> is_ascii_digit c \<or> 97 \<le> byte c \<and> byte c \<le> 102 \<or> 65 \<le> byte c \<and> byte c \<le> 70 \<or> c = CHR '':''"

text \<open>The host with what follows it, \<open>None\<close> for a bad bracketed address.\<close>

definition parse_host :: "string \<Rightarrow> (string \<times> string) option" where
  "parse_host s =
     (if s \<noteq> [] \<and> hd s = CHR ''['' then
        (case until '']'' (tl s) of (host, rest) \<Rightarrow>
           if rest = [] \<or> host = [] \<or> \<not> list_all ipv6_char host then None else Some (host, tl rest))
      else Some (until '':/?#'' s))"

definition parse_port_text :: "string \<Rightarrow> string \<times> string" where
  "parse_port_text s = (if s \<noteq> [] \<and> hd s = CHR '':'' then until ''/?#'' (tl s) else ([], s))"

definition parse_path_query :: "string \<Rightarrow> string \<times> string" where
  "parse_path_query s =
     (case (if s \<noteq> [] \<and> hd s \<notin> set ''?#'' then until ''?#'' s else ([], s)) of
        (path, rest) \<Rightarrow> (path, if rest \<noteq> [] \<and> hd rest = CHR ''?'' then fst (until ''#'' rest) else []))"

text \<open>The scheme, whether an authority must follow, and the rest.\<close>

definition parse_scheme :: "string \<Rightarrow> (string \<times> bool \<times> string) option" where
  "parse_scheme url =
     (case index_of ''://'' url of
        Some i \<Rightarrow>
          (let scheme = take i url in
           if scheme = [] \<or> list_ex (\<lambda>c. byte c < 97 \<or> 122 < byte c) scheme then None
           else Some (scheme, True, drop (i + 3) url))
      | None \<Rightarrow> Some (if take 2 url = ''//'' then ([], True, drop 2 url) else ([], False, url)))"

definition parse_url :: "string \<Rightarrow> url_components option" where
  "parse_url url =
     (case parse_scheme url of
        None \<Rightarrow> None
      | Some (scheme, prefix, rest) \<Rightarrow>
          (let result = (\<lambda>host port rest. case parse_path_query rest of (path, query) \<Rightarrow>
                 Some \<lparr>uc_scheme = scheme, uc_host = host, uc_port = port, uc_path = path, uc_query = query\<rparr>)
           in if prefix \<or> url \<noteq> [] \<and> hd url \<notin> set ''/?#'' then
                (case parse_host rest of
                   None \<Rightarrow> None
                 | Some (host, rest1) \<Rightarrow>
                     (case parse_port_text rest1 of (port, rest2) \<Rightarrow>
                        if \<not> prefix \<and> rest2 \<noteq> [] then result [] [] url else result host port rest2))
              else result [] [] rest))"

subsection \<open>Host field, query, authentication\<close>

definition prepare_host_string :: "string \<Rightarrow> string" where
  "prepare_host_string host =
     (if CHR '':'' \<notin> set host \<or> host \<noteq> [] \<and> hd host = CHR ''['' then host else ''['' @ host @ '']'')"

definition make_host_and_port_string :: "string \<Rightarrow> int \<Rightarrow> bool \<Rightarrow> string" where
  "make_host_and_port_string host port is_ssl =
     prepare_host_string host @ (if \<not> is_ssl \<and> port = 80 \<or> is_ssl \<and> port = 443 then [] else '':'' @ show_int port)"

definition make_host_and_port_string_always_port :: "string \<Rightarrow> int \<Rightarrow> string" where
  "make_host_and_port_string_always_port host port = prepare_host_string host @ '':'' @ show_int port"

text \<open>\<open>[^?]+\?.*\<close>, where the point is no line terminator.\<close>

definition has_query :: "string \<Rightarrow> bool" where
  "has_query path \<longleftrightarrow> path \<noteq> [] \<and> hd path \<noteq> CHR ''?'' \<and> CHR ''?'' \<in> set path
     \<and> list_all (\<lambda>c. c \<noteq> CR \<and> c \<noteq> LF) (tl (dropWhile (\<lambda>c. c \<noteq> CHR ''?'') path))"

definition append_query_params :: "string \<Rightarrow> params \<Rightarrow> string" where
  "append_query_params path ps = path @ (if has_query path then ''&'' else ''?'') @ params_to_query_str ps"

definition make_basic_authentication_header :: "string \<Rightarrow> string \<Rightarrow> bool \<Rightarrow> string \<times> string" where
  "make_basic_authentication_header username password is_proxy =
     (if is_proxy then ''Proxy-Authorization'' else ''Authorization'',
      ''Basic '' @ base64_encode (username @ '':'' @ password))"

definition make_bearer_token_authentication_header :: "string \<Rightarrow> bool \<Rightarrow> string \<times> string" where
  "make_bearer_token_authentication_header token is_proxy =
     (if is_proxy then ''Proxy-Authorization'' else ''Authorization'', ''Bearer '' @ token)"

subsection \<open>Hosts that bypass the proxy\<close>

record address_parser =
  ap_ipv4 :: "string \<Rightarrow> nat list option"
  ap_ipv6 :: "string \<Rightarrow> nat list option"

text \<open>Addresses are 16 bytes, of which an IPv4 address uses the first four.\<close>

datatype no_proxy_entry = Wildcard | Hostname_Suffix string | IPv4_Cidr "nat list" int | IPv6_Cidr "nat list" int

record normalized_target =
  nt_hostname :: string
  nt_ipv4 :: bool
  nt_ipv6 :: bool
  nt_ip :: "nat list"

definition ip_bytes :: "nat list \<Rightarrow> nat list" where
  "ip_bytes bs = take 16 (bs @ replicate 16 0)"

definition ip_in_cidr :: "nat list \<Rightarrow> nat list \<Rightarrow> int \<Rightarrow> bool" where
  "ip_in_cidr ip net prefix_bits =
     (if prefix_bits < 0 \<or> 128 < prefix_bits then False
      else if prefix_bits = 0 then True
      else
        (let full_bytes = nat (prefix_bits div 8); rem_bits = nat (prefix_bits mod 8) in
         if take full_bytes ip \<noteq> take full_bytes net then False
         else if rem_bits = 0 then True
         else
           (let m = push_bit (8 - rem_bits) 0xFF mod 0x100
            in (ip ! full_bytes) AND m = (net ! full_bytes) AND m)))"

text \<open>The prefix length of an entry, at most \<open>most\<close>, which is also the default.\<close>

definition prefix_length :: "string \<Rightarrow> int \<Rightarrow> int option" where
  "prefix_length s most =
     (if s = [] then Some most
      else (case from_chars (nat INT_MAX) 10 s of (rest, ec, negative, n) \<Rightarrow>
        let v = (if negative then - int n else int n) in
        if ec \<noteq> Errc_ok \<or> rest \<noteq> [] then None else if v < 0 \<or> most < v then None else Some v))"

definition no_proxy_hostname :: "string \<Rightarrow> no_proxy_entry option" where
  "no_proxy_hostname token =
     (let hostname = rev (dropWhile (\<lambda>c. c = CHR ''.'') (rev (dropWhile (\<lambda>c. c = CHR ''.'') (to_lower_str token))))
      in if hostname = [] then None else Some (Hostname_Suffix hostname))"

definition parse_no_proxy_entry :: "address_parser \<Rightarrow> string \<Rightarrow> no_proxy_entry option" where
  "parse_no_proxy_entry ap token =
     (if token = [] then None
      else if token = ''*'' then Some Wildcard
      else
        (let slash = CHR ''/'' \<in> set token;
             (addr0, prefix0) = until ''/'' token;
             prefix = tl prefix0;
             bracketed = (2 \<le> length addr0 \<and> hd addr0 = CHR ''['' \<and> last addr0 = CHR '']'');
             addr = (if bracketed then butlast (tl addr0) else addr0)
         in if slash \<and> prefix = [] then None
            else case (if bracketed then None else ap_ipv4 ap addr) of
              Some net \<Rightarrow> map_option (IPv4_Cidr (ip_bytes net)) (prefix_length prefix 32)
            | None \<Rightarrow>
                (case ap_ipv6 ap addr of
                   Some net \<Rightarrow> map_option (IPv6_Cidr (ip_bytes net)) (prefix_length prefix 128)
                 | None \<Rightarrow>
                     if bracketed \<or> slash \<or> CHR '':'' \<in> set token then None else no_proxy_hostname token)))"

definition normalize_target :: "address_parser \<Rightarrow> string \<Rightarrow> normalized_target" where
  "normalize_target ap host =
     (let h = (if 2 \<le> length host \<and> hd host = CHR ''['' \<and> last host = CHR '']'' then butlast (tl host) else host);
          h1 = (if h \<noteq> [] \<and> last h = CHR ''.'' then butlast h else h);
          hostname = to_lower_str h1;
          none = \<lparr>nt_hostname = hostname, nt_ipv4 = False, nt_ipv6 = False, nt_ip = ip_bytes []\<rparr>
      in if hostname = [] then none
         else (case ap_ipv4 ap hostname of
             Some v4 \<Rightarrow> none\<lparr>nt_ipv4 := True, nt_ip := ip_bytes v4\<rparr>
           | None \<Rightarrow>
               (case ap_ipv6 ap hostname of
                  Some v6 \<Rightarrow> none\<lparr>nt_ipv6 := True, nt_ip := ip_bytes v6\<rparr>
                | None \<Rightarrow> none)))"

fun entry_matches :: "normalized_target \<Rightarrow> no_proxy_entry \<Rightarrow> bool" where
  "entry_matches t Wildcard = True"
| "entry_matches t (IPv4_Cidr net p) = (nt_ipv4 t \<and> ip_in_cidr (nt_ip t) net p)"
| "entry_matches t (IPv6_Cidr net p) = (nt_ipv6 t \<and> ip_in_cidr (nt_ip t) net p)"
| "entry_matches t (Hostname_Suffix pat) =
     (if nt_ipv4 t \<or> nt_ipv6 t then False
      else if nt_hostname t = pat then True
      else if length pat + 1 < length (nt_hostname t) then
        (let offset = length (nt_hostname t) - length pat in
         nt_hostname t ! (offset - 1) = CHR ''.'' \<and> drop offset (nt_hostname t) = pat)
      else False)"

definition host_matches_no_proxy :: "normalized_target \<Rightarrow> no_proxy_entry list \<Rightarrow> bool" where
  "host_matches_no_proxy t entries = (if nt_hostname t = [] then False else list_ex (entry_matches t) entries)"

definition no_proxy_entries :: "address_parser \<Rightarrow> string list \<Rightarrow> no_proxy_entry list" where
  "no_proxy_entries ap patterns = List.map_filter (parse_no_proxy_entry ap) (filter (\<lambda>p. p \<noteq> []) (map trim_copy patterns))"

subsection \<open>A URL is read back\<close>

definition url_text :: "url_components \<Rightarrow> string" where
  "url_text uc = uc_scheme uc @ ''://''
     @ (if CHR '':'' \<in> set (uc_host uc) then ''['' @ uc_host uc @ '']'' else uc_host uc)
     @ (if uc_port uc = [] then [] else '':'' @ uc_port uc) @ uc_path uc @ uc_query uc"

definition url_ok :: "url_components \<Rightarrow> bool" where
  "url_ok uc \<longleftrightarrow> uc_scheme uc \<noteq> [] \<and> list_all (\<lambda>c. 97 \<le> byte c \<and> byte c \<le> 122) (uc_scheme uc)
     \<and> (if CHR '':'' \<in> set (uc_host uc) then list_all ipv6_char (uc_host uc)
        else list_all (\<lambda>c. c \<notin> set '':/?#['') (uc_host uc))
     \<and> list_all (\<lambda>c. c \<notin> set ''/?#'') (uc_port uc)
     \<and> (uc_path uc = [] \<or> hd (uc_path uc) = CHR ''/'') \<and> list_all (\<lambda>c. c \<notin> set ''?#'') (uc_path uc)
     \<and> (uc_query uc = [] \<or> hd (uc_query uc) = CHR ''?'') \<and> list_all (\<lambda>c. c \<noteq> CHR ''#'') (uc_query uc)"

lemma until_stop:
  "list_all (\<lambda>c. c \<notin> set stops) a \<Longrightarrow> s = [] \<or> hd s \<in> set stops \<Longrightarrow> until stops (a @ s) = (a, s)"
  by (induction a) (auto simp: until_def takeWhile_eq_Nil_iff dropWhile_eq_self_iff)

lemma index_of_sep: "list_all (\<lambda>c. 97 \<le> byte c) xs \<Longrightarrow> index_of ''://'' (xs @ ''://'' @ ys) = Some (length xs)"
proof (induction xs)
  case (Cons x xs)
  have "byte (CHR '':'') < 97" by code_simp
  then have "x \<noteq> CHR '':''" using Cons.prems by auto
  then show ?case using Cons by simp
qed simp

lemma parse_scheme_text:
  assumes "scheme \<noteq> []" "list_all (\<lambda>c. 97 \<le> byte c \<and> byte c \<le> 122) scheme"
  shows "parse_scheme (scheme @ ''://'' @ s) = Some (scheme, True, s)"
proof -
  have "list_all (\<lambda>c. 97 \<le> byte c) scheme" using assms(2) by (auto simp: list_all_iff)
  moreover have "\<not> list_ex (\<lambda>c. byte c < 97 \<or> 122 < byte c) scheme" using assms(2) by (auto simp: list_all_iff list_ex_iff)
  ultimately show ?thesis using assms(1) by (simp add: parse_scheme_def index_of_sep [simplified])
qed

lemma parse_host_text:
  assumes "if CHR '':'' \<in> set host then list_all ipv6_char host else list_all (\<lambda>c. c \<notin> set '':/?#['') host"
    "s = [] \<or> hd s \<in> set '':/?#''"
  shows "parse_host ((if CHR '':'' \<in> set host then ''['' @ host @ '']'' else host) @ s) = Some (host, s)"
proof (cases "CHR '':'' \<in> set host")
  case True
  have "\<not> ipv6_char (CHR '']'')" by code_simp
  then have "list_all (\<lambda>c. c \<notin> set '']'') host" using assms(1) True by (auto simp: list_all_iff)
  then have "until '']'' (host @ '']'' @ s) = (host, '']'' @ s)" by (intro until_stop) auto
  moreover have "host \<noteq> []" using True by auto
  ultimately show ?thesis using True assms(1) by (simp add: parse_host_def)
next
  case False
  have l: "list_all (\<lambda>c. c \<notin> set '':/?#['') host" using assms(1) unfolding if_not_P [OF False] .
  have h: "list_all (\<lambda>c. c \<notin> set '':/?#'') host" "host = [] \<or> hd host \<noteq> CHR ''[''"
    using l by (simp add: list_all_iff, cases host, simp_all)
  have "s \<noteq> [] \<Longrightarrow> hd s \<noteq> CHR ''[''" using assms(2) by auto
  then have n: "\<not> (host @ s \<noteq> [] \<and> hd (host @ s) = CHR ''['')" using h(2) by (cases host) auto
  have "parse_host (host @ s) = Some (until '':/?#'' (host @ s))" unfolding parse_host_def if_not_P [OF n] ..
  then show ?thesis unfolding if_not_P [OF False] until_stop [OF h(1) assms(2)] .
qed

lemma parse_port_text_text:
  assumes "list_all (\<lambda>c. c \<notin> set ''/?#'') port" "s = [] \<or> hd s \<in> set ''/?#''"
  shows "parse_port_text ((if port = [] then [] else '':'' @ port) @ s) = (port, s)"
  using assms until_stop [OF assms] by (auto simp: parse_port_text_def)

lemma parse_path_query_text:
  assumes "path = [] \<or> hd path = CHR ''/''" "list_all (\<lambda>c. c \<notin> set ''?#'') path"
    "query = [] \<or> hd query = CHR ''?''" "list_all (\<lambda>c. c \<noteq> CHR ''#'') query"
  shows "parse_path_query (path @ query) = (path, query)"
proof -
  have "until ''#'' query = (query, [])" using until_stop [of "''#''" query "[]"] assms(4) by simp
  moreover have "until ''?#'' (path @ query) = (path, query)" using assms(2,3) by (intro until_stop) auto
  ultimately show ?thesis using assms(1,3) by (cases "path = []") (auto simp: parse_path_query_def)
qed

text \<open>Scheme, host, port, path and query come out as they were put in, for host names and for
  bracketed IPv6 addresses.\<close>

theorem url_roundtrip:
  assumes "url_ok uc"
  shows "parse_url (url_text uc) = Some uc"
proof -
  let ?pq = "uc_path uc @ uc_query uc"
  let ?port = "(if uc_port uc = [] then [] else '':'' @ uc_port uc) @ ?pq"
  have a: "?pq = [] \<or> hd ?pq \<in> set ''/?#''" using assms by (cases "uc_path uc") (auto simp: url_ok_def)
  have b: "?port = [] \<or> hd ?port \<in> set '':/?#''" using a by (cases "uc_port uc") auto
  have "parse_host ((if CHR '':'' \<in> set (uc_host uc) then ''['' @ uc_host uc @ '']'' else uc_host uc) @ ?port)
      = Some (uc_host uc, ?port)"
    using assms unfolding url_ok_def by (intro parse_host_text b) blast
  moreover have "parse_port_text ?port = (uc_port uc, ?pq)"
    using assms unfolding url_ok_def by (intro parse_port_text_text a) blast
  moreover have "parse_path_query ?pq = (uc_path uc, uc_query uc)"
    using assms unfolding url_ok_def by (intro parse_path_query_text) blast+
  moreover have "parse_scheme (url_text uc) = Some (uc_scheme uc, True,
      (if CHR '':'' \<in> set (uc_host uc) then ''['' @ uc_host uc @ '']'' else uc_host uc) @ ?port)"
    using assms unfolding url_text_def url_ok_def by (intro parse_scheme_text) blast+
  ultimately show ?thesis by (simp add: parse_url_def Let_def)
qed

theorem url_roundtrip_witness:
  "parse_url (url_text \<lparr>uc_scheme = ''http'', uc_host = ''::1'', uc_port = ''8080'', uc_path = ''/metrics'', uc_query = ''?a=b''\<rparr>)
    = Some \<lparr>uc_scheme = ''http'', uc_host = ''::1'', uc_port = ''8080'', uc_path = ''/metrics'', uc_query = ''?a=b''\<rparr>"
  by (rule url_roundtrip) code_simp

subsection \<open>What bypasses the proxy\<close>

text \<open>A name bypasses the proxy by a suffix only at a label boundary.\<close>

theorem suffix_at_label_boundary:
  assumes "\<not> nt_ipv4 t" "\<not> nt_ipv6 t" "pat \<noteq> []"
  shows "entry_matches t (Hostname_Suffix pat) \<longleftrightarrow> nt_hostname t = pat \<or> (\<exists>labels. labels \<noteq> [] \<and> nt_hostname t = labels @ ''.'' @ pat)"
proof
  assume m: "entry_matches t (Hostname_Suffix pat)"
  show "nt_hostname t = pat \<or> (\<exists>labels. labels \<noteq> [] \<and> nt_hostname t = labels @ ''.'' @ pat)"
  proof (cases "nt_hostname t = pat")
    case False
    let ?h = "nt_hostname t"
    let ?o = "length ?h - length pat"
    have o: "1 < ?o" "?h ! (?o - 1) = CHR ''.''" "drop ?o ?h = pat"
      using m False assms by (auto simp: Let_def split: if_splits)
    have "0 < length pat" using assms(3) by simp
    then have l: "?o < length ?h" using o(1) by linarith
    have e: "Suc (?o - 1) = ?o" using o(1) by simp
    have "?h = take (?o - 1) ?h @ [?h ! (?o - 1)] @ drop (Suc (?o - 1)) ?h"
      using o(1) l by (simp add: id_take_nth_drop)
    then have "?h = take (?o - 1) ?h @ ''.'' @ pat" unfolding e o(2,3) .
    moreover have "take (?o - 1) ?h \<noteq> []" using o l by auto
    ultimately show ?thesis by blast
  qed simp
next
  assume "nt_hostname t = pat \<or> (\<exists>labels. labels \<noteq> [] \<and> nt_hostname t = labels @ ''.'' @ pat)"
  then show "entry_matches t (Hostname_Suffix pat)" using assms by (auto simp: nth_append)
qed

definition byte_bits :: "nat \<Rightarrow> bool list" where
  "byte_bits b = map (\<lambda>i. bit b (7 - i)) [0..<8]"

definition address_bits :: "nat list \<Rightarrow> bool list" where
  "address_bits bs = concat (map byte_bits bs)"

lemma byte_bits_inj: "a < 256 \<Longrightarrow> b < 256 \<Longrightarrow> byte_bits a = byte_bits b \<longleftrightarrow> a = b"
proof
  assume a: "a < 256" "b < 256" "byte_bits a = byte_bits b"
  have "bit a i = bit b i" if "i < 8" for i
  proof -
    have "byte_bits x ! (7 - i) = bit x i" for x
    proof -
      have "7 - i < length [0..<8]" "[0..<8] ! (7 - i) = 7 - i" using nth_upt [of 0 "7 - i" 8] by simp_all
      then show ?thesis using that by (simp add: byte_bits_def del: upt_rec_numeral)
    qed
    then show ?thesis using a(3) by metis
  qed
  then have "take_bit 8 a = take_bit 8 b" by (auto simp: bit_eq_iff bit_take_bit_iff)
  then show "a = b" using a(1,2) by (simp add: take_bit_nat_eq_self)
qed simp

lemma length_byte_bits [simp]: "length (byte_bits b) = 8"
  by (simp add: byte_bits_def)

lemma address_bits_inj:
  "length a = length b \<Longrightarrow> list_all (\<lambda>x. x < 256) a \<Longrightarrow> list_all (\<lambda>x. x < 256) b \<Longrightarrow>
     address_bits a = address_bits b \<longleftrightarrow> a = b"
  by (induction a b rule: list_induct2) (simp_all add: address_bits_def byte_bits_inj)

lemma take_address_bits:
  "q < length ip \<or> q = length ip \<and> r = 0 \<Longrightarrow> r < 8 \<Longrightarrow>
     take (8 * q + r) (address_bits ip) = address_bits (take q ip) @ (if r = 0 then [] else take r (byte_bits (ip ! q)))"
proof (induction ip arbitrary: q)
  case (Cons b ip)
  show ?case
  proof (cases q)
    case (Suc n)
    then show ?thesis using Cons.IH [of n] Cons.prems by (simp add: address_bits_def add.assoc [symmetric])
  qed (use Cons.prems in \<open>simp add: address_bits_def\<close>)
qed (simp add: address_bits_def)

lemma masked_bits:
  assumes "0 < r" "r < 8"
  shows "a AND (push_bit (8 - r) 0xFF mod 0x100) = b AND (push_bit (8 - r) 0xFF mod 0x100)
    \<longleftrightarrow> take r (byte_bits a) = take r (byte_bits b)"
proof -
  let ?m = "push_bit (8 - r) 0xFF mod 0x100 :: nat"
  have "?m = take_bit 8 (push_bit (8 - r) (mask 8))" by (simp add: take_bit_eq_mod mask_eq_exp_minus_1)
  then have m: "bit ?m i \<longleftrightarrow> 8 - r \<le> i \<and> i < 8" for i
    by (auto simp: bit_take_bit_iff bit_push_bit_iff bit_mask_iff)
  have "take r (byte_bits a) = take r (byte_bits b) \<longleftrightarrow> (\<forall>i<r. bit a (7 - i) = bit b (7 - i))"
    using assms(2) by (auto simp: byte_bits_def take_map take_upt)
  also have "\<dots> \<longleftrightarrow> (\<forall>i. 8 - r \<le> i \<and> i < 8 \<longrightarrow> bit a i = bit b i)"
  proof safe
    fix i assume h: "\<forall>i<r. bit a (7 - i) = bit b (7 - i)" "8 - r \<le> i" "i < 8"
    have "7 - i < r" "7 - (7 - i) = i" using h(2,3) by auto
    then show "bit a i \<Longrightarrow> bit b i" "bit b i \<Longrightarrow> bit a i" using h(1) by metis+
  next
    fix i assume h: "\<forall>i. 8 - r \<le> i \<and> i < 8 \<longrightarrow> bit a i = bit b i" "i < r"
    have "8 - r \<le> 7 - i" "7 - i < 8" using h(2) assms(2) by auto
    then show "bit a (7 - i) \<Longrightarrow> bit b (7 - i)" "bit b (7 - i) \<Longrightarrow> bit a (7 - i)" using h(1) by metis+
  qed
  also have "\<dots> \<longleftrightarrow> a AND ?m = b AND ?m"
    unfolding bit_eq_iff [of "a AND ?m"] bit_and_iff m by auto
  finally show ?thesis by simp
qed

text \<open>The test of a CIDR entry is the comparison of the leading bits.\<close>

theorem cidr_is_prefix:
  assumes "length ip = 16" "length net = 16" "list_all (\<lambda>x. x < 256) ip" "list_all (\<lambda>x. x < 256) net" "0 \<le> p" "p \<le> 128"
  shows "ip_in_cidr ip net p \<longleftrightarrow> take (nat p) (address_bits ip) = take (nat p) (address_bits net)"
proof -
  let ?q = "nat (p div 8)" and ?r = "nat (p mod 8)"
  have p: "nat p = 8 * ?q + ?r" using assms(5) nat_div_distrib [of p 8] nat_mod_distrib [of p 8] by simp
  have "?r < 8" "nat p \<le> 128" using assms(6) by simp_all
  then have q: "?q < 16 \<or> ?q = 16 \<and> ?r = 0" "?r < 8" using p by linarith+
  have b: "address_bits (take ?q ip) = address_bits (take ?q net) \<longleftrightarrow> take ?q ip = take ?q net"
    using assms(1-4) by (intro address_bits_inj) (auto simp: list_all_iff dest: in_set_takeD)
  have l: "length (address_bits (take ?q ip)) = length (address_bits (take ?q net))"
    using assms(1,2) by (simp add: address_bits_def length_concat o_def sum_list_triv)
  have "take (nat p) (address_bits ip) = take (nat p) (address_bits net) \<longleftrightarrow>
      take ?q ip = take ?q net \<and> (?r = 0 \<or> take ?r (byte_bits (ip ! ?q)) = take ?r (byte_bits (net ! ?q)))"
    unfolding p using q assms(1,2) l b by (simp add: take_address_bits)
  also have "\<dots> \<longleftrightarrow> ip_in_cidr ip net p"
    using assms(5,6) q(2) masked_bits [of ?r "ip ! ?q" "net ! ?q"] by (auto simp: ip_in_cidr_def Let_def)
  finally show ?thesis by simp
qed

end
