(* ===== verification/Http_Client.thy ===== *)
theory Http_Client
  imports Http_Response Http_Url
begin

text \<open>
  The HTTP client of \<open>include/httplib.h\<close> (\<open>ClientImpl\<close>, built without TLS and compression): the
  request as it is written, the response as it is read, and redirects.  What each connection
  delivers, and whether a kept connection is still alive, is given; content receivers and
  providers are the ones of the server side.
\<close>

subsection \<open>Client, request and response\<close>

record http_client =
  hc_host :: string
  hc_port :: int
  hc_default_headers :: headers
  hc_basic_auth :: "string \<times> string"
  hc_bearer_token :: string
  hc_keep_alive :: bool
  hc_follow_location :: bool
  hc_path_encode :: bool
  hc_unix_socket :: bool
  hc_payload_max_length :: nat
  hc_has_payload_max_length :: bool
  hc_proxy_host :: string
  hc_proxy_port :: int
  hc_proxy_basic_auth :: "string \<times> string"
  hc_proxy_bearer_token :: string
  hc_no_proxy :: "no_proxy_entry list"

definition new_http_client :: "string \<Rightarrow> int \<Rightarrow> http_client" where
  "new_http_client host port = \<lparr>hc_host = host, hc_port = port, hc_default_headers = [], hc_basic_auth = ([], []),
     hc_bearer_token = [], hc_keep_alive = False, hc_follow_location = False, hc_path_encode = True,
     hc_unix_socket = False, hc_payload_max_length = PAYLOAD_MAX_LENGTH, hc_has_payload_max_length = False,
     hc_proxy_host = [], hc_proxy_port = -1, hc_proxy_basic_auth = ([], []), hc_proxy_bearer_token = [],
     hc_no_proxy = []\<rparr>"

text \<open>A content receiver answers from the pieces it has been given so far; a response handler
  sees the status and the headers.\<close>

record client_request =
  cq_request :: request
  cq_redirect_count :: nat
  cq_content_provider :: "content_provider option"
  cq_chunked_provider :: bool
  cq_content_length :: nat
  cq_content_receiver :: "(string list \<Rightarrow> bool) option"
  cq_response_handler :: "(response \<Rightarrow> bool) option"

definition REDIRECT_MAX_COUNT :: nat where "REDIRECT_MAX_COUNT = 20"

definition new_client_request :: "string \<Rightarrow> string \<Rightarrow> headers \<Rightarrow> client_request" where
  "new_client_request meth path h = \<lparr>cq_request = new_request\<lparr>rq_method := meth, rq_path := path, rq_headers := h\<rparr>,
     cq_redirect_count = REDIRECT_MAX_COUNT, cq_content_provider = None, cq_chunked_provider = False,
     cq_content_length = 0, cq_content_receiver = None, cq_response_handler = None\<rparr>"

definition on_headers :: "(headers \<Rightarrow> headers) \<Rightarrow> request \<Rightarrow> request" where
  "on_headers f req = req\<lparr>rq_headers := f (rq_headers req)\<rparr>"

record client_response =
  cp_response :: response
  cp_reason :: string
  cp_location :: string

definition new_client_response :: client_response where
  "new_client_response = \<lparr>cp_response = new_response, cp_reason = [], cp_location = []\<rparr>"

datatype client_error =
    E_Success | E_Unknown | E_Connection | E_Read | E_Write | E_ExceedRedirectCount | E_Canceled
  | E_SSLConnection | E_InvalidHeaders

definition is_proxy_enabled_for_host :: "address_parser \<Rightarrow> http_client \<Rightarrow> bool" where
  "is_proxy_enabled_for_host ap cl \<longleftrightarrow> hc_proxy_host cl \<noteq> [] \<and> hc_proxy_port cl \<noteq> -1
     \<and> (hc_no_proxy cl = [] \<or> \<not> host_matches_no_proxy (normalize_target ap (hc_host cl)) (hc_no_proxy cl))"

subsection \<open>The request\<close>

definition add_absent :: "string \<times> string \<Rightarrow> headers \<Rightarrow> headers" where
  "add_absent kv h = (if has_header h (fst kv) then h else h @ [kv])"

definition set_absent :: "string \<Rightarrow> string \<Rightarrow> headers \<Rightarrow> headers" where
  "set_absent key val h = (if has_header h key then h else set_header key val h)"

definition prepare_default_headers :: "http_client \<Rightarrow> string \<Rightarrow> client_request \<Rightarrow> headers \<Rightarrow> headers" where
  "prepare_default_headers cl ct cq h0 =
     (let h1 = fold add_absent (hc_default_headers cl) h0;
          h2 = add_absent (''Host'', if hc_unix_socket cl then ''localhost''
                 else make_host_and_port_string (hc_host cl) (hc_port cl) False) h1;
          h3 = add_absent (''Accept'', ''*/*'') h2;
          h4 = (if cq_content_receiver cq = None
                then set_absent ''User-Agent'' ''cpp-httplib/0.51.0'' (set_absent ''Accept-Encoding'' [] h3) else h3);
          body = rq_body (cq_request cq)
      in if body = [] then h4
         else add_absent (''Content-Length'', show_nat (length body))
           (if ct \<noteq> [] then add_absent (''Content-Type'', ct) h4 else h4))"

definition length_headers :: "client_request \<Rightarrow> headers \<Rightarrow> headers" where
  "length_headers cq h =
     (if rq_body (cq_request cq) \<noteq> [] then h
      else (case cq_content_provider cq of
          Some p \<Rightarrow> if cq_chunked_provider cq then h else set_absent ''Content-Length'' (show_nat (cq_content_length cq)) h
        | None \<Rightarrow>
            if rq_method (cq_request cq) \<in> {''POST'', ''PUT'', ''PATCH''} then set_header ''Content-Length'' ''0'' h else h))"

definition auth_headers :: "address_parser \<Rightarrow> http_client \<Rightarrow> headers \<Rightarrow> headers" where
  "auth_headers ap cl h0 =
     (let (user, password) = hc_basic_auth cl; (puser, ppassword) = hc_proxy_basic_auth cl;
          h1 = (if password \<noteq> [] \<or> user \<noteq> [] then add_absent (make_basic_authentication_header user password False) h0 else h0);
          h2 = (if hc_bearer_token cl \<noteq> []
                then add_absent (make_bearer_token_authentication_header (hc_bearer_token cl) False) h1 else h1)
      in if \<not> is_proxy_enabled_for_host ap cl then h2
         else
           (let h3 = (if puser \<noteq> [] \<and> ppassword \<noteq> []
                      then add_absent (make_basic_authentication_header puser ppassword True) h2 else h2)
            in if hc_proxy_bearer_token cl \<noteq> []
               then add_absent (make_bearer_token_authentication_header (hc_proxy_bearer_token cl) True) h3 else h3))"

definition request_fields :: "address_parser \<Rightarrow> http_client \<Rightarrow> bool \<Rightarrow> client_request \<Rightarrow> headers" where
  "request_fields ap cl close_connection cq =
     (let req = cq_request cq;
          h0 = (if close_connection then set_absent ''Connection'' ''close'' (rq_headers req) else rq_headers req);
          ct = (if \<not> has_header h0 ''Content-Type'' \<and> rq_body req \<noteq> [] then ''text/plain'' else [])
      in auth_headers ap cl (length_headers cq (prepare_default_headers cl ct cq h0)))"

text \<open>The target, and the parameters the request is left with.\<close>

definition request_target :: "http_client \<Rightarrow> request \<Rightarrow> string \<times> params" where
  "request_target cl req =
     (let (path_part, query0) = until ''?'' (rq_path req);
          query_part = tl query0;
          ps = parse_query_text query_part (rq_params req);
          path = (if hc_path_encode cl then encode_path path_part else path_part)
      in (if query_part \<noteq> [] then
            (if hc_path_encode cl then
               (let q = normalize_query_string query_part in if q \<noteq> [] then path @ ''?'' @ q else path)
             else path @ ''?'' @ query_part)
          else if ps \<noteq> [] then append_query_params path ps else path, ps))"

text \<open>The request line and the header block, or why the request is not sent.\<close>

definition request_head :: "address_parser \<Rightarrow> http_client \<Rightarrow> bool \<Rightarrow> client_request \<Rightarrow> client_error + string \<times> client_request" where
  "request_head ap cl close_connection cq =
     (let h = request_fields ap cl close_connection cq;
          (target, ps) = request_target cl (cq_request cq);
          cq1 = cq\<lparr>cq_request := (cq_request cq)\<lparr>rq_headers := h, rq_params := ps\<rparr>\<rparr>
      in if \<not> is_field_value target then Inl E_Write
         else if \<not> list_all (\<lambda>kv. is_field_valid (fst kv) (snd kv)) h then Inl E_InvalidHeaders
         else Inr (rq_method (cq_request cq) @ '' '' @ target @ '' HTTP/1.1'' @ CRLF @ write_headers h, cq1))"

text \<open>Progress callbacks are left out.  A request without body and provider writes nothing.\<close>

definition write_request_body :: "client_request \<Rightarrow> conn \<Rightarrow> (client_error \<times> conn) res" where
  "write_request_body cq c =
     (let outcome = (\<lambda>(b, c1). Inr (if b then E_Success else E_Write, c1)) in
      if rq_body (cq_request cq) \<noteq> [] then outcome (write_data (rq_body (cq_request cq)) c)
      else (case cq_content_provider cq of
          None \<Rightarrow> Inr (E_Success, c)
        | Some p \<Rightarrow>
            rbind (if cq_chunked_provider cq then write_content_in_chunks p c else write_content p 0 (cq_content_length cq) c)
              outcome))"

definition write_request :: "address_parser \<Rightarrow> http_client \<Rightarrow> bool \<Rightarrow> bool \<Rightarrow> client_request \<Rightarrow> conn
    \<Rightarrow> (client_error \<times> client_request \<times> conn) res" where
  "write_request ap cl close_connection skip_body cq c =
     (case request_head ap cl close_connection cq of
        Inl e \<Rightarrow> Inr (e, cq, c)
      | Inr (text, cq1) \<Rightarrow>
          (case write_data text c of
             (False, c1) \<Rightarrow> Inr (E_Write, cq1, c1)
           | (True, c1) \<Rightarrow>
               if skip_body then Inr (E_Success, cq1, c1)
               else rbind (write_request_body cq1 c1) (\<lambda>(e, c2). Inr (e, cq1, c2))))"

subsection \<open>The status line\<close>

text \<open>\<open>(HTTP/1\.[01]) (\d{3})(?: (.*?))?\r\n\<close>, matched against the whole line.\<close>

definition match_status_line :: "string \<Rightarrow> (string \<times> int \<times> string) option" where
  "match_status_line line =
     (let l = c_str line; code = take 3 (drop 9 l); tail = drop 12 l; text = take (length tail - 2) tail in
      if (take 9 l = ''HTTP/1.0 '' \<or> take 9 l = ''HTTP/1.1 '') \<and> length code = 3 \<and> list_all is_ascii_digit code
         \<and> end_with_crlf tail \<and> (text = [] \<or> hd text = CHR '' '' \<and> list_all (\<lambda>c. c \<noteq> CR \<and> c \<noteq> LF) (tl text))
      then Some (take 8 l, int (foldl (\<lambda>n c. n * 10 + (byte c - 48)) 0 code), tl text) else None)"

definition with_status :: "string \<times> int \<times> string \<Rightarrow> client_response \<Rightarrow> client_response" where
  "with_status m res = (case m of (version, status, reason) \<Rightarrow>
     res\<lparr>cp_response := (cp_response res)\<lparr>rs_version := version, rs_status := status\<rparr>, cp_reason := reason\<rparr>)"

text \<open>The loop that skips interim responses.\<close>

function skip_continue :: "client_response \<Rightarrow> string \<Rightarrow> bool \<times> client_response \<times> string" where
  "skip_continue res s =
     (if rs_status (cp_response res) \<noteq> 100 then (True, res, s)
      else (case getline s of
          None \<Rightarrow> (False, res, s)
        | Some (blank, s1) \<Rightarrow>
            (case getline s1 of
               None \<Rightarrow> (False, res, s1)
             | Some (line, s2) \<Rightarrow>
                 (case match_status_line line of
                    None \<Rightarrow> (False, res, s2)
                  | Some m \<Rightarrow> skip_continue (with_status m res) s2))))"
  by pat_completeness auto
termination
  by (relation "measure (\<lambda>(res, s). length s)") (auto simp: getline_def dest!: getline_loop_shorter)

declare skip_continue.simps [simp del]

definition read_response_line :: "string \<Rightarrow> bool \<Rightarrow> client_response \<Rightarrow> string \<Rightarrow> bool \<times> client_response \<times> string" where
  "read_response_line meth skip_100_continue res s =
     (case getline s of
        None \<Rightarrow> (False, res, s)
      | Some (line, s1) \<Rightarrow>
          (case match_status_line line of
             None \<Rightarrow> (meth = ''CONNECT'', res, s1)
           | Some m \<Rightarrow>
               if skip_100_continue then skip_continue (with_status m res) s1 else (True, with_status m res, s1)))"

subsection \<open>The exchange\<close>

definition EXPECT_100_THRESHOLD :: nat where "EXPECT_100_THRESHOLD = 1024"

text \<open>The receiver of the response body: the pieces given so far and the body collected.\<close>

definition response_piece :: "http_client \<Rightarrow> client_request \<Rightarrow> bool \<Rightarrow> string \<Rightarrow> nat \<Rightarrow> nat \<Rightarrow> string list \<times> string \<times> bool
    \<Rightarrow> bool \<times> string list \<times> string \<times> bool" where
  "response_piece cl cq redirecting d offset chunk_len st =
     (case st of (given, body, canceled) \<Rightarrow>
       (case cq_content_receiver cq of
          Some f \<Rightarrow>
            if redirecting then (True, st)
            else if f (given @ [d]) then (True, given @ [d], body, canceled) else (False, given @ [d], body, True)
        | None \<Rightarrow>
            if 0 < hc_payload_max_length cl
               \<and> (hc_payload_max_length cl \<le> length body \<or> hc_payload_max_length cl - length body < length d)
            then (False, st) else (True, given, body @ d, canceled)))"

definition is_redirect :: "http_client \<Rightarrow> response \<Rightarrow> bool" where
  "is_redirect cl res \<longleftrightarrow> 300 < rs_status res \<and> rs_status res < 400 \<and> hc_follow_location cl"

text \<open>The body of a response, framed like the body of a request.\<close>

definition read_response_body :: "(nat \<Rightarrow> nat) \<Rightarrow> http_client \<Rightarrow> client_request \<Rightarrow> client_response \<Rightarrow> string
    \<Rightarrow> client_error \<times> client_response" where
  "read_response_body avail cl cq res s =
     (let r = cp_response res; redirecting = (is_redirect cl r \<and> rs_status r \<noteq> 304) in
      if rs_status r = 204 \<or> rq_method (cq_request cq) = ''HEAD'' \<or> rq_method (cq_request cq) = ''CONNECT''
      then (E_Success, res)
      else if (case cq_response_handler cq of None \<Rightarrow> False | Some f \<Rightarrow> \<not> redirecting \<and> \<not> f r) then (E_Canceled, res)
      else if rs_has_header r ''Content-Length'' \<and> cq_content_receiver cq = None
           \<and> MAX_STRING < fst (get_header_value_u64 (rs_headers r) ''Content-Length'' 0 0) then (E_Read, res)
      else if rs_status r = 304 then (E_Success, res)
      else (case read_content avail (new_request\<lparr>rq_headers := rs_headers r\<rparr>)
            (if \<not> hc_has_payload_max_length cl \<and> cq_content_receiver cq \<noteq> None then npos else hc_payload_max_length cl)
            (response_piece cl cq redirecting) True ([], rs_body r, False) s of
          (b, stat, (given, body, canceled), m, s1) \<Rightarrow>
            (if b then E_Success else if canceled then E_Canceled else E_Read,
             res\<lparr>cp_response := r\<lparr>rs_body := body\<rparr>\<rparr>)))"

definition read_response_head :: "string \<Rightarrow> bool \<Rightarrow> client_response \<Rightarrow> string \<Rightarrow> (client_response \<times> string) option" where
  "read_response_head meth skip_100_continue res s =
     (case read_response_line meth skip_100_continue res s of
        (False, res1, s1) \<Rightarrow> None
      | (True, res1, s1) \<Rightarrow>
          map_option (\<lambda>(h, s2). (res1\<lparr>cp_response := (cp_response res1)\<lparr>rs_headers := rs_headers (cp_response res1) @ h\<rparr>\<rparr>, s2))
            (read_headers s1))"

text \<open>A large body waits for an interim response.  \<open>early\<close> says whether a status line can be read
  before the timeout; without it the body is sent all the same.\<close>

definition with_expect :: "client_request \<Rightarrow> client_request" where
  "with_expect cq =
     (let req = cq_request cq; n = (if rq_body req = [] then cq_content_length cq else length (rq_body req)) in
      if \<not> rq_has_header req ''Expect'' \<and> EXPECT_100_THRESHOLD \<le> n
      then cq\<lparr>cq_request := on_headers (set_header ''Expect'' ''100-continue'') req\<rparr> else cq)"

definition client_process_request :: "address_parser \<Rightarrow> (nat \<Rightarrow> nat) \<Rightarrow> bool \<Rightarrow> http_client \<Rightarrow> bool \<Rightarrow> client_request
    \<Rightarrow> conn \<Rightarrow> (client_error \<times> client_response \<times> conn) res" where
  "client_process_request ap avail early cl close_connection cq0 c0 =
     (let cq = with_expect cq0;
          expects = (rq_header (cq_request cq) ''Expect'' = ''100-continue'');
          meth = rq_method (cq_request cq);
          failed = (\<lambda>e c. Inr (e, new_client_response, c))
      in rbind (write_request ap cl close_connection expects cq c0) (\<lambda>(e, cq1, c1).
        if e \<noteq> E_Success then failed e c1
        else
          (let finish = (\<lambda>skip_100 res c. case read_response_head meth skip_100 res (conn_in c) of
                 None \<Rightarrow> failed E_Read c
               | Some (res1, s) \<Rightarrow>
                   (case read_response_body avail cl cq1 res1 s of (e, res2) \<Rightarrow> Inr (e, res2, c\<lparr>conn_in := s\<rparr>)));
               send_body = (\<lambda>c k. rbind (write_request_body cq1 c) (\<lambda>(e, c2). if e \<noteq> E_Success then failed e c2 else k c2))
           in if \<not> expects then finish True new_client_response c1
              else (case (if early then read_response_line meth False new_client_response (conn_in c1)
                          else (False, new_client_response, conn_in c1)) of
                  (False, res, s) \<Rightarrow> send_body (c1\<lparr>conn_in := s\<rparr>) (finish True res)
                | (True, res, s) \<Rightarrow>
                    (case read_headers s of
                       None \<Rightarrow> failed E_Read c1
                     | Some (h, s1) \<Rightarrow>
                         (let res1 = res\<lparr>cp_response := (cp_response res)\<lparr>rs_headers := h\<rparr>\<rparr>; c2 = c1\<lparr>conn_in := s1\<rparr> in
                          if rs_status (cp_response res1) = 100 then
                            send_body c2 (finish True (res1\<lparr>cp_response := (cp_response res1)\<lparr>rs_headers := [], rs_body := []\<rparr>\<rparr>))
                          else (case read_response_body avail cl cq1 res1 s1 of (e, res2) \<Rightarrow> Inr (e, res2, c2))))))))"

subsection \<open>Connections and redirects\<close>

text \<open>A connection is what the stream of each request on it receives and what its writes return.
  The network: the connection the client keeps, whether it is found alive each time it is asked,
  what each further attempt to connect gives, and the record of what was written to whom.\<close>

type_synonym connection = "(string \<times> nat option list) list"

record network =
  nw_open :: "connection option"
  nw_alive :: "bool list"
  nw_connects :: "connection option list"
  nw_written :: "(string \<times> int \<times> string) list"

definition check_alive :: "network \<Rightarrow> network" where
  "check_alive nw =
     (if nw_open nw = None then nw
      else nw\<lparr>nw_open := (if nw_alive nw \<noteq> [] \<and> hd (nw_alive nw) then nw_open nw else None), nw_alive := tl (nw_alive nw)\<rparr>)"

definition ensure_connection :: "network \<Rightarrow> bool \<times> network" where
  "ensure_connection nw0 =
     (let nw = check_alive nw0 in
      case nw_open nw of
        Some k \<Rightarrow> (True, nw)
      | None \<Rightarrow>
          (case nw_connects nw of
             Some k # later \<Rightarrow> (True, nw\<lparr>nw_open := Some k, nw_connects := later\<rparr>)
           | None # later \<Rightarrow> (False, nw\<lparr>nw_connects := later\<rparr>)
           | [] \<Rightarrow> (False, nw)))"

definition disconnect :: "network \<Rightarrow> network" where
  "disconnect nw = nw\<lparr>nw_open := None\<rparr>"

text \<open>One exchange on the open connection; with a proxy the target carries the host.\<close>

definition client_exchange :: "address_parser \<Rightarrow> (nat \<Rightarrow> nat) \<Rightarrow> bool \<Rightarrow> http_client \<Rightarrow> client_request \<Rightarrow> network
    \<Rightarrow> (client_error \<times> client_response \<times> network) res" where
  "client_exchange ap avail early cl cq nw =
     (let (received, writes, later) = (case nw_open nw of Some ((r, w) # l) \<Rightarrow> (r, w, l) | _ \<Rightarrow> ([], [], []));
          req = cq_request cq;
          cq1 = (if is_proxy_enabled_for_host ap cl
                 then cq\<lparr>cq_request := req\<lparr>rq_path :=
                   ''http://'' @ make_host_and_port_string (hc_host cl) (hc_port cl) False @ rq_path req\<rparr>\<rparr>
                 else cq)
      in rbind (client_process_request ap avail early cl (\<not> hc_keep_alive cl) cq1
            \<lparr>conn_in = received, conn_out = [], conn_writes = writes\<rparr>) (\<lambda>(e, res, c).
        Inr (e, res, nw\<lparr>nw_open := Some later, nw_written := nw_written nw @ [(hc_host cl, hc_port cl, conn_out c)]\<rparr>)))"

definition closed_by_server :: "client_response \<Rightarrow> bool" where
  "closed_by_server res \<longleftrightarrow> header_text (rs_headers (cp_response res)) ''Connection'' = ''close''
     \<or> rs_version (cp_response res) = ''HTTP/1.0'' \<and> cp_reason res \<noteq> ''Connection established''"

text \<open>Where a redirect goes: scheme, host, port and path, or \<open>None\<close>.\<close>

definition redirect_target :: "http_client \<Rightarrow> string \<Rightarrow> (string \<times> string \<times> int \<times> string) option" where
  "redirect_target cl location =
     (case (if location = [] then None else parse_url location) of
        None \<Rightarrow> None
      | Some uc \<Rightarrow>
          if uc_scheme uc \<notin> {[], ''http'', ''https''} then None
          else
            (case (if uc_port uc \<noteq> [] then parse_port (uc_port uc)
                   else if uc_scheme uc \<noteq> [] then Some (if uc_scheme uc = ''https'' then 443 else 80)
                   else Some (hc_port cl)) of
               None \<Rightarrow> None
             | Some port \<Rightarrow>
                 Some (if uc_scheme uc = [] then ''http'' else uc_scheme uc,
                   if uc_host uc = [] then hc_host cl else uc_host uc, port,
                   decode_path_component (if uc_path uc = [] then ''/'' else uc_path uc) @ uc_query uc)))"

definition redirected_request :: "int \<Rightarrow> string \<Rightarrow> client_request \<Rightarrow> client_request" where
  "redirected_request status path cq =
     (let req = (cq_request cq)\<lparr>rq_path := path\<rparr>;
          req1 = (if status = 303 \<and> rq_method req \<noteq> ''GET'' \<and> rq_method req \<noteq> ''HEAD''
                  then req\<lparr>rq_method := ''GET'', rq_body := [], rq_headers := []\<rparr> else req)
      in cq\<lparr>cq_request := req1, cq_redirect_count := cq_redirect_count cq - 1\<rparr>)"

definition host_specific :: "string list" where
  "host_specific = [''Host'', ''Proxy-Authorization'', ''Authorization'', ''Cookie'', ''Cookie2'']"

definition without_host_fields :: "client_request \<Rightarrow> client_request" where
  "without_host_fields cq = cq\<lparr>cq_request := on_headers (fold erase_header host_specific) (cq_request cq)\<rparr>"

definition redirect_client :: "http_client \<Rightarrow> string \<Rightarrow> int \<Rightarrow> http_client" where
  "redirect_client cl host port =
     (let proxied = (hc_proxy_host cl \<noteq> [] \<and> hc_proxy_port cl \<noteq> -1) in
      (new_http_client host port)\<lparr>hc_keep_alive := hc_keep_alive cl, hc_follow_location := True,
        hc_path_encode := hc_path_encode cl, hc_no_proxy := hc_no_proxy cl,
        hc_proxy_host := (if proxied then hc_proxy_host cl else []),
        hc_proxy_port := (if proxied then hc_proxy_port cl else -1),
        hc_proxy_basic_auth := (if proxied \<and> fst (hc_proxy_basic_auth cl) \<noteq> [] then hc_proxy_basic_auth cl else ([], [])),
        hc_proxy_bearer_token := (if proxied then hc_proxy_bearer_token cl else []),
        hc_unix_socket := hc_unix_socket cl\<rparr>)"

text \<open>\<open>send\<close>: the response or why there is none, and the network.  A redirect to the same host uses
  this client, one to another host a client of its own, which is gone afterwards.\<close>

definition insert_missing :: "string \<times> string \<Rightarrow> headers \<Rightarrow> headers" where
  "insert_missing kv h = (if equal_range h (fst kv) = [] then h @ [kv] else h)"

definition default_fields :: "http_client \<Rightarrow> client_request \<Rightarrow> client_request" where
  "default_fields cl cq = cq\<lparr>cq_request := on_headers (fold insert_missing (hc_default_headers cl)) (cq_request cq)\<rparr>"

definition leave_send :: "http_client \<Rightarrow> bool \<Rightarrow> network \<Rightarrow> network" where
  "leave_send cl ret nw = (if \<not> hc_keep_alive cl \<or> \<not> ret then disconnect nw else nw)"

definition set_location :: "string \<Rightarrow> client_response \<Rightarrow> client_response" where
  "set_location location res = (if cp_location res = [] then res\<lparr>cp_location := location\<rparr> else res)"

lemma redirect_counts:
  "cq_redirect_count (default_fields cl cq) = cq_redirect_count cq"
  "cq_redirect_count (without_host_fields cq) = cq_redirect_count cq"
  "cq_redirect_count (redirected_request status path cq) = cq_redirect_count cq - 1"
  by (simp_all add: default_fields_def without_host_fields_def redirected_request_def Let_def)

function client_send :: "address_parser \<Rightarrow> (nat \<Rightarrow> nat) \<Rightarrow> bool \<Rightarrow> http_client \<Rightarrow> client_request \<Rightarrow> network
    \<Rightarrow> (client_error \<times> client_response option \<times> network) res" where
  "client_send ap avail early cl cq0 nw0 =
     (let failed = (\<lambda>e nw. Inr (if e = E_Success then E_Unknown else e, None, leave_send cl False nw)) in
      case ensure_connection nw0 of
        (False, nw) \<Rightarrow> Inr (E_Connection, None, nw)
      | (True, nw) \<Rightarrow>
          (let cq = default_fields cl cq0 in
           if rq_path (cq_request cq) = [] then failed E_Connection nw
           else rbind (client_exchange ap avail early cl cq nw) (\<lambda>(e, res, nw1).
             if e \<noteq> E_Success then failed e nw1
             else
               (let nw2 = (if closed_by_server res then disconnect nw1 else nw1);
                    status = rs_status (cp_response res);
                    location = header_text (rs_headers (cp_response res)) ''location'';
                    done_with = (\<lambda>(e, r, nw3). case r of
                      None \<Rightarrow> failed e nw3
                    | Some res1 \<Rightarrow> Inr (e, Some (set_location location res1), leave_send cl True nw3))
                in if \<not> is_redirect cl (cp_response res) then Inr (E_Success, Some res, leave_send cl True nw2)
                   else if cq_redirect_count cq0 = 0 then failed E_ExceedRedirectCount nw2
                   else (case redirect_target cl location of
                       None \<Rightarrow> failed E_Success nw2
                     | Some (scheme, host, port, path) \<Rightarrow>
                         if scheme = ''http'' \<and> host = hc_host cl \<and> port = hc_port cl then
                           rbind (client_send ap avail early cl (redirected_request status path cq) nw2) done_with
                         else if scheme = ''https'' then failed E_SSLConnection nw2
                         else
                           rbind (client_send ap avail early (redirect_client cl host port)
                               (redirected_request status path (without_host_fields cq)) (disconnect nw2))
                             (\<lambda>(e, r, nw3). done_with (e, r, nw3\<lparr>nw_open := nw_open nw2\<rparr>)))))))"
  by pat_completeness auto

termination
  by (relation "measure (\<lambda>(ap, avail, early, cl, cq, nw). cq_redirect_count cq)") (simp_all add: redirect_counts)

declare client_send.simps [simp del]

end
