(* ===== verification/Http_Redirects.thy ===== *)
theory Http_Redirects
  imports Http_Client
begin

text \<open>
  What the HTTP client writes to whom: a request that follows a redirect to another host carries
  no credentials of the first one.
\<close>

subsection \<open>Writing appends\<close>

definition appends :: "conn \<Rightarrow> conn \<Rightarrow> bool" where
  "appends c c1 \<longleftrightarrow> prefix (conn_out c) (conn_out c1)"

lemma appends_refl [simp, intro]: "appends c c"
  by (simp add: appends_def)

lemma appends_trans: "appends c c1 \<Longrightarrow> appends c1 c2 \<Longrightarrow> appends c c2"
  unfolding appends_def by (rule prefix_order.trans)

lemma appends_write: "write_data d c = (b, c1) \<Longrightarrow> appends c c1"
  using write_data_prefix [of d c b c1] by (auto simp: appends_def)

lemma appends_sink: "appends (sk_conn st) (sk_conn (sink_send d st))"
  by (auto simp: sink_send_def split: prod.splits dest: appends_write)

lemma appends_length_sink: "length_sink call st = Inr st1 \<Longrightarrow> appends (sk_conn st) (sk_conn st1)"
  by (cases call) (auto simp: Let_def appends_sink split: if_splits)

lemma appends_trailer:
  "appends (sk_conn st) (sk_conn (fold (\<lambda>kv. if is_field_valid (fst kv) (snd kv) then sink_send (header_line kv) else id) t st))"
proof (induction t arbitrary: st)
  case (Cons kv t)
  then show ?case using appends_trans [OF appends_sink] by auto
qed simp

lemma appends_chunked_sink: "chunked_sink call st = Inr st1 \<Longrightarrow> appends (sk_conn st) (sk_conn st1)"
proof -
  have d: "appends (sk_conn st) (sk_conn (chunked_done t st))" for t
    unfolding chunked_done_def
    using appends_trans [OF appends_trans [OF appends_sink appends_trailer] appends_sink, of "st\<lparr>sk_more := False\<rparr>"] by simp
  have w: "appends (sk_conn st) (sk_conn (sink_send x (st\<lparr>sk_more := m, sk_offset := k\<rparr>)))" for x m k
    using appends_sink [of "st\<lparr>sk_more := m, sk_offset := k\<rparr>"] by simp
  assume "chunked_sink call st = Inr st1"
  then show ?thesis using d w by (cases call) (auto split: if_splits)
qed

lemma appends_calls:
  assumes "\<And>call st st1. sink call st = Inr st1 \<Longrightarrow> appends (sk_conn st) (sk_conn st1)"
  shows "sink_calls sink calls st = Inr st1 \<Longrightarrow> appends (sk_conn st) (sk_conn st1)"
  by (induction calls arbitrary: st) (auto simp: rbind_eq_ok intro: appends_trans assms)

lemma appends_provider:
  assumes "\<And>call st st1. sink call st = Inr st1 \<Longrightarrow> appends (sk_conn st) (sk_conn st1)"
  shows "provider_loop sink go_on calls st = Inr (b, c) \<Longrightarrow> appends (sk_conn st) c"
proof (induction calls arbitrary: st)
  case (Cons call calls)
  have "sink_calls sink ks st = Inr st1 \<Longrightarrow> appends (sk_conn st) (sk_conn st1)" for ks st st1
    by (rule appends_calls [OF assms])
  then show ?case using Cons.prems Cons.IH
    by (fastforce simp: rbind_eq_ok split: if_splits intro: appends_trans)
qed auto

lemma appends_body: "write_request_body cq c = Inr (e, c1) \<Longrightarrow> appends c c1"
  using appends_provider [of length_sink _ _ "new_sink 0 c"] appends_provider [of chunked_sink _ _ "new_sink 0 c"]
  by (auto simp: write_request_body_def rbind_eq_ok write_content_in_chunks_def write_content_def new_sink_def Let_def
      appends_length_sink appends_chunked_sink split: if_splits option.splits prod.splits dest: appends_write)

subsection \<open>The request head\<close>

definition credential_names :: "string list" where
  "credential_names = [''Authorization'', ''Cookie'', ''Cookie2'']"

definition no_credentials :: "headers \<Rightarrow> bool" where
  "no_credentials h \<longleftrightarrow> list_all (\<lambda>n. equal_range h n = []) credential_names"

text \<open>The text begins with a request line and a header block without such fields.\<close>

definition discreet :: "string \<Rightarrow> bool" where
  "discreet text \<longleftrightarrow> (\<exists>line h rest. CR \<notin> set line \<and> prefix text (line @ CRLF @ write_headers h @ rest) \<and> no_credentials h)"

definition other_names :: "string list" where
  "other_names = [''Host'', ''Accept'', ''Accept-Encoding'', ''User-Agent'', ''Connection'', ''Content-Type'',
     ''Content-Length'', ''Expect'', ''Proxy-Authorization'']"

lemma names_differ: "list_all (\<lambda>k. list_all (\<lambda>n. \<not> case_equal n k) credential_names) other_names"
  by code_simp

lemma no_credentials_append:
  "k \<in> set other_names \<Longrightarrow> no_credentials (h @ [(k, v)]) = no_credentials h"
  using names_differ by (auto simp: no_credentials_def equal_range_def list_all_iff)

lemma no_credentials_add:
  assumes "no_credentials h" "k \<in> set other_names"
  shows "no_credentials (add_absent (k, v) h)" "no_credentials (set_absent k v h)" "no_credentials (set_header k v h)"
  using assms by (simp_all add: add_absent_def set_absent_def set_header_def emplace_def no_credentials_append)

definition clean_client :: "http_client \<Rightarrow> bool" where
  "clean_client cl \<longleftrightarrow> hc_default_headers cl = [] \<and> hc_basic_auth cl = ([], []) \<and> hc_bearer_token cl = []"

definition clean_request :: "client_request \<Rightarrow> bool" where
  "clean_request cq \<longleftrightarrow> no_credentials (rq_headers (cq_request cq)) \<and> CR \<notin> set (rq_method (cq_request cq))"

lemma other_name_list: "k \<in> set other_names \<longleftrightarrow> k = ''Host'' \<or> k = ''Accept'' \<or> k = ''Accept-Encoding''
    \<or> k = ''User-Agent'' \<or> k = ''Connection'' \<or> k = ''Content-Type'' \<or> k = ''Content-Length'' \<or> k = ''Expect''
    \<or> k = ''Proxy-Authorization''"
  by (simp add: other_names_def)

lemma fields_no_credentials:
  assumes "clean_client cl" "clean_request cq"
  shows "no_credentials (request_fields ap cl close_connection cq)"
proof -
  have d: "hc_default_headers cl = []" "hc_basic_auth cl = ([], [])" "hc_bearer_token cl = []"
    and h: "no_credentials (rq_headers (cq_request cq))"
    using assms by (simp_all add: clean_client_def clean_request_def)
  have p: "no_credentials (prepare_default_headers cl ct cq h0)" if "no_credentials h0" for ct h0
    using that by (simp add: prepare_default_headers_def Let_def d no_credentials_add other_name_list)
  have l: "no_credentials (length_headers cq h0)" if "no_credentials h0" for h0
    using that by (simp add: length_headers_def no_credentials_add other_name_list split: option.splits)
  have a: "no_credentials (auth_headers ap cl h0)" if "no_credentials h0" for h0
    using that by (simp add: auth_headers_def Let_def d no_credentials_add other_name_list make_basic_authentication_header_def
        make_bearer_token_authentication_header_def split: prod.splits)
  show ?thesis
    unfolding request_fields_def Let_def
    by (rule a, rule l, rule p) (simp add: h no_credentials_add other_name_list)
qed

lemma head_discreet:
  assumes "clean_client cl" "clean_request cq" "request_head ap cl close_connection cq = Inr (text, cq1)"
    "prefix out (text @ rest)"
  shows "discreet out"
proof -
  let ?h = "request_fields ap cl close_connection cq"
  obtain target where t: "is_field_value target"
    "text = rq_method (cq_request cq) @ '' '' @ target @ '' HTTP/1.1'' @ CRLF @ write_headers ?h"
    using assms(3) by (auto simp: request_head_def Let_def split: prod.splits if_splits)
  have "CR \<notin> set target" using field_value_chars [OF t(1)] by (auto simp: CR_def)
  then have "CR \<notin> set (rq_method (cq_request cq) @ '' '' @ target @ '' HTTP/1.1'')"
    using assms(2) by (simp add: clean_request_def CR_def)
  then show ?thesis
    using assms(4) t(2) fields_no_credentials [OF assms(1,2)] unfolding discreet_def by fastforce
qed

lemma expect_clean: "clean_request (with_expect cq) = clean_request cq"
  by (simp add: clean_request_def with_expect_def on_headers_def Let_def set_header_def emplace_def no_credentials_append
      other_name_list)

lemma write_request_discreet:
  assumes "clean_client cl" "clean_request cq" "conn_out c = []" "write_request ap cl close_connection skip_body cq c = Inr (e, cq1, c1)"
  shows "discreet (conn_out c1) \<and> (e = E_Success \<longrightarrow> (\<exists>text cq2. request_head ap cl close_connection cq = Inr (text, cq2)
    \<and> prefix text (conn_out c1)))"
proof (cases "request_head ap cl close_connection cq")
  case (Inl err)
  then have "conn_out c1 = []" "e \<noteq> E_Success" using assms(3,4)
    by (auto simp: write_request_def request_head_def Let_def split: prod.splits if_splits)
  moreover have "discreet []" unfolding discreet_def
    by (intro exI [of _ "[]"]) (simp add: no_credentials_def credential_names_def equal_range_def)
  ultimately show ?thesis by simp
next
  case (Inr r)
  obtain msg cq2 where r: "request_head ap cl close_connection cq = Inr (msg, cq2)" using Inr by (cases r) auto
  obtain b c2 where w: "write_data msg c = (b, c2)" by fastforce
  obtain k where k: "conn_out c2 = take k msg" "b \<longrightarrow> length msg \<le> k" using write_data_prefix [OF w] assms(3) by auto
  show ?thesis
  proof (cases b)
    case False
    have "prefix (conn_out c2) (msg @ [])" using k(1) by (simp add: take_is_prefix)
    then show ?thesis using assms(4) False head_discreet [OF assms(1,2) r] by (auto simp: write_request_def r w)
  next
    case True
    then have "conn_out c2 = msg" using k by simp
    moreover have "appends c2 c1" using assms(4) True
      by (auto simp: write_request_def r w rbind_eq_ok split: if_splits dest: appends_body)
    ultimately obtain rest where "conn_out c1 = msg @ rest" by (auto simp: appends_def prefix_def)
    then show ?thesis using head_discreet [OF assms(1,2) r, of "conn_out c1" rest] r by auto
  qed
qed

lemma process_appends:
  assumes "client_process_request ap avail early cl close_connection cq c = Inr (e, res, c2)"
  shows "\<exists>e1 cq1 c1. write_request ap cl close_connection (rq_header (cq_request (with_expect cq)) ''Expect'' = ''100-continue'')
      (with_expect cq) c = Inr (e1, cq1, c1) \<and> (if e1 = E_Success then appends c1 c2 else c2 = c1)"
  using assms unfolding client_process_request_def Let_def
  by (fastforce simp: rbind_eq_ok appends_def dest: appends_body [unfolded appends_def]
      split: if_splits option.splits prod.splits bool.splits)

lemma process_discreet:
  assumes "clean_client cl" "clean_request cq" "conn_out c = []"
    "client_process_request ap avail early cl close_connection cq c = Inr (e, res, c2)"
  shows "discreet (conn_out c2)"
proof -
  let ?x = "with_expect cq"
  have x: "clean_request ?x" using assms(2) by (simp add: expect_clean)
  obtain e1 cq1 c1 where w: "write_request ap cl close_connection (rq_header (cq_request ?x) ''Expect'' = ''100-continue'')
      ?x c = Inr (e1, cq1, c1)" and a: "if e1 = E_Success then appends c1 c2 else c2 = c1"
    using process_appends [OF assms(4)] by blast
  note d = write_request_discreet [OF assms(1) x assms(3) w]
  show ?thesis
  proof (cases "e1 = E_Success")
    case True
    then obtain msg cq2 where h: "request_head ap cl close_connection ?x = Inr (msg, cq2)" "prefix msg (conn_out c1)"
      using d by blast
    then have "prefix msg (conn_out c2)" using a True by (auto simp: appends_def intro: prefix_order.trans)
    then obtain rest where "conn_out c2 = msg @ rest" by (auto simp: prefix_def)
    then show ?thesis using head_discreet [OF assms(1) x h(1), of "conn_out c2" rest] by simp
  qed (use a d in simp)
qed

subsection \<open>Redirects\<close>

definition logs :: "(string \<times> int \<Rightarrow> bool) \<Rightarrow> network \<Rightarrow> network \<Rightarrow> bool" where
  "logs trusted nw nw1 \<longleftrightarrow> (\<exists>log. nw_written nw1 = nw_written nw @ log
     \<and> (\<forall>(host, port, out) \<in> set log. trusted (host, port) \<or> discreet out))"

lemma logs_same: "nw_written nw1 = nw_written nw \<Longrightarrow> logs trusted nw nw1"
  by (simp add: logs_def)

lemma logs_trans:
  assumes "logs trusted nw nw1" "logs trusted nw1 nw2"
  shows "logs trusted nw nw2"
proof -
  obtain a b where "nw_written nw1 = nw_written nw @ a" "\<forall>(host, port, out) \<in> set a. trusted (host, port) \<or> discreet out"
    "nw_written nw2 = nw_written nw1 @ b" "\<forall>(host, port, out) \<in> set b. trusted (host, port) \<or> discreet out"
    using assms by (auto simp: logs_def)
  then show ?thesis unfolding logs_def by (intro exI [of _ "a @ b"]) auto
qed

lemma logs_written:
  "logs trusted (nw\<lparr>nw_open := k\<rparr>) nw1 = logs trusted nw nw1"
  "logs trusted nw (nw1\<lparr>nw_open := k\<rparr>) = logs trusted nw nw1"
  "logs trusted (disconnect nw) nw1 = logs trusted nw nw1"
  "logs trusted nw (disconnect nw1) = logs trusted nw nw1"
  "logs trusted nw (leave_send cl b nw1) = logs trusted nw nw1"
  by (simp_all add: logs_def disconnect_def leave_send_def)

lemma logs_connection: "ensure_connection nw = (b, nw1) \<Longrightarrow> logs trusted nw nw1"
  by (rule logs_same) (auto simp: ensure_connection_def check_alive_def Let_def split: option.splits list.splits if_splits)

lemma logs_exchange:
  assumes "client_exchange ap avail early cl cq nw = Inr (e, res, nw1)"
    "trusted (hc_host cl, hc_port cl) \<or> clean_client cl \<and> clean_request cq"
  shows "logs trusted nw nw1"
proof -
  define req1 where "req1 = (if is_proxy_enabled_for_host ap cl
    then cq\<lparr>cq_request := (cq_request cq)\<lparr>rq_path := ''http://'' @ make_host_and_port_string (hc_host cl) (hc_port cl) False
      @ rq_path (cq_request cq)\<rparr>\<rparr> else cq)"
  obtain received writes later c where
    p: "client_process_request ap avail early cl (\<not> hc_keep_alive cl) req1 \<lparr>conn_in = received, conn_out = [], conn_writes = writes\<rparr>
        = Inr (e, res, c)"
    and n: "nw1 = nw\<lparr>nw_open := Some later, nw_written := nw_written nw @ [(hc_host cl, hc_port cl, conn_out c)]\<rparr>"
    using assms(1) unfolding client_exchange_def Let_def req1_def [symmetric]
    by (auto simp: rbind_eq_ok split: prod.splits)
  have same: "clean_request req1 = clean_request cq" by (simp add: req1_def clean_request_def)
  have "trusted (hc_host cl, hc_port cl) \<or> discreet (conn_out c)"
    using assms(2) process_discreet [OF _ _ _ p] by (auto simp: same)
  then show ?thesis unfolding logs_def n by simp
qed

lemma without_host_clean: "no_credentials (rq_headers (cq_request (without_host_fields cq)))"
proof -
  have e: "equal_range (erase_header k h) n = (if case_equal n k then [] else equal_range h n)" for k n h
    by (auto simp: equal_range_def erase_header_def case_equal_map filter_empty_conv intro!: arg_cong [of _ _ "map snd"] filter_cong)
  show ?thesis
    by (simp add: no_credentials_def without_host_fields_def on_headers_def host_specific_def credential_names_def e case_equal_map)
qed

lemma redirected_clean:
  assumes "CR \<notin> set (rq_method (cq_request cq))"
  shows "CR \<notin> set (rq_method (cq_request (redirected_request status path cq)))"
    "no_credentials (rq_headers (cq_request cq)) \<Longrightarrow> no_credentials (rq_headers (cq_request (redirected_request status path cq)))"
  using assms by (auto simp: redirected_request_def Let_def CR_def no_credentials_def equal_range_def credential_names_def)

text \<open>How a call goes on: it ends on the network its own exchange left, or a call for the redirected
  request has the last word on what was written.\<close>

definition next_call :: "http_client \<Rightarrow> client_request \<Rightarrow> string \<times> string \<times> int \<times> string \<Rightarrow> network \<Rightarrow> http_client \<times> client_request \<times> network" where
  "next_call cl cq target nw = (case target of (scheme, host, pt, path) \<Rightarrow>
     if scheme = ''http'' \<and> host = hc_host cl \<and> pt = hc_port cl then (cl, cq, nw)
     else (redirect_client cl host pt, without_host_fields cq, disconnect nw))"

lemma same_call_follows:
  assumes "client_send ap avail early cl cq nw = Inr (e, res, nw1)" "ensure_connection nw = (True, nwc)"
    "rq_path (cq_request (default_fields cl cq)) \<noteq> []"
    "client_exchange ap avail early cl (default_fields cl cq) nwc = Inr (E_Success, r, nwe)"
    "is_redirect cl (cp_response r)" "cq_redirect_count cq \<noteq> 0"
    "redirect_target cl (header_text (rs_headers (cp_response r)) ''location'') = Some (''http'', hc_host cl, hc_port cl, path)"
  shows "\<exists>nw4 nw5 e1 r1 b. nw1 = leave_send cl b nw5 \<and> nw_written nw5 = nw_written nw4
    \<and> client_send ap avail early cl (redirected_request (rs_status (cp_response r)) path (default_fields cl cq))
        (if closed_by_server r then disconnect nwe else nwe) = Inr (e1, r1, nw4)"
  using assms(1) unfolding client_send.simps [of ap avail early cl cq nw]
  by (fastforce simp: assms(2-7) Let_def rbind_eq_ok split: option.splits)

lemma other_call_follows:
  assumes "client_send ap avail early cl cq nw = Inr (e, res, nw1)" "ensure_connection nw = (True, nwc)"
    "rq_path (cq_request (default_fields cl cq)) \<noteq> []"
    "client_exchange ap avail early cl (default_fields cl cq) nwc = Inr (E_Success, r, nwe)"
    "is_redirect cl (cp_response r)" "cq_redirect_count cq \<noteq> 0"
    "redirect_target cl (header_text (rs_headers (cp_response r)) ''location'') = Some (scheme, host, pt, path)"
    "\<not> (scheme = ''http'' \<and> host = hc_host cl \<and> pt = hc_port cl)" "scheme \<noteq> ''https''"
  shows "\<exists>nw4 nw5 e1 r1 b. nw1 = leave_send cl b nw5 \<and> nw_written nw5 = nw_written nw4
    \<and> client_send ap avail early (redirect_client cl host pt)
        (redirected_request (rs_status (cp_response r)) path (without_host_fields (default_fields cl cq)))
        (disconnect (if closed_by_server r then disconnect nwe else nwe)) = Inr (e1, r1, nw4)"
proof -
  let ?nw = "if closed_by_server r then disconnect nwe else nwe"
  note unfold = client_send.simps [of ap avail early cl cq nw] assms(2-7) if_not_P [OF assms(8)] assms(9)
  obtain e1 r1 nw4 where n: "client_send ap avail early (redirect_client cl host pt)
      (redirected_request (rs_status (cp_response r)) path (without_host_fields (default_fields cl cq))) (disconnect ?nw)
      = Inr (e1, r1, nw4)"
    using assms(1) by (simp add: unfold Let_def rbind_eq_ok) blast
  then obtain b where "nw1 = leave_send cl b (nw4\<lparr>nw_open := nw_open ?nw\<rparr>)"
    using assms(1) by (auto simp: unfold Let_def rbind_eq_ok split: option.splits)
  then show ?thesis
    using n by (intro exI [of _ nw4] exI [of _ "nw4\<lparr>nw_open := nw_open ?nw\<rparr>"] exI [of _ e1] exI [of _ r1] exI [of _ b]) simp
qed

lemma send_cases:
  assumes "client_send ap avail early cl cq nw = Inr (e, res, nw1)" "ensure_connection nw = (True, nwc)"
    "rq_path (cq_request (default_fields cl cq)) \<noteq> []"
    "client_exchange ap avail early cl (default_fields cl cq) nwc = Inr (ee, r, nwe)"
  shows "nw_written nw1 = nw_written nwe \<or> (cq_redirect_count cq \<noteq> 0 \<and> (\<exists>target nw2 nw4 cl1 cq1 nw3 e1 r1.
      nw_written nw2 = nw_written nwe \<and> nw_written nw1 = nw_written nw4
      \<and> next_call cl (default_fields cl cq) target nw2 = (cl1, cq1, nw3)
      \<and> client_send ap avail early cl1 (redirected_request (rs_status (cp_response r)) (snd (snd (snd target))) cq1) nw3
          = Inr (e1, r1, nw4)))"
proof (cases "ee = E_Success \<and> is_redirect cl (cp_response r) \<and> cq_redirect_count cq \<noteq> 0
    \<and> (\<exists>scheme host pt path. redirect_target cl (header_text (rs_headers (cp_response r)) ''location'') = Some (scheme, host, pt, path)
        \<and> (scheme = ''http'' \<and> host = hc_host cl \<and> pt = hc_port cl \<or> scheme \<noteq> ''https''))")
  case False
  then have "nw_written nw1 = nw_written nwe"
    using assms(1) unfolding client_send.simps [of ap avail early cl cq nw]
    by (auto simp: assms(2-4) Let_def rbind_eq_ok leave_send_def disconnect_def split: if_splits option.splits)
  then show ?thesis ..
next
  case True
  then obtain scheme host pt path where
    t: "redirect_target cl (header_text (rs_headers (cp_response r)) ''location'') = Some (scheme, host, pt, path)"
    and h: "scheme = ''http'' \<and> host = hc_host cl \<and> pt = hc_port cl \<or> scheme \<noteq> ''https''" by blast
  have x: "client_exchange ap avail early cl (default_fields cl cq) nwc = Inr (E_Success, r, nwe)" using assms(4) True by simp
  have w: "nw_written (leave_send cl b n) = nw_written n" "nw_written (if c then disconnect n else n) = nw_written n" for b c n
    by (simp_all add: leave_send_def disconnect_def)
  let ?nw2 = "if closed_by_server r then disconnect nwe else nwe"
  obtain cl1 cq1 nw3 where n: "next_call cl (default_fields cl cq) (scheme, host, pt, path) ?nw2 = (cl1, cq1, nw3)"
    by (metis prod_cases3)
  have "\<exists>nw4 nw5 e1 r1 b. nw1 = leave_send cl b nw5 \<and> nw_written nw5 = nw_written nw4
      \<and> client_send ap avail early cl1 (redirected_request (rs_status (cp_response r)) path cq1) nw3 = Inr (e1, r1, nw4)"
  proof (cases "scheme = ''http'' \<and> host = hc_host cl \<and> pt = hc_port cl")
    case same: True
    then show ?thesis using same_call_follows [OF assms(1-3) x] True t n by (auto simp: next_call_def)
  next
    case other: False
    then show ?thesis using other_call_follows [OF assms(1-3) x _ _ t other] True h n by (auto simp: next_call_def)
  qed
  then obtain nw4 nw5 e1 r1 b where s: "nw1 = leave_send cl b nw5" "nw_written nw5 = nw_written nw4"
    "client_send ap avail early cl1 (redirected_request (rs_status (cp_response r)) path cq1) nw3 = Inr (e1, r1, nw4)" by blast
  have "nw_written nw1 = nw_written nw4" using s(1,2) by (simp only: w)
  then show ?thesis using s(3) n w(2) True
    by (intro disjI2 conjI exI [of _ "(scheme, host, pt, path)"] exI [of _ ?nw2] exI [of _ nw4] exI [of _ cl1] exI [of _ cq1]
        exI [of _ nw3] exI [of _ e1] exI [of _ r1]) auto
qed

lemma next_call_keeps:
  assumes "next_call cl cq target nw = (cl1, cq1, nw1)" "trusted (hc_host cl, hc_port cl) \<or> clean_client cl \<and> clean_request cq"
    "CR \<notin> set (rq_method (cq_request cq))"
  shows "CR \<notin> set (rq_method (cq_request cq1))" "cq_redirect_count cq1 = cq_redirect_count cq" "nw_written nw1 = nw_written nw"
    "trusted (hc_host cl1, hc_port cl1) \<or> clean_client cl1 \<and> no_credentials (rq_headers (cq_request cq1))"
proof -
  have "rq_method (cq_request (without_host_fields cq)) = rq_method (cq_request cq)"
    by (simp add: without_host_fields_def on_headers_def)
  moreover have "clean_client (redirect_client cl host pt)" for host pt
    by (simp add: clean_client_def redirect_client_def new_http_client_def Let_def)
  ultimately show "CR \<notin> set (rq_method (cq_request cq1))" "cq_redirect_count cq1 = cq_redirect_count cq"
    "nw_written nw1 = nw_written nw"
    "trusted (hc_host cl1, hc_port cl1) \<or> clean_client cl1 \<and> no_credentials (rq_headers (cq_request cq1))"
    using assms without_host_clean
    by (auto simp: next_call_def redirect_counts disconnect_def clean_request_def split: prod.splits if_splits)
qed

lemma send_logs:
  assumes "client_send ap avail early cl cq nw = Inr (e, res, nw1)" "CR \<notin> set (rq_method (cq_request cq))"
    "trusted (hc_host cl, hc_port cl) \<or> clean_client cl \<and> no_credentials (rq_headers (cq_request cq))"
  shows "logs trusted nw nw1"
  using assms
proof (induction "cq_redirect_count cq" arbitrary: cl cq nw e res nw1 rule: less_induct)
  case less
  let ?q = "default_fields cl cq"
  have m: "CR \<notin> set (rq_method (cq_request ?q))" "cq_redirect_count ?q = cq_redirect_count cq"
    using less.prems(2) by (simp_all add: default_fields_def on_headers_def)
  have "clean_client cl \<Longrightarrow> ?q = cq" by (simp add: clean_client_def default_fields_def on_headers_def)
  then have q: "trusted (hc_host cl, hc_port cl) \<or> clean_client cl \<and> clean_request ?q"
    using less.prems(2,3) by (auto simp: clean_request_def)
  obtain b nwc where c: "ensure_connection nw = (b, nwc)" by fastforce
  note lc = logs_connection [OF c, of trusted]
  show ?case
  proof (cases "b \<and> rq_path (cq_request ?q) \<noteq> []")
    case False
    then show ?thesis using less.prems(1) lc
      by (auto simp: client_send.simps [of ap avail early cl cq nw] c Let_def logs_written split: if_splits bool.splits)
  next
    case True
    then obtain ee r nwe where x: "client_exchange ap avail early cl ?q nwc = Inr (ee, r, nwe)"
      using less.prems(1) by (auto simp: client_send.simps [of ap avail early cl cq nw] c Let_def rbind_eq_ok)
    have c1: "ensure_connection nw = (True, nwc)" and p1: "rq_path (cq_request ?q) \<noteq> []" using c \<open>b \<and> _\<close> by simp_all
    have le: "logs trusted nw nwe" using logs_trans [OF lc logs_exchange [where trusted = trusted, OF x q]] .
    show ?thesis
    proof (cases "nw_written nw1 = nw_written nwe")
      case True
      then show ?thesis using le by (simp add: logs_def)
    next
      case False
      then obtain target nw2 nw4 cl1 cq1 nw3 e1 r1 where s: "cq_redirect_count cq \<noteq> 0" "nw_written nw2 = nw_written nwe"
        "nw_written nw1 = nw_written nw4" "next_call cl ?q target nw2 = (cl1, cq1, nw3)"
        "client_send ap avail early cl1 (redirected_request (rs_status (cp_response r)) (snd (snd (snd target))) cq1) nw3 = Inr (e1, r1, nw4)"
        using send_cases [OF less.prems(1) c1 p1 x] by blast
      note k = next_call_keeps [where trusted = trusted, OF s(4) q m(1)]
      have "logs trusted nw3 nw4"
        by (rule less.hyps [OF _ s(5)]) (use s(1) m(2) k redirected_clean [OF k(1)] in \<open>auto simp: redirect_counts\<close>)
      moreover have "logs trusted nw nw3" using le s(2) k(3) by (simp add: logs_def)
      ultimately show ?thesis using logs_trans s(3) by (fastforce simp: logs_def)
    qed
  qed
qed

subsection \<open>A redirect to another host\<close>

definition no_addresses :: address_parser where "no_addresses = \<lparr>ap_ipv4 = (\<lambda>s. None), ap_ipv6 = (\<lambda>s. None)\<rparr>"
definition moved_client :: "http_client" where
  "moved_client = (new_http_client ''a'' 80)\<lparr>hc_follow_location := True, hc_bearer_token := ''t''\<rparr>"
definition head_request :: client_request where
  "head_request = new_client_request ''HEAD'' ''/'' [(''Cookie'', ''s'')]"

abbreviation valid_fields :: "headers \<Rightarrow> bool" where
  "valid_fields h \<equiv> list_all (\<lambda>kv. is_field_valid (fst kv) (snd kv)) h"

lemma valid_fields_add:
  assumes "valid_fields h" "is_field_valid k v"
  shows "valid_fields (add_absent (k, v) h)" "valid_fields (set_absent k v h)"
  using assms by (simp_all add: add_absent_def set_absent_def set_header_def emplace_def)

lemma plain_fields_valid:
  "is_field_valid ''Cookie'' ''s''" "is_field_valid ''Connection'' ''close''" "is_field_valid ''Host'' ''a''"
  "is_field_valid ''Host'' ''b''" "is_field_valid ''Accept'' ''*/*''" "is_field_valid ''Accept-Encoding'' []"
  "is_field_valid ''User-Agent'' ''cpp-httplib/0.51.0''" "is_field_valid ''Authorization'' ''Bearer t''"
  by code_simp+

lemma plain_head:
  assumes "cl \<in> {moved_client, redirect_client moved_client ''b'' 80}" "rq_headers (cq_request cq) \<in> {[], [(''Cookie'', ''s'')]}"
    "cq_request cq = new_request\<lparr>rq_method := ''HEAD'', rq_path := ''/'', rq_headers := h\<rparr>"
    "cq_content_provider cq = None" "cq_content_receiver cq = None"
  shows "\<exists>msg cq1. request_head no_addresses cl True cq = Inr (msg, cq1)"
proof -
  have c: "rq_body (cq_request cq) = []" "rq_method (cq_request cq) = ''HEAD''" "rq_path (cq_request cq) = ''/''"
     "rq_params (cq_request cq) = []"
    using assms(3) by (simp_all add: new_request_def)
  have cl: "hc_default_headers cl = []" "hc_basic_auth cl = ([], [])" "hc_bearer_token cl \<in> {[], ''t''}" "hc_path_encode cl"
    "\<not> hc_unix_socket cl" "hc_host cl \<in> {''a'', ''b''}" "hc_port cl = 80" "\<not> is_proxy_enabled_for_host no_addresses cl"
    using assms(1) by (auto simp: moved_client_def redirect_client_def new_http_client_def Let_def is_proxy_enabled_for_host_def)
  have h: "make_host_and_port_string (hc_host cl) 80 False = hc_host cl"
    using cl(6) by (auto simp: make_host_and_port_string_def prepare_host_string_def)
  have "valid_fields (request_fields no_addresses cl True cq)"
    using assms(2,4,5) cl h plain_fields_valid
    by (auto simp: request_fields_def Let_def prepare_default_headers_def c length_headers_def auth_headers_def valid_fields_add
        make_bearer_token_authentication_header_def)
  moreover have "request_target cl (cq_request cq) = (''/'', [])"
  proof -
    have "encode_path ''/'' = ''/''" by code_simp
    moreover have "parse_query_text [] [] = []"
      by (simp add: parse_query_text_def split_def split_max_def npos_def trim_copy_def)
    ultimately show ?thesis using cl(4) by (simp add: request_target_def until_def c)
  qed
  moreover have "is_field_value ''/''" by code_simp
  ultimately show ?thesis by (simp add: request_head_def Let_def)
qed

lemma write_all: "conn_writes c = [] \<Longrightarrow> write_data d c = (True, c\<lparr>conn_out := conn_out c @ d\<rparr>)"
  by (simp add: write_data.simps [of d] write_data.simps [of "[]"] conn_write_def)

definition plain_reply :: "string \<Rightarrow> headers \<Rightarrow> string" where
  "plain_reply code h = ''HTTP/1.1 '' @ code @ '' x'' @ CRLF @ write_headers h"

lemma plain_status:
  assumes "(code, n) \<in> {(''302'', 302), (''200'', 200)}"
  shows "read_response_line meth True res (plain_reply code h)
    = (True, with_status (''HTTP/1.1'', n, ''x'') res, write_headers h)"
proof -
  have c: "LF \<notin> set (''HTTP/1.1 '' @ code @ '' x'')" "length code = 3" using assms by (auto simp: LF_def)
  have g: "getline (plain_reply code h) = Some (''HTTP/1.1 '' @ code @ '' x'' @ CRLF, write_headers h)"
    using getline_loop_crlf [OF c(1), of "[]" "write_headers h"] by (simp add: c(2) plain_reply_def getline_def MAX_LINE_LENGTH_def)
  have "match_status_line (''HTTP/1.1 302 x'' @ CRLF) = Some (''HTTP/1.1'', 302, ''x'')"
    "match_status_line (''HTTP/1.1 200 x'' @ CRLF) = Some (''HTTP/1.1'', 200, ''x'')" by code_simp+
  then have m: "match_status_line (''HTTP/1.1 '' @ code @ '' x'' @ CRLF) = Some (''HTTP/1.1'', n, ''x'')" using assms by auto
  show ?thesis unfolding read_response_line_def g option.case prod.case m
    using assms by (auto simp: with_status_def skip_continue.simps)
qed

lemma plain_exchange:
  assumes "cl \<in> {moved_client, redirect_client moved_client ''b'' 80}" "rq_headers (cq_request cq) \<in> {[], [(''Cookie'', ''s'')]}"
    "cq_request cq = new_request\<lparr>rq_method := ''HEAD'', rq_path := ''/'', rq_headers := h\<rparr>"
    "cq_content_provider cq = None" "cq_content_receiver cq = None" "cq_content_length cq = 0"
    "(code, n) \<in> {(''302'', 302), (''200'', 200)}" "hs \<in> {[], [(''Location'', ''http://b/'')]}"
    "nw_open nw = Some [(plain_reply code hs, [])]"
  shows "\<exists>res out. client_exchange no_addresses avail False cl cq nw = Inr (E_Success, res, nw\<lparr>nw_open := Some [],
      nw_written := nw_written nw @ [(hc_host cl, 80, out)]\<rparr>)
    \<and> rs_status (cp_response res) = n \<and> rs_headers (cp_response res) = hs \<and> rs_version (cp_response res) = ''HTTP/1.1''"
proof -
  have cl: "hc_port cl = 80" "\<not> is_proxy_enabled_for_host no_addresses cl" "\<not> hc_keep_alive cl"
    using assms(1) by (auto simp: moved_client_def redirect_client_def new_http_client_def Let_def is_proxy_enabled_for_host_def)
  obtain msg cq1 where h: "request_head no_addresses cl True cq = Inr (msg, cq1)"
    using plain_head [OF assms(1-5)] by blast
  have q: "rq_method (cq_request cq) = ''HEAD''" "rq_body (cq_request cq) = []" "rq_body (cq_request cq1) = []"
      "rq_method (cq_request cq1) = ''HEAD''" "cq_content_provider cq1 = None"
    using h assms(3,4) by (auto simp: new_request_def request_head_def Let_def split: prod.splits if_splits)
  have e: "with_expect cq = cq" by (simp add: with_expect_def q assms(6) EXPECT_100_THRESHOLD_def)
  have x: "rq_header (cq_request cq) ''Expect'' = []"
  proof -
    have "\<not> case_equal ''Expect'' ''Cookie''" by code_simp
    then show ?thesis using assms(2) unfolding rq_header_def
      by (intro known_lookups) (auto simp: known_names_def equal_range_def)
  qed
  have rh: "read_headers (write_headers hs) = Some (hs, [])"
  proof -
    have "is_field_valid ''Location'' ''http://b/''" by code_simp
    then show ?thesis
      using headers_roundtrip [of hs "[]"] assms(8)
      by (auto simp: short_field_def HEADER_MAX_COUNT_def one_content_length_def equal_range_def case_equal_def MAX_LINE_LENGTH_def)
  qed
  show ?thesis
    by (simp add: client_exchange_def Let_def assms(9) cl client_process_request_def e x q write_request_def h write_all write_request_body_def
       read_response_head_def plain_status [OF assms(7)] rh read_response_body_def with_status_def new_client_response_def new_response_def)
      (rule exI, rule refl)
qed

definition moved_to_other :: network where
  "moved_to_other = \<lparr>nw_open = None, nw_alive = [], nw_connects =
     [Some [(plain_reply ''302'' [(''Location'', ''http://b/'')], [])], Some [(plain_reply ''200'' [], [])]], nw_written = []\<rparr>"

lemma moved_to_other_run:
  "\<exists>res nw1 sent0 sent1. client_send no_addresses avail False moved_client head_request moved_to_other = Inr (E_Success, Some res, nw1)
    \<and> nw_written nw1 = [(''a'', 80, sent0), (''b'', 80, sent1)]"
proof -
  let ?open = "\<lambda>k later log. \<lparr>nw_open = k, nw_alive = [], nw_connects = later, nw_written = log\<rparr>"
  let ?second = "[(plain_reply ''200'' [], [])]"
  define cl where "cl = redirect_client moved_client ''b'' 80"
  define cq where "cq = redirected_request 302 ''/'' (without_host_fields head_request)"
  have hc: "equal_range [(''Location'', ''http://b/'')] ''location'' = [''http://b/'']"
    by (simp add: equal_range_def case_equal_def to_lower_def lower_byte_def byte_def)
  have nc: "\<not> case_equal ''Connection'' ''Location''" by code_simp
  have ec: "\<not> is_prohibited_header_name ''location''"
    by (simp add: is_prohibited_header_name_def str2tag_def byte_def)
  have pu: "parse_url ''http://b/'' = Some \<lparr>uc_scheme = ''http'', uc_host = ''b'', uc_port = [], uc_path = ''/'', uc_query = []\<rparr>"
  proof -
    have "url_ok \<lparr>uc_scheme = ''http'', uc_host = ''b'', uc_port = [], uc_path = ''/'', uc_query = []\<rparr>" by code_simp
    from url_roundtrip [OF this] show ?thesis by (simp add: url_text_def)
  qed
  have dp: "decode_path_component ''/'' = ''/''" by simp
  have ct: "header_text h ''Connection'' = []" if "h \<in> {[], [(''Location'', ''http://b/'')]}" for h
    using that nc by (intro known_lookups) (auto simp: known_names_def equal_range_def)
  have d: "default_fields moved_client head_request = head_request" "default_fields cl cq = cq"
    by (simp_all add: default_fields_def moved_client_def new_http_client_def head_request_def on_headers_def cl_def
        redirect_client_def Let_def)
  have lt: "header_text [(''Location'', ''http://b/'')] ''location'' = ''http://b/''"
    by (simp add: header_text_def get_header_value_def hc ec c_str_def)
  have q: "cq_request head_request = new_request\<lparr>rq_method := ''HEAD'', rq_path := ''/'', rq_headers := [(''Cookie'', ''s'')]\<rparr>"
    "cq_request cq = new_request\<lparr>rq_method := ''HEAD'', rq_path := ''/'', rq_headers := []\<rparr>"
    "cq_content_provider head_request = None" "cq_content_receiver head_request = None" "cq_content_length head_request = 0"
    "cq_content_provider cq = None" "cq_content_receiver cq = None" "cq_content_length cq = 0"
    "cq_redirect_count head_request = 20"
  proof -
    have "fold erase_header host_specific [(''Cookie'', ''s'')] = []"
      by (simp add: host_specific_def erase_header_def case_equal_def)
    then show "cq_request cq = new_request\<lparr>rq_method := ''HEAD'', rq_path := ''/'', rq_headers := []\<rparr>"
      by (simp add: cq_def redirected_request_def Let_def without_host_fields_def on_headers_def head_request_def
          new_client_request_def new_request_def)
  qed (simp_all add: head_request_def new_client_request_def REDIRECT_MAX_COUNT_def cq_def redirected_request_def Let_def
      without_host_fields_def)
  obtain r0 o0 where x0: "client_exchange no_addresses avail False moved_client head_request
      (?open (Some [(plain_reply ''302'' [(''Location'', ''http://b/'')], [])]) [Some ?second] [])
      = Inr (E_Success, r0, ?open (Some []) [Some ?second] [(''a'', 80, o0)])"
    "rs_status (cp_response r0) = 302" "rs_headers (cp_response r0) = [(''Location'', ''http://b/'')]"
    "rs_version (cp_response r0) = ''HTTP/1.1''"
    using plain_exchange [of moved_client head_request "[(''Cookie'', ''s'')]" "''302''" 302 "[(''Location'', ''http://b/'')]"
        "?open (Some [(plain_reply ''302'' [(''Location'', ''http://b/'')], [])]) [Some ?second] []" avail] q
    by (auto simp: new_request_def moved_client_def new_http_client_def)
  obtain r1 o1 where x1: "client_exchange no_addresses avail False cl cq
      (?open (Some ?second) [] [(''a'', 80, o0)]) = Inr (E_Success, r1, ?open (Some []) [] [(''a'', 80, o0), (''b'', 80, o1)])"
    "rs_status (cp_response r1) = 200" "rs_headers (cp_response r1) = []"
    "rs_version (cp_response r1) = ''HTTP/1.1''"
    using plain_exchange [of cl cq "[]" "''200''" 200 "[]" "?open (Some ?second) [] [(''a'', 80, o0)]" avail] q
    by (auto simp: new_request_def cl_def redirect_client_def new_http_client_def Let_def)
  have e1: "ensure_connection (?open None [Some ?second] [(''a'', 80, o0)]) = (True, ?open (Some ?second) [] [(''a'', 80, o0)])"
    by (simp add: ensure_connection_def check_alive_def)
  have p1: "rq_path (cq_request cq) \<noteq> []" "rq_path (cq_request head_request) \<noteq> []" using q(1,2) by (simp_all add: new_request_def)
  have c1: "\<not> closed_by_server r1" "\<not> closed_by_server r0" "\<not> is_redirect cl (cp_response r1)"
    using x0 x1 by (simp_all add: closed_by_server_def ct is_redirect_def)
  have s1: "client_send no_addresses avail False cl cq (?open None [Some ?second] [(''a'', 80, o0)])
      = Inr (E_Success, Some r1, leave_send cl True (?open (Some []) [] [(''a'', 80, o0), (''b'', 80, o1)]))"
    unfolding client_send.simps [of no_addresses avail False cl cq] e1 by (simp add: d p1 x1(1) c1)
  have mc: "hc_host moved_client = ''a''" "hc_port moved_client = 80" "is_redirect moved_client (cp_response r0)"
    using x0 by (simp_all add: moved_client_def new_http_client_def is_redirect_def)
  have rt: "redirect_target moved_client ''http://b/'' = Some (''http'', ''b'', 80, ''/'')"
    by (simp add: redirect_target_def pu dp)
  have e0: "ensure_connection moved_to_other = (True, ?open (Some [(plain_reply ''302'' [(''Location'', ''http://b/'')], [])]) [Some ?second] [])"
    by (simp add: ensure_connection_def check_alive_def moved_to_other_def)
  show ?thesis
    unfolding client_send.simps [of no_addresses avail False moved_client head_request] e0
    by (simp add: d p1 x0 c1 mc lt q(9) rt disconnect_def s1 [unfolded cl_def cq_def] leave_send_def)
qed

text \<open>C21: A response can send the client elsewhere, but not its credentials.  Of everything a call
  writes, however often and wherever it is redirected and whatever the servers answer, the requests
  to another host or port than the client's own carry no \<open>Authorization\<close>, \<open>Cookie\<close> or \<open>Cookie2\<close>
  field, not even in part: neither fields of the request, nor default headers, nor the user and
  password or the token set on the client.\<close>

theorem redirect_keeps_credentials:
  assumes "client_send ap avail early cl cq nw = Inr (e, res, nw1)" "CR \<notin> set (rq_method (cq_request cq))"
  shows "\<exists>log. nw_written nw1 = nw_written nw @ log
    \<and> (\<forall>(host, port, out) \<in> set log. (host, port) = (hc_host cl, hc_port cl) \<or> discreet out)"
  using send_logs [OF assms, of "\<lambda>hp. hp = (hc_host cl, hc_port cl)"] by (simp add: logs_def)

text \<open>A cookie and a bearer token, and a redirect to another host, which answers.\<close>

theorem redirect_keeps_credentials_witness:
  "\<exists>res nw1 sent0 sent1. client_send no_addresses (\<lambda>n. n) False moved_client head_request moved_to_other = Inr (E_Success, Some res, nw1)
    \<and> nw_written nw1 = [(''a'', 80, sent0), (''b'', 80, sent1)] \<and> discreet sent1"
proof -
  obtain res nw1 sent0 sent1 where r: "client_send no_addresses (\<lambda>n. n) False moved_client head_request moved_to_other
      = Inr (E_Success, Some res, nw1)" "nw_written nw1 = [(''a'', 80, sent0), (''b'', 80, sent1)]"
    using moved_to_other_run by blast
  have "CR \<notin> set (rq_method (cq_request head_request))"
    by (simp add: head_request_def new_client_request_def CR_def)
  then have "discreet sent1"
    using redirect_keeps_credentials [OF r(1)] r(2) by (auto simp: moved_to_other_def moved_client_def new_http_client_def)
  then show ?thesis using r by blast
qed

end
