(* ===== verification/Metrics_Client.thy ===== *)
theory Metrics_Client
  imports Metrics_Page Http_Client
begin

text \<open>
  The HTTP client of the library against the metrics server: what \<open>ClientImpl\<close> writes for a scrape
  is what the server answers, and what the server answers is what the client hands out.
\<close>

subsection \<open>What the client writes\<close>

definition scrape_client :: "string \<Rightarrow> int \<Rightarrow> http_client" where
  "scrape_client host pt = (new_http_client host pt)\<lparr>hc_keep_alive := True\<rparr>"

definition scrape_request :: client_request where
  "scrape_request = new_client_request ''GET'' ''/metrics'' []"

definition scrape_headers :: "string \<Rightarrow> headers" where
  "scrape_headers host_field = [(''Host'', host_field), (''Accept'', ''*/*''), (''Accept-Encoding'', []),
     (''User-Agent'', ''cpp-httplib/0.51.0'')]"

lemma scrape_fields_valid:
  "is_field_valid ''Accept'' ''*/*''" "is_field_valid ''Accept-Encoding'' []"
  "is_field_valid ''User-Agent'' ''cpp-httplib/0.51.0''" "is_field_name ''Host''" "is_field_value ''/metrics''"
  by code_simp+

lemma scrape_client_sel:
  "hc_default_headers (scrape_client host pt) = []" "hc_host (scrape_client host pt) = host"
  "hc_port (scrape_client host pt) = pt" "hc_keep_alive (scrape_client host pt)"
  "hc_path_encode (scrape_client host pt)" "hc_basic_auth (scrape_client host pt) = ([], [])"
  "hc_bearer_token (scrape_client host pt) = []" "\<not> hc_unix_socket (scrape_client host pt)"
  "\<not> is_proxy_enabled_for_host ap (scrape_client host pt)" "\<not> hc_follow_location (scrape_client host pt)"
  "hc_payload_max_length (scrape_client host pt) = PAYLOAD_MAX_LENGTH"
  by (simp_all add: scrape_client_def new_http_client_def is_proxy_enabled_for_host_def)

lemma scrape_request_sel:
  "rq_method (cq_request scrape_request) = ''GET''" "rq_path (cq_request scrape_request) = ''/metrics''"
  "rq_headers (cq_request scrape_request) = []" "rq_body (cq_request scrape_request) = []"
  "rq_params (cq_request scrape_request) = []" "cq_content_receiver scrape_request = None"
  "cq_content_provider scrape_request = None" "cq_content_length scrape_request = 0"
  "cq_response_handler scrape_request = None"
  by (simp_all add: scrape_request_def new_client_request_def new_request_def)

lemma scrape_request_fields:
  "request_fields ap (scrape_client host pt) False scrape_request
    = scrape_headers (make_host_and_port_string host pt False)"
  using scrape_fields_valid
  by (simp add: request_fields_def prepare_default_headers_def length_headers_def auth_headers_def scrape_client_sel
      scrape_request_sel add_absent_def set_absent_def set_header_def emplace_def has_header_def equal_range_def
      case_equal_def scrape_headers_def Let_def)

lemma scrape_head:
  assumes "is_field_value (make_host_and_port_string host pt False)"
  shows "\<exists>cq1. request_head ap (scrape_client host pt) False scrape_request
      = Inr (request_text ''GET'' ''/metrics'' (scrape_headers (make_host_and_port_string host pt False)), cq1)
    \<and> cq_response_handler cq1 = None \<and> cq_content_receiver cq1 = None \<and> rq_method (cq_request cq1) = ''GET''
    \<and> rq_body (cq_request cq1) = [] \<and> cq_content_provider cq1 = None"
proof -
  let ?h = "scrape_headers (make_host_and_port_string host pt False)"
  have v: "list_all (\<lambda>kv. is_field_valid (fst kv) (snd kv)) ?h"
    using scrape_fields_valid assms by (simp add: scrape_headers_def is_field_valid_def)
  then have "filter (\<lambda>x. is_field_valid (fst x) (snd x)) ?h = ?h" by (auto simp: list_all_iff intro: filter_True)
  then have w: "write_headers ?h = concat (map header_line ?h) @ CRLF" by (simp add: write_headers_def)
  have "encode_path ''/metrics'' = ''/metrics''" by code_simp
  moreover have "parse_query_text [] [] = []"
    by (simp add: parse_query_text_def split_def split_max_def npos_def trim_copy_def)
  ultimately have "request_target (scrape_client host pt) (cq_request scrape_request) = (''/metrics'', [])"
    by (simp add: request_target_def until_def scrape_client_sel scrape_request_sel)
  then show ?thesis
    using v w scrape_fields_valid
    by (simp add: request_head_def scrape_request_fields scrape_request_sel request_text_def request_line_def Let_def)
qed

lemma accept_any: "parse_accept_header ''*/*'' \<noteq> None"
proof -
  have t: "trim_copy ''*/*'' = ''*/*''" by code_simp
  have "fst (extract_media_type ''*/*'') = ''*/*''" by (simp add: extract_media_type_def divide_def t)
  then have "accept_entry ''*/*'' \<noteq> None"
    by (simp add: accept_entry_def parse_quality_def divide_def t Let_def split: prod.splits)
  moreover have "\<not> has_infix '',,'' ''*/*''" by code_simp
  moreover have "split CHR '','' ''*/*'' = [''*/*'']" by (simp add: split_def split_max_def segments_no_sep t)
  ultimately show ?thesis by (auto simp: parse_accept_header_def)
qed

lemma scrape_headers_quiet:
  assumes "is_field_value host_field" "length host_field < 8000"
  shows "quiet_headers (scrape_headers host_field)"
proof -
  have e: "equal_range (scrape_headers f) ''Range'' = []" "equal_range (scrape_headers f) ''Expect'' = []"
    "equal_range (scrape_headers f) ''Upgrade'' = []" "equal_range (scrape_headers f) ''Content-Length'' = []"
    "equal_range (scrape_headers f) ''Transfer-Encoding'' = []" "equal_range (scrape_headers f) ''Connection'' = []"
    "equal_range (scrape_headers f) ''Accept'' = [''*/*'']" for f
    by (simp_all add: scrape_headers_def equal_range_def case_equal_def to_lower_def lower_byte_def byte_def)
  have "list_all (\<lambda>x. is_field_valid (fst x) (snd x)) (scrape_headers host_field)"
    using scrape_fields_valid assms by (simp add: scrape_headers_def is_field_valid_def)
  then show ?thesis
    using assms e accept_any
    by (simp add: quiet_headers_def plain_headers_def known_header known_names_def c_str_def one_content_length_def)
      (simp add: scrape_headers_def short_field_def HEADER_MAX_COUNT_def)
qed

subsection \<open>What the client reads\<close>

lemma keeps_pieces:
  assumes "cq_content_receiver cq = None" "length body + length d \<le> hc_payload_max_length cl" "d \<noteq> []"
  shows "response_piece cl cq redirecting d r len ([], body, False) = (True, [], body @ d, False)"
  using assms by (cases d) (auto simp: response_piece_def)

lemma page_lengths:
  assumes "length page \<le> MAX_STRING"
  shows "get_header_value_u64 (page_headers fin ''text/plain'' page) ''Content-Length'' d 0 = (length page, False)"
    "has_header (page_headers fin ''text/plain'' page) ''Content-Length''"
    "\<not> is_chunked_transfer_encoding (page_headers fin ''text/plain'' page)"
    "header_text (page_headers fin ''text/plain'' page) ''Content-Encoding'' = []"
proof -
  have e: "equal_range (page_headers fin ''text/plain'' page) ''Content-Length'' = [show_nat (length page)]"
    "equal_range (page_headers fin ''text/plain'' page) ''Transfer-Encoding'' = []"
    "equal_range (page_headers fin ''text/plain'' page) ''Content-Encoding'' = []"
    using page_headers_good(2) [OF text_plain assms]
    by (simp_all add: page_headers_def Let_def equal_range_def case_equal_def to_lower_def lower_byte_def byte_def)
  have "is_numeric (show_nat (length page))"
    using show_nat_digits [of "length page"] show_nat_nonempty [of "length page"]
    by (simp add: is_numeric_def list_all_iff ascii_digit_isdigit)
  moreover have "read_digits 0 (show_nat (length page)) = length page" using read_show_nat by simp
  moreover have "length page \<le> npos" using assms by (simp add: MAX_STRING_def npos_def)
  ultimately show "get_header_value_u64 (page_headers fin ''text/plain'' page) ''Content-Length'' d 0 = (length page, False)"
    using header_number [of 0 "page_headers fin ''text/plain'' page" "''Content-Length''" d] by (simp add: e Let_def)
  show "has_header (page_headers fin ''text/plain'' page) ''Content-Length''"
    "\<not> is_chunked_transfer_encoding (page_headers fin ''text/plain'' page)"
    "header_text (page_headers fin ''text/plain'' page) ''Content-Encoding'' = []"
    by (simp_all add: known_header known_names_def e is_chunked_transfer_encoding_def)
qed

lemma read_page_line: "read_response_line meth skip new_client_response (page_text fin page)
    = (True, with_status (''HTTP/1.1'', 200, ''OK'') new_client_response, write_headers (page_headers fin ''text/plain'' page) @ page)"
  if "length page \<le> MAX_STRING"
proof -
  have "match_status_line (''HTTP/1.1 200 OK'' @ CRLF) = Some (''HTTP/1.1'', 200, ''OK'')" by code_simp
  then show ?thesis
    unfolding read_response_line_def page_text_def page_text_read(1) [OF text_plain that]
    by (simp add: with_status_def skip_continue.simps)
qed

lemma client_reads_page:
  assumes "length page \<le> PAYLOAD_MAX_LENGTH" "cq_content_receiver cq = None" "cq_response_handler cq = None"
    "rq_method (cq_request cq) = meth" "meth \<notin> {''HEAD'', ''CONNECT''}" "hc_payload_max_length cl = PAYLOAD_MAX_LENGTH" "\<not> hc_follow_location cl"
  shows "\<exists>res s. read_response_head meth True new_client_response (page_text fin page) = Some (res, s)
    \<and> (\<exists>res1. read_response_body avail cl cq res s = (E_Success, res1) \<and> rs_status (cp_response res1) = 200
      \<and> rs_body (cp_response res1) = page)"
proof -
  let ?h = "page_headers fin ''text/plain'' page"
  let ?res = "new_client_response\<lparr>cp_response := (cp_response new_client_response)\<lparr>rs_version := ''HTTP/1.1'', rs_status := 200, rs_headers := ?h\<rparr>, cp_reason := ''OK''\<rparr>"
  have m: "length page \<le> MAX_STRING" using assms(1) by (simp add: PAYLOAD_MAX_LENGTH_def MAX_STRING_def)
  note l = page_lengths [OF m]
  have head: "read_response_head meth True new_client_response (page_text fin page) = Some (?res, page)"
    unfolding read_response_head_def read_page_line [OF m] prod.case bool.case page_text_read(2) [OF text_plain m]
    by (simp add: with_status_def new_client_response_def new_response_def)
  have "read_content avail (new_request\<lparr>rq_headers := ?h\<rparr>) PAYLOAD_MAX_LENGTH (response_piece cl cq False) True ([], [], False) page
      = (True, None, ([], take (length page) page, False), new_request\<lparr>rq_headers := ?h\<rparr>, drop (length page) page)"
    using l assms by (intro read_content_collects [where g = "\<lambda>b. ([], b, False)"])
      (auto simp: keeps_pieces rq_header_def rq_has_header_def)
  then have "read_response_body avail cl cq ?res page = (E_Success, ?res\<lparr>cp_response := (cp_response ?res)\<lparr>rs_body := page\<rparr>\<rparr>)"
    using l assms m
    by (simp add: read_response_body_def Let_def is_redirect_def rs_has_header_def new_client_response_def new_response_def)
  then show ?thesis using head by simp
qed

subsection \<open>A scrape\<close>

definition fresh_network :: "string \<Rightarrow> network" where
  "fresh_network received = \<lparr>nw_open = None, nw_alive = [], nw_connects = [Some [(received, [])]], nw_written = []\<rparr>"

lemma client_scrapes:
  assumes "is_field_value (make_host_and_port_string host pt False)" "length page \<le> PAYLOAD_MAX_LENGTH"
  shows "\<exists>res nw. client_send ap avail early (scrape_client host pt) scrape_request (fresh_network (page_text fin page))
      = Inr (E_Success, Some res, nw) \<and> rs_status (cp_response res) = 200 \<and> rs_body (cp_response res) = page
    \<and> nw_written nw = [(host, pt, request_text ''GET'' ''/metrics'' (scrape_headers (make_host_and_port_string host pt False)))]"
proof -
  let ?cl = "scrape_client host pt"
  let ?text = "request_text ''GET'' ''/metrics'' (scrape_headers (make_host_and_port_string host pt False))"
  let ?n0 = "\<lparr>nw_open = Some [(page_text fin page, [])], nw_alive = [], nw_connects = [], nw_written = []\<rparr>"
  obtain cq1 where h: "request_head ap ?cl False scrape_request = Inr (?text, cq1)" "cq_response_handler cq1 = None"
      "cq_content_receiver cq1 = None" "rq_method (cq_request cq1) = ''GET''" "rq_body (cq_request cq1) = []"
      "cq_content_provider cq1 = None"
    using scrape_head [OF assms(1)] by blast
  have w: "write_request ap ?cl False False scrape_request c = Inr (E_Success, cq1, c\<lparr>conn_out := conn_out c @ ?text\<rparr>)"
    if "conn_writes c = []" for c
    using that h by (simp add: write_request_def write_data_all write_request_body_def)
  have e: "with_expect scrape_request = scrape_request" "rq_header (cq_request scrape_request) ''Expect'' = []"
    by (simp_all add: with_expect_def scrape_request_sel EXPECT_100_THRESHOLD_def rq_header_def known_header known_names_def
        equal_range_def)
  obtain res s res1 where r: "read_response_head ''GET'' True new_client_response (page_text fin page) = Some (res, s)"
      "read_response_body avail ?cl cq1 res s = (E_Success, res1)" "rs_status (cp_response res1) = 200"
      "rs_body (cp_response res1) = page"
    using client_reads_page [OF assms(2) h(3,2,4) _ scrape_client_sel(11,10)] by blast
  have x: "client_exchange ap avail early ?cl scrape_request ?n0 = Inr (E_Success, res1,
      \<lparr>nw_open = Some [], nw_alive = [], nw_connects = [], nw_written = [(host, pt, ?text)]\<rparr>)"
    by (simp add: client_exchange_def client_process_request_def Let_def scrape_client_sel e w r scrape_request_sel)
  have c: "ensure_connection (fresh_network (page_text fin page)) = (True, ?n0)"
    by (simp add: ensure_connection_def check_alive_def fresh_network_def)
  have d: "default_fields ?cl scrape_request = scrape_request"
    by (simp add: default_fields_def scrape_client_sel on_headers_def)
  show ?thesis
    unfolding client_send.simps [of ap avail early ?cl scrape_request] c
    using r(3,4) by (simp add: d scrape_request_sel x is_redirect_def scrape_client_sel leave_send_def disconnect_def)
qed

text \<open>C15: A scrape over HTTP, end to end.  What the HTTP client of the library writes to fetch
  \<open>/metrics\<close> is a request that the metrics server answers; what the server writes back is a response
  that the client accepts with status 200; and the body the client hands out is exactly the page
  \<open>exportMetrics\<close> built, however the response is cut on its way, as long as the page is within the
  100 MB the client allows and the host name fits into a header line.\<close>

theorem scrape_end_to_end:
  assumes "startMetricsServer status reading m = Inr sv" "metrics_handler status reading m = Inr ((page, ct), m1)"
    "length page \<le> PAYLOAD_MAX_LENGTH" "is_field_value (make_host_and_port_string host pt False)"
    "length (make_host_and_port_string host pt False) < 8000"
  shows "\<exists>sent answered res nw.
      client_send ap avail early (scrape_client host pt) scrape_request (fresh_network answered) = Inr (E_Success, Some res, nw)
    \<and> nw_written nw = [(host, pt, sent)]
    \<and> process_request ev sv pa fin \<lparr>conn_in = sent, conn_out = [], conn_writes = []\<rparr>
      = Inr \<lparr>pr_ret = True, pr_closed = False, pr_upgraded = False,
          pr_conn = \<lparr>conn_in = [], conn_out = answered, conn_writes = []\<rparr>\<rparr>
    \<and> rs_status (cp_response res) = 200 \<and> rs_body (cp_response res) = page"
proof -
  let ?h = "scrape_headers (make_host_and_port_string host pt False)"
  have g: "good_scrape (''/metrics'', ?h, [])"
    using short_target(1,2) scrape_headers_quiet [OF assms(4,5)] by (simp add: good_scrape_def)
  have "process_request ev sv pa fin \<lparr>conn_in = request_text ''GET'' ''/metrics'' ?h, conn_out = [], conn_writes = []\<rparr>
      = Inr \<lparr>pr_ret = True, pr_closed = False, pr_upgraded = False,
          pr_conn = \<lparr>conn_in = [], conn_out = page_text fin page, conn_writes = []\<rparr>\<rparr>"
    using scrape_once [OF assms(1,2) g] by (simp add: scrape_stream_def)
  then show ?thesis using client_scrapes [OF assms(4,3), of ap avail early fin] by blast
qed

theorem scrape_end_to_end_witness:
  "\<forall>ap avail ev pa. \<exists>sv sent answered res nw page. startMetricsServer None first_reading no_metrics = Inr sv
    \<and> client_send ap avail False (scrape_client ''localhost'' 80) scrape_request (fresh_network answered)
      = Inr (E_Success, Some res, nw) \<and> nw_written nw = [(''localhost'', 80, sent)]
    \<and> (\<exists>p. process_request ev sv pa False \<lparr>conn_in = sent, conn_out = [], conn_writes = []\<rparr> = Inr p
        \<and> conn_out (pr_conn p) = answered) \<and> rs_status (cp_response res) = 200 \<and> rs_body (cp_response res) = page"
proof (intro allI)
  fix ap avail ev pa
  obtain page m1 where p: "metrics_handler None first_reading no_metrics = Inr ((page, ''text/plain''), m1)"
    "length page \<le> PAYLOAD_MAX_LENGTH" using first_page by blast
  have h: "make_host_and_port_string ''localhost'' 80 False = ''localhost''"
    by (simp add: make_host_and_port_string_def prepare_host_string_def)
  have v: "is_field_value ''localhost''" by code_simp
  show "\<exists>sv sent answered res nw page. startMetricsServer None first_reading no_metrics = Inr sv
    \<and> client_send ap avail False (scrape_client ''localhost'' 80) scrape_request (fresh_network answered)
      = Inr (E_Success, Some res, nw) \<and> nw_written nw = [(''localhost'', 80, sent)]
    \<and> (\<exists>p. process_request ev sv pa False \<lparr>conn_in = sent, conn_out = [], conn_writes = []\<rparr> = Inr p
        \<and> conn_out (pr_conn p) = answered) \<and> rs_status (cp_response res) = 200 \<and> rs_body (cp_response res) = page"
    using scrape_end_to_end [OF start_metrics_server p, of "''localhost''" 80 ap avail False ev pa False]
      start_metrics_server [of None first_reading no_metrics] by (fastforce simp: h v)
qed

end
