(* ===== verification/Http_Calls.thy ===== *)
theory Http_Calls
  imports Http_Client
begin

text \<open>
  The calls of the HTTP client in \<open>include/httplib.h\<close>: the requests that \<open>Get\<close>, \<open>Head\<close>, \<open>Post\<close>,
  \<open>Put\<close>, \<open>Patch\<close>, \<open>Delete\<close> and \<open>Options\<close> send, the settings, and the handle on which a response is
  read piece by piece.  The overloads without headers pass empty ones; forms in parts, progress
  callbacks and the time limits are left out.
\<close>

subsection \<open>Requests with content\<close>

datatype content_source = Whole_Body string | Sized_Source nat content_provider | Unsized_Source content_provider

text \<open>The request that \<open>send_with_content_provider_and_receiver\<close> sends, without a compressor.\<close>

definition content_request :: "string \<Rightarrow> string \<Rightarrow> headers \<Rightarrow> content_source \<Rightarrow> string \<Rightarrow> (string list \<Rightarrow> bool) option
    \<Rightarrow> client_request" where
  "content_request meth path h src content_type receiver =
     (let h1 = (if content_type \<noteq> [] then set_header ''Content-Type'' content_type h else h);
          cq = (new_client_request meth path h1)\<lparr>cq_content_receiver := receiver\<rparr>
      in case src of
           Whole_Body body \<Rightarrow> cq\<lparr>cq_request := (cq_request cq)\<lparr>rq_body := body\<rparr>\<rparr>
         | Sized_Source n p \<Rightarrow> cq\<lparr>cq_content_length := n, cq_content_provider := Some p, cq_chunked_provider := False\<rparr>
         | Unsized_Source p \<Rightarrow> cq\<lparr>cq_content_length := 0, cq_content_provider := Some p, cq_chunked_provider := True,
             cq_request := on_headers (set_header ''Transfer-Encoding'' ''chunked'') (cq_request cq)\<rparr>)"

type_synonym call_result = "(client_error \<times> client_response option \<times> network) res"

definition send_with_content :: "address_parser \<Rightarrow> (nat \<Rightarrow> nat) \<Rightarrow> bool \<Rightarrow> http_client \<Rightarrow> string \<Rightarrow> string \<Rightarrow> headers
    \<Rightarrow> content_source \<Rightarrow> string \<Rightarrow> (string list \<Rightarrow> bool) option \<Rightarrow> network \<Rightarrow> call_result" where
  "send_with_content ap avail early cl meth path h src content_type receiver nw =
     client_send ap avail early cl (content_request meth path h src content_type receiver) nw"

definition client_post :: "address_parser \<Rightarrow> (nat \<Rightarrow> nat) \<Rightarrow> bool \<Rightarrow> http_client \<Rightarrow> string \<Rightarrow> headers
    \<Rightarrow> content_source \<Rightarrow> string \<Rightarrow> (string list \<Rightarrow> bool) option \<Rightarrow> network \<Rightarrow> call_result" where
  "client_post ap avail early cl path h src content_type receiver nw =
     send_with_content ap avail early cl ''POST'' path h src content_type receiver nw"

definition client_put :: "address_parser \<Rightarrow> (nat \<Rightarrow> nat) \<Rightarrow> bool \<Rightarrow> http_client \<Rightarrow> string \<Rightarrow> headers
    \<Rightarrow> content_source \<Rightarrow> string \<Rightarrow> (string list \<Rightarrow> bool) option \<Rightarrow> network \<Rightarrow> call_result" where
  "client_put ap avail early cl path h src content_type receiver nw =
     send_with_content ap avail early cl ''PUT'' path h src content_type receiver nw"

definition client_patch :: "address_parser \<Rightarrow> (nat \<Rightarrow> nat) \<Rightarrow> bool \<Rightarrow> http_client \<Rightarrow> string \<Rightarrow> headers
    \<Rightarrow> content_source \<Rightarrow> string \<Rightarrow> (string list \<Rightarrow> bool) option \<Rightarrow> network \<Rightarrow> call_result" where
  "client_patch ap avail early cl path h src content_type receiver nw =
     send_with_content ap avail early cl ''PATCH'' path h src content_type receiver nw"

text \<open>Parameters are sent as the body of a form.\<close>

definition urlencoded :: string where "urlencoded = ''application/x-www-form-urlencoded''"

definition client_post_params :: "address_parser \<Rightarrow> (nat \<Rightarrow> nat) \<Rightarrow> bool \<Rightarrow> http_client \<Rightarrow> string \<Rightarrow> headers \<Rightarrow> params
    \<Rightarrow> network \<Rightarrow> call_result" where
  "client_post_params ap avail early cl path h ps nw =
     client_post ap avail early cl path h (Whole_Body (params_to_query_str ps)) urlencoded None nw"

definition client_put_params :: "address_parser \<Rightarrow> (nat \<Rightarrow> nat) \<Rightarrow> bool \<Rightarrow> http_client \<Rightarrow> string \<Rightarrow> headers \<Rightarrow> params
    \<Rightarrow> network \<Rightarrow> call_result" where
  "client_put_params ap avail early cl path h ps nw =
     client_put ap avail early cl path h (Whole_Body (params_to_query_str ps)) urlencoded None nw"

definition client_patch_params :: "address_parser \<Rightarrow> (nat \<Rightarrow> nat) \<Rightarrow> bool \<Rightarrow> http_client \<Rightarrow> string \<Rightarrow> headers \<Rightarrow> params
    \<Rightarrow> network \<Rightarrow> call_result" where
  "client_patch_params ap avail early cl path h ps nw =
     client_patch ap avail early cl path h (Whole_Body (params_to_query_str ps)) urlencoded None nw"

definition client_delete :: "address_parser \<Rightarrow> (nat \<Rightarrow> nat) \<Rightarrow> bool \<Rightarrow> http_client \<Rightarrow> string \<Rightarrow> headers \<Rightarrow> string
    \<Rightarrow> string \<Rightarrow> network \<Rightarrow> call_result" where
  "client_delete ap avail early cl path h body content_type nw =
     (let h1 = (if content_type \<noteq> [] then set_header ''Content-Type'' content_type h else h);
          cq = new_client_request ''DELETE'' path h1
      in client_send ap avail early cl (cq\<lparr>cq_request := (cq_request cq)\<lparr>rq_body := body\<rparr>\<rparr>) nw)"

definition client_delete_params :: "address_parser \<Rightarrow> (nat \<Rightarrow> nat) \<Rightarrow> bool \<Rightarrow> http_client \<Rightarrow> string \<Rightarrow> headers \<Rightarrow> params
    \<Rightarrow> network \<Rightarrow> call_result" where
  "client_delete_params ap avail early cl path h ps nw =
     client_delete ap avail early cl path h (params_to_query_str ps) urlencoded nw"

subsection \<open>Requests without content\<close>

definition client_head :: "address_parser \<Rightarrow> (nat \<Rightarrow> nat) \<Rightarrow> bool \<Rightarrow> http_client \<Rightarrow> string \<Rightarrow> headers \<Rightarrow> network \<Rightarrow> call_result" where
  "client_head ap avail early cl path h nw = client_send ap avail early cl (new_client_request ''HEAD'' path h) nw"

definition client_options :: "address_parser \<Rightarrow> (nat \<Rightarrow> nat) \<Rightarrow> bool \<Rightarrow> http_client \<Rightarrow> string \<Rightarrow> headers \<Rightarrow> network \<Rightarrow> call_result" where
  "client_options ap avail early cl path h nw = client_send ap avail early cl (new_client_request ''OPTIONS'' path h) nw"

definition client_get :: "address_parser \<Rightarrow> (nat \<Rightarrow> nat) \<Rightarrow> bool \<Rightarrow> http_client \<Rightarrow> string \<Rightarrow> headers \<Rightarrow> network \<Rightarrow> call_result" where
  "client_get ap avail early cl path h nw = client_send ap avail early cl (new_client_request ''GET'' path h) nw"

definition client_get_params :: "address_parser \<Rightarrow> (nat \<Rightarrow> nat) \<Rightarrow> bool \<Rightarrow> http_client \<Rightarrow> string \<Rightarrow> params \<Rightarrow> headers
    \<Rightarrow> network \<Rightarrow> call_result" where
  "client_get_params ap avail early cl path ps h nw =
     (if ps = [] then client_get ap avail early cl path h nw
      else client_get ap avail early cl (append_query_params path ps) h nw)"

definition client_get_content :: "address_parser \<Rightarrow> (nat \<Rightarrow> nat) \<Rightarrow> bool \<Rightarrow> http_client \<Rightarrow> string \<Rightarrow> headers
    \<Rightarrow> (response \<Rightarrow> bool) option \<Rightarrow> (string list \<Rightarrow> bool) \<Rightarrow> network \<Rightarrow> call_result" where
  "client_get_content ap avail early cl path h handler receiver nw =
     client_send ap avail early cl
       ((new_client_request ''GET'' path h)\<lparr>cq_response_handler := handler, cq_content_receiver := Some receiver\<rparr>) nw"

definition client_get_params_content :: "address_parser \<Rightarrow> (nat \<Rightarrow> nat) \<Rightarrow> bool \<Rightarrow> http_client \<Rightarrow> string \<Rightarrow> params \<Rightarrow> headers
    \<Rightarrow> (response \<Rightarrow> bool) option \<Rightarrow> (string list \<Rightarrow> bool) \<Rightarrow> network \<Rightarrow> call_result" where
  "client_get_params_content ap avail early cl path ps h handler receiver nw =
     (if ps = [] then client_get_content ap avail early cl path h handler receiver nw
      else client_get_content ap avail early cl (append_query_params path ps) h handler receiver nw)"

subsection \<open>Settings\<close>

definition set_basic_auth :: "string \<Rightarrow> string \<Rightarrow> http_client \<Rightarrow> http_client" where
  "set_basic_auth username password cl = cl\<lparr>hc_basic_auth := (username, password)\<rparr>"

definition set_bearer_token_auth :: "string \<Rightarrow> http_client \<Rightarrow> http_client" where
  "set_bearer_token_auth token cl = cl\<lparr>hc_bearer_token := token\<rparr>"

definition set_keep_alive :: "bool \<Rightarrow> http_client \<Rightarrow> http_client" where
  "set_keep_alive on cl = cl\<lparr>hc_keep_alive := on\<rparr>"

definition set_follow_location :: "bool \<Rightarrow> http_client \<Rightarrow> http_client" where
  "set_follow_location on cl = cl\<lparr>hc_follow_location := on\<rparr>"

definition set_path_encode :: "bool \<Rightarrow> http_client \<Rightarrow> http_client" where
  "set_path_encode on cl = cl\<lparr>hc_path_encode := on\<rparr>"

definition client_default_headers :: "headers \<Rightarrow> http_client \<Rightarrow> http_client" where
  "client_default_headers h cl = cl\<lparr>hc_default_headers := h\<rparr>"

definition client_payload_max_length :: "nat \<Rightarrow> http_client \<Rightarrow> http_client" where
  "client_payload_max_length n cl = cl\<lparr>hc_payload_max_length := n, hc_has_payload_max_length := True\<rparr>"

text \<open>A new proxy closes the connection that is kept.\<close>

definition set_proxy :: "string \<Rightarrow> int \<Rightarrow> http_client \<times> network \<Rightarrow> http_client \<times> network" where
  "set_proxy host port = (\<lambda>(cl, nw). (cl\<lparr>hc_proxy_host := host, hc_proxy_port := port\<rparr>, disconnect nw))"

definition set_proxy_basic_auth :: "string \<Rightarrow> string \<Rightarrow> http_client \<Rightarrow> http_client" where
  "set_proxy_basic_auth username password cl = cl\<lparr>hc_proxy_basic_auth := (username, password)\<rparr>"

definition set_proxy_bearer_token_auth :: "string \<Rightarrow> http_client \<Rightarrow> http_client" where
  "set_proxy_bearer_token_auth token cl = cl\<lparr>hc_proxy_bearer_token := token\<rparr>"

subsection \<open>A response read piece by piece\<close>

text \<open>The stream of the handle is the connection it has taken from the client.\<close>

record stream_handle =
  sh_response :: "client_response option"
  sh_error :: client_error
  sh_conn :: conn
  sh_reader :: body_reader
  sh_chunked :: bool
  sh_decoder :: chunked_decoder
  sh_trailers_parsed :: bool
  sh_trailers :: headers

definition sh_is_valid :: "stream_handle \<Rightarrow> bool" where
  "sh_is_valid sh \<longleftrightarrow> sh_response sh \<noteq> None \<and> sh_error sh = E_Success"

text \<open>Each field is one write; the result is how much the writes took.\<close>

fun write_each :: "string list \<Rightarrow> nat \<Rightarrow> conn \<Rightarrow> nat option \<times> conn" where
  "write_each [] n c = (Some n, c)"
| "write_each (d # ds) n c =
     (case conn_write d c of
        (None, c1) \<Rightarrow> (None, c1)
      | (Some k, c1) \<Rightarrow> write_each ds (n + k) c1)"

definition open_stream_write :: "string \<Rightarrow> string \<Rightarrow> headers \<Rightarrow> string \<Rightarrow> conn \<Rightarrow> client_error \<times> conn" where
  "open_stream_write meth path h body c =
     (if \<not> is_field_value path then (E_Write, c)
      else (case conn_write (meth @ '' '' @ path @ '' HTTP/1.1'' @ CRLF) c of
          (None, c1) \<Rightarrow> (E_Write, c1)
        | (Some _, c1) \<Rightarrow>
            if \<not> list_all (\<lambda>x. is_field_valid (fst x) (snd x)) h then (E_InvalidHeaders, c1)
            else (case write_each (map header_line h @ [CRLF]) 0 c1 of
                (None, c2) \<Rightarrow> (E_Write, c2)
              | (Some n, c2) \<Rightarrow>
                  if n = 0 then (E_Write, c2)
                  else if body = [] then (E_Success, c2)
                  else (case conn_write body c2 of
                      (None, c3) \<Rightarrow> (E_Write, c3)
                    | (Some _, c3) \<Rightarrow> (E_Success, c3)))))"

definition new_stream_handle :: stream_handle where
  "new_stream_handle = \<lparr>sh_response = Some new_client_response, sh_error = E_Success,
     sh_conn = \<lparr>conn_in = [], conn_out = [], conn_writes = []\<rparr>,
     sh_reader = \<lparr>has_content_length = False, br_content_length = 0, br_payload_max_length = PAYLOAD_MAX_LENGTH,
       bytes_read = 0, br_eof = False, last_error = Error.E_Success\<rparr>,
     sh_chunked = False, sh_decoder = new_decoder, sh_trailers_parsed = False, sh_trailers = []\<rparr>"

text \<open>After the request has been written: the status line, the headers, and how the body is framed.\<close>

definition open_stream_read :: "http_client \<Rightarrow> string \<Rightarrow> stream_handle \<Rightarrow> stream_handle" where
  "open_stream_read cl meth sh =
     (let failed = sh\<lparr>sh_error := E_Read, sh_response := None\<rparr> in
      case read_response_head meth True new_client_response (conn_in (sh_conn sh)) of
        None \<Rightarrow> failed
      | Some (res, s) \<Rightarrow>
          (let h = rs_headers (cp_response res);
               (len, invalid) = get_header_value_u64 h ''Content-Length'' 0 0;
               sized = rs_has_header (cp_response res) ''Content-Length''
           in if sized \<and> invalid then failed
              else sh\<lparr>sh_response := Some res, sh_conn := (sh_conn sh)\<lparr>conn_in := s\<rparr>,
                sh_reader := (sh_reader sh)\<lparr>br_payload_max_length := hc_payload_max_length cl,
                  has_content_length := sized, br_content_length := (if sized then len else 0)\<rparr>,
                sh_chunked := is_chunked_transfer_encoding h\<rparr>))"

definition open_stream :: "http_client \<Rightarrow> string \<Rightarrow> string \<Rightarrow> params \<Rightarrow> headers \<Rightarrow> string \<Rightarrow> string \<Rightarrow> network
    \<Rightarrow> stream_handle \<times> network" where
  "open_stream cl meth path ps h body content_type nw0 =
     (let query_path = (if ps = [] then path else append_query_params path ps) in
      case ensure_connection nw0 of
        (False, nw) \<Rightarrow> (new_stream_handle\<lparr>sh_error := E_Connection, sh_response := None\<rparr>, nw)
      | (True, nw) \<Rightarrow>
          (let (received, writes) = (case nw_open nw of Some ((r, w) # l) \<Rightarrow> (r, w) | _ \<Rightarrow> ([], []));
               cq = new_client_request meth query_path h;
               cq1 = cq\<lparr>cq_request := (cq_request cq)\<lparr>rq_body := body\<rparr>\<rparr>;
               fields = prepare_default_headers cl content_type cq1 h
           in case open_stream_write meth query_path fields body \<lparr>conn_in = received, conn_out = [], conn_writes = writes\<rparr> of
                (e, c) \<Rightarrow>
                  (let sh = new_stream_handle\<lparr>sh_conn := c\<rparr> in
                   (if e \<noteq> E_Success then sh\<lparr>sh_error := e, sh_response := None\<rparr> else open_stream_read cl meth sh,
                    nw\<lparr>nw_open := None, nw_written := nw_written nw @ [(hc_host cl, hc_port cl, conn_out c)]\<rparr>))))"

text \<open>The branch of \<open>BodyReader::read\<close> for a chunked body.\<close>

definition chunked_body_read :: "(nat \<Rightarrow> nat) \<Rightarrow> nat \<Rightarrow> body_reader \<Rightarrow> chunked_decoder \<Rightarrow> string
    \<Rightarrow> string \<times> body_reader \<times> chunked_decoder \<times> string" where
  "chunked_body_read avail n br dec s =
     (if br_eof br then ([], br, dec, s)
      else (case read_payload avail n dec s of
          (None, dec1, s1) \<Rightarrow> ([], br\<lparr>last_error := Error.E_Read, br_eof := True\<rparr>, dec1, s1)
        | (Some (d, _, _), dec1, s1) \<Rightarrow>
            if d = [] then ([], br\<lparr>br_eof := True\<rparr>, dec1, s1)
            else (let br1 = br\<lparr>bytes_read := bytes_read br + length d\<rparr> in
              if 0 < br_payload_max_length br1 \<and> br_payload_max_length br1 < bytes_read br1
              then ([], br1\<lparr>last_error := E_ExceedMaxPayloadSize, br_eof := True\<rparr>, dec1, s1)
              else (d, br1, dec1, s1))))"

text \<open>\<open>StreamHandle::read\<close>; no bytes stand for a result that is not positive.  Trailers are read when
  the body has ended, also when it ended with an error; of those in front of a bad one the model
  keeps none.\<close>

definition sh_read :: "(nat \<Rightarrow> nat) \<Rightarrow> nat \<Rightarrow> stream_handle \<Rightarrow> string \<times> stream_handle" where
  "sh_read avail n sh =
     (if \<not> sh_is_valid sh then ([], sh)
      else
        (let s = conn_in (sh_conn sh);
             (d, br, dec, s1) =
               (if sh_chunked sh then chunked_body_read avail n (sh_reader sh) (sh_decoder sh) s
                else (case body_read avail n (sh_reader sh) s of (d, br, s1) \<Rightarrow> (d, br, sh_decoder sh, s1)));
             sh1 = sh\<lparr>sh_reader := br, sh_decoder := dec, sh_conn := (sh_conn sh)\<lparr>conn_in := s1\<rparr>\<rparr>
         in if d = [] \<and> sh_chunked sh1 \<and> \<not> sh_trailers_parsed sh1 then
              (d, (case parse_trailers_into (sh_trailers sh1)
                     (case sh_response sh1 of Some res \<Rightarrow> rs_headers (cp_response res) | None \<Rightarrow> []) s1 of
                   None \<Rightarrow> sh1\<lparr>sh_trailers_parsed := True\<rparr>
                 | Some (t, s2) \<Rightarrow> sh1\<lparr>sh_trailers_parsed := True, sh_trailers := t, sh_conn := (sh_conn sh1)\<lparr>conn_in := s2\<rparr>\<rparr>))
            else (d, sh1)))"

subsection \<open>The pieces make up the body\<close>

text \<open>Reads with the given sizes, one after the other.\<close>

fun sh_reads :: "(nat \<Rightarrow> nat) \<Rightarrow> nat list \<Rightarrow> stream_handle \<Rightarrow> string \<times> stream_handle" where
  "sh_reads avail [] sh = ([], sh)"
| "sh_reads avail (n # ns) sh =
     (case sh_read avail n sh of (d, sh1) \<Rightarrow> (case sh_reads avail ns sh1 of (ds, sh2) \<Rightarrow> (d @ ds, sh2)))"

definition sized_handle :: "nat \<Rightarrow> nat \<Rightarrow> string \<Rightarrow> stream_handle \<Rightarrow> bool" where
  "sized_handle len r s sh \<longleftrightarrow> sh_is_valid sh \<and> \<not> sh_chunked sh \<and> conn_in (sh_conn sh) = s
     \<and> has_content_length (sh_reader sh) \<and> br_content_length (sh_reader sh) = len \<and> bytes_read (sh_reader sh) = r
     \<and> (br_eof (sh_reader sh) \<longrightarrow> len \<le> r) \<and> last_error (sh_reader sh) = Error.E_Success
     \<and> len \<le> br_payload_max_length (sh_reader sh)"

lemma unchunked_read:
  assumes "sh_is_valid sh" "\<not> sh_chunked sh" "body_read avail n (sh_reader sh) (conn_in (sh_conn sh)) = (d, br, s1)"
  shows "sh_read avail n sh = (d, sh\<lparr>sh_reader := br, sh_conn := (sh_conn sh)\<lparr>conn_in := s1\<rparr>\<rparr>)"
  using assms by (simp add: sh_read_def)

lemma sized_read:
  assumes "sized_handle len r s sh" "0 < n" "r \<le> len" "len - r \<le> length s"
  shows "\<exists>d s1 sh1. sh_read avail n sh = (d, sh1) \<and> s = d @ s1 \<and> r + length d \<le> len \<and> (r < len \<longrightarrow> d \<noteq> [])
    \<and> sized_handle len (r + length d) s1 sh1"
proof -
  let ?br = "sh_reader sh"
  note h = assms(1) [unfolded sized_handle_def]
  obtain d br s1 where b: "body_read avail n ?br s = (d, br, s1)" "s = d @ s1" "r + length d \<le> len" "r < len \<longrightarrow> d \<noteq> []"
    "has_content_length br" "br_content_length br = len" "bytes_read br = r + length d" "br_eof br \<longrightarrow> len \<le> r + length d"
    "last_error br = Error.E_Success" "br_payload_max_length br = br_payload_max_length ?br"
  proof (cases "r < len")
    case False
    then have "body_read avail n ?br s = ([], ?br\<lparr>br_eof := True\<rparr>, s)" using h by (cases "br_eof ?br") (simp_all add: body_read_def)
    then show ?thesis using that h False assms(3) by simp
  next
    case True
    obtain d s1 where r: "strm_read avail (min n (len - r)) s = (d, s1)" by fastforce
    have "s \<noteq> []" using True assms(4) by auto
    moreover have "0 < min n (len - r)" using True assms(2) by simp
    ultimately have d: "s = d @ s1" "length d \<le> min n (len - r)" "d \<noteq> []" using strm_read_split [OF r] by blast+
    let ?b1 = "?br\<lparr>bytes_read := r + length d\<rparr>"
    have "\<not> br_eof ?br" "\<not> br_payload_max_length ?br < r + length d" using h True d(2) by auto
    then have "body_read avail n ?br s = (d, if len \<le> r + length d then ?b1\<lparr>br_eof := True\<rparr> else ?b1, s1)"
      using h True d(3) r by (simp add: body_read_def Let_def)
    moreover have "r + length d \<le> len" using d(2) assms(3) by linarith
    ultimately show ?thesis using that d(1,3) h True by (cases "len \<le> r + length d") simp_all
  qed
  have "sh_read avail n sh = (d, sh\<lparr>sh_reader := br, sh_conn := (sh_conn sh)\<lparr>conn_in := s1\<rparr>\<rparr>)"
    using h b(1) by (intro unchunked_read) simp_all
  moreover have "sized_handle len (r + length d) s1 (sh\<lparr>sh_reader := br, sh_conn := (sh_conn sh)\<lparr>conn_in := s1\<rparr>\<rparr>)"
    using h b(5-10) by (simp add: sized_handle_def sh_is_valid_def)
  ultimately show ?thesis using b(2-4) by blast
qed

text \<open>Whatever sizes a response with a length is read in, the pieces are the beginning of the body;
  enough of them are all of it, and what follows the body stays in the connection.\<close>

theorem stream_reads_body:
  assumes "sized_handle len r s sh" "list_all (\<lambda>n. 0 < n) ns" "r \<le> len" "len - r \<le> length s"
  shows "\<exists>k sh1. sh_reads avail ns sh = (take k s, sh1) \<and> k \<le> len - r \<and> min (len - r) (length ns) \<le> k
    \<and> sized_handle len (r + k) (drop k s) sh1"
  using assms
proof (induction ns arbitrary: r s sh)
  case (Cons n ns)
  obtain d s1 sh1 where d: "sh_read avail n sh = (d, sh1)" "s = d @ s1" "r + length d \<le> len" "r < len \<longrightarrow> d \<noteq> []"
    "sized_handle len (r + length d) s1 sh1"
    using sized_read [of len r s sh n avail] Cons.prems by auto
  have "list_all (\<lambda>n. 0 < n) ns" "len - (r + length d) \<le> length s1" using Cons.prems d(2) by auto
  from Cons.IH [OF d(5) this(1) d(3) this(2)] obtain k sh2 where k: "sh_reads avail ns sh1 = (take k s1, sh2)"
    "k \<le> len - (r + length d)" "min (len - (r + length d)) (length ns) \<le> k" "sized_handle len (r + length d + k) (drop k s1) sh2"
    by blast
  have l: "r < len \<longrightarrow> 0 < length d" using d(4) by simp
  have "sh_reads avail (n # ns) sh = (take (length d + k) s, sh2)" using k(1) d(1,2) by simp
  moreover have "length d + k \<le> len - r" "min (len - r) (length (n # ns)) \<le> length d + k"
    using k(2,3) d(3) l Cons.prems(3) by (simp_all, linarith)
  moreover have "sized_handle len (r + (length d + k)) (drop (length d + k) s) sh2" using k(4) d(2) by (simp add: add.assoc)
  ultimately show ?case by blast
qed auto

end
