(* ===== verification/Http_Form_Call.thy ===== *)
theory Http_Form_Call
  imports Metrics_Client Http_Calls Http_Targets Http_Config
begin

text \<open>
  A call by form, end to end: \<open>Post\<close> with parameters against a server of the library whose handler
  computes its answer from the parameters it finds in the request.
\<close>

subsection \<open>The server\<close>

definition form_handler :: "(params \<Rightarrow> string) \<Rightarrow> handler" where
  "form_handler f req res = (False, set_content (f (rq_params req)) ''text/plain'' res)"

definition form_server :: "string \<Rightarrow> (params \<Rightarrow> string) \<Rightarrow> http_server" where
  "form_server path f = (plain_server [])\<lparr>sv_post_handlers := [(Regex_Matcher path, form_handler f)]\<rparr>"

lemma form_server_post: "server_post path (form_handler f) new_http_server = Inr (form_server path f)"
  if "\<not> has_infix ''/:'' path"
  using that by (simp add: server_post_def make_matcher_def form_server_def plain_server_def new_http_server_def)

lemma form_server_sel:
  "sv_pre_routing_handler (form_server path f) = None" "sv_pre_request_handler (form_server path f) = None"
  "sv_post_handlers (form_server path f) = [(Regex_Matcher path, form_handler f)]"
  "content_handlers_for (form_server path f) m = []" "sv_default_headers (form_server path f) = []"
  "sv_payload_max_length (form_server path f) = PAYLOAD_MAX_LENGTH" "sv_exception_handler (form_server path f) = None"
  by (simp_all add: form_server_def content_handlers_for_def plain_server_def new_http_server_def)

text \<open>Writing a response does not look at the handlers.\<close>

lemma form_server_same:
  "sv_files (form_server path f) = sv_files (plain_server [])"
  "sv_keep_alive_max_count (form_server path f) = sv_keep_alive_max_count (plain_server [])"
  "sv_keep_alive_timeout_sec (form_server path f) = sv_keep_alive_timeout_sec (plain_server [])"
  "sv_error_handler (form_server path f) = sv_error_handler (plain_server [])"
  "sv_post_routing_handler (form_server path f) = sv_post_routing_handler (plain_server [])"
  by (simp_all add: form_server_def)

lemma form_server_sends: "send_routed ev (form_server path f) = send_routed ev (plain_server [])"
proof (intro ext)
  show "send_routed ev (form_server path f) fin req res c = send_routed ev (plain_server []) fin req res c" for fin req res c
    unfolding send_routed_def load_file_content_def write_response_def write_response_with_content_def write_response_core_def
      connection_header_def form_server_same ..
qed

subsection \<open>What the client writes\<close>

text \<open>Paths that need no coding and are no patterns.\<close>

definition plain_path :: "string \<Rightarrow> bool" where
  "plain_path p \<longleftrightarrow> p \<noteq> [] \<and> length p \<le> REQUEST_URI_MAX_LENGTH
     \<and> list_all (\<lambda>c. is_ascii_alnum c \<or> c \<in> set ''/-_~'') p"

lemma plain_char_facts:
  assumes "is_ascii_alnum c \<or> c \<in> set ''/-_~''"
  shows "c \<notin> set regex_specials" "c \<noteq> CHR ''?'' \<and> c \<noteq> CHR ''%''" "is_vchar c"
    "c \<notin> {CHR '' '', CHR ''#'', CR, LF, CHR 0x00}" "\<not> 128 \<le> byte c" "c \<notin> {CHR ''+'', CHR 0x27, CHR '','', CHR '';''}"
  using assms
  by (auto simp: is_ascii_alnum_def is_ascii_alpha_def is_ascii_digit_def byte_def regex_specials_def is_vchar_def CR_def LF_def)

lemma plain_path_facts:
  assumes "plain_path p"
  shows "list_all (\<lambda>c. c \<notin> set regex_specials) p" "plain_target p" "is_field_value p" "divide CHR ''?'' p = (p, [])"
    "decode_path_component p = p" "encode_path p = p" "until ''?'' p = (p, [])"
proof -
  have c: "is_ascii_alnum c \<or> c \<in> set ''/-_~''" if "c \<in> set p" for c
    using assms that by (auto simp: plain_path_def list_all_iff)
  note q = plain_char_facts [OF c]
  show "list_all (\<lambda>c. c \<notin> set regex_specials) p" using q(1) by (auto simp: list_all_iff)
  have "\<not> is_space_or_tab c" if "c \<in> set p" for c using field_vchar_facts(1) [of c] q(3) [OF that] by (simp add: is_field_vchar_def)
  then have "trimmed p" using assms by (auto simp: trimmed_def plain_path_def)
  then show "plain_target p" using q(4) assms by (auto simp: plain_target_def plain_path_def list_all_iff)
  show "is_field_value p" using q(3) by (auto simp: is_field_value_def field_content_iff list_all_iff is_field_vchar_def)
  have "list_all (\<lambda>c. c \<notin> set ''?'') p" using q(2) by (auto simp: list_all_iff)
  then show "until ''?'' p = (p, [])" using until_stop [of "''?''" p "[]"] by simp
  have "dropWhile (\<lambda>c. c \<noteq> CHR ''?'') p = []" "takeWhile (\<lambda>c. c \<noteq> CHR ''?'') p = p"
    using q(2) by (simp_all add: takeWhile_eq_all_conv dropWhile_eq_Nil_conv)
  then show "divide CHR ''?'' p = (p, [])" unfolding divide_def by (simp only: list.sel)
  have "list_all (\<lambda>c. c \<noteq> CHR ''%'') p" using q(2) by (auto simp: list_all_iff)
  then show "decode_path_component p = p" by (induction p) auto
  have t: "takeWhile (\<lambda>c. c \<noteq> CHR 0x00) p = p" using q(4) by (auto simp: takeWhile_eq_all_conv)
  have "map (\<lambda>c. if c = CHR '' '' then ''%20'' else if c = CHR ''+'' then ''%2B''
     else if c = CR then ''%0D'' else if c = LF then ''%0A'' else if c = CHR 0x27 then ''%27'' else if c = CHR '','' then ''%2C''
     else if c = CHR '';'' then ''%3B'' else if 128 \<le> byte c then escape c else [c]) p = map (\<lambda>c. [c]) p"
    using q(4-6) by (intro map_cong refl) auto
  from this show "encode_path p = p" unfolding encode_path_def t by (simp only: concat_map_singleton list.map_ident)
qed

definition form_call :: "string \<Rightarrow> string \<Rightarrow> client_request" where
  "form_call path body = content_request ''POST'' path [] (Whole_Body body) urlencoded None"

definition form_call_fields :: "string \<Rightarrow> string \<Rightarrow> headers" where
  "form_call_fields host_field body = [(''Content-Type'', urlencoded), (''Host'', host_field), (''Accept'', ''*/*''),
     (''Accept-Encoding'', []), (''User-Agent'', ''cpp-httplib/0.51.0''), (''Content-Length'', show_nat (length body))]"

lemma urlencoded_valid: "is_field_valid ''Content-Type'' urlencoded" "is_field_name ''Content-Length''"
  unfolding urlencoded_def by code_simp+

lemma urlencoded_nonempty: "urlencoded \<noteq> []"
  by (simp add: urlencoded_def)

lemma form_call_sel:
  "rq_method (cq_request (form_call path body)) = ''POST''" "rq_path (cq_request (form_call path body)) = path"
  "rq_headers (cq_request (form_call path body)) = [(''Content-Type'', urlencoded)]"
  "rq_body (cq_request (form_call path body)) = body" "rq_params (cq_request (form_call path body)) = []"
  "cq_content_receiver (form_call path body) = None" "cq_content_provider (form_call path body) = None"
  "cq_response_handler (form_call path body) = None"
  using urlencoded_valid(1) urlencoded_nonempty
  by (simp_all add: form_call_def content_request_def new_client_request_def new_request_def set_header_def emplace_def Let_def)

lemma form_names_differ:
  "list_all (\<lambda>(a, b). \<not> case_equal a b)
     [(''Host'', ''Content-Type''), (''Accept'', ''Content-Type''), (''Accept'', ''Host''),
      (''Accept-Encoding'', ''Content-Type''), (''Accept-Encoding'', ''Host''), (''Accept-Encoding'', ''Accept''),
      (''User-Agent'', ''Content-Type''), (''User-Agent'', ''Host''), (''User-Agent'', ''Accept''),
      (''User-Agent'', ''Accept-Encoding''), (''Content-Length'', ''Content-Type''), (''Content-Length'', ''Host''),
      (''Content-Length'', ''Accept''), (''Content-Length'', ''Accept-Encoding''), (''Content-Length'', ''User-Agent'')]"
  by (simp add: case_equal_def)

lemma has_header_other: "\<not> case_equal key k \<Longrightarrow> has_header ((k, v) # h) key = has_header h key" "\<not> has_header [] key"
  by (simp_all add: has_header_def equal_range_def)

lemma form_fields_written:
  assumes "body \<noteq> []"
  shows "request_fields ap (scrape_client host pt) False (form_call path body)
    = form_call_fields (make_host_and_port_string host pt False) body"
proof -
  have ct: "has_header [(''Content-Type'', urlencoded)] ''Content-Type''"
    by (simp add: known_header known_names_def equal_range_Cons page_names_differ)
  show ?thesis
    using scrape_fields_valid assms ct form_names_differ
    by (simp add: request_fields_def prepare_default_headers_def length_headers_def auth_headers_def scrape_client_sel
        form_call_sel add_absent_def set_absent_def set_header_def emplace_def has_header_other form_call_fields_def)
qed

lemma form_fields_valid:
  assumes "is_field_value host_field"
  shows "list_all (\<lambda>kv. is_field_valid (fst kv) (snd kv)) (form_call_fields host_field body)"
  using scrape_fields_valid urlencoded_valid assms show_nat_valid
  by (simp add: form_call_fields_def is_field_valid_def is_field_value_def)

lemma form_head:
  assumes "is_field_value (make_host_and_port_string host pt False)" "plain_path path" "body \<noteq> []"
  shows "\<exists>cq1. request_head ap (scrape_client host pt) False (form_call path body)
      = Inr (request_text ''POST'' path (form_call_fields (make_host_and_port_string host pt False) body), cq1)
    \<and> cq_response_handler cq1 = None \<and> cq_content_receiver cq1 = None \<and> rq_method (cq_request cq1) = ''POST''
    \<and> rq_body (cq_request cq1) = body"
proof -
  let ?h = "form_call_fields (make_host_and_port_string host pt False) body"
  note v = form_fields_valid [OF assms(1), of body]
  then have "filter (\<lambda>x. is_field_valid (fst x) (snd x)) ?h = ?h" by (auto simp: list_all_iff intro: filter_True)
  then have w: "write_headers ?h = concat (map header_line ?h) @ CRLF" by (simp add: write_headers_def)
  have "parse_query_text [] [] = []" by (simp add: parse_query_text_def split_def split_max_def npos_def trim_copy_def)
  then have "request_target (scrape_client host pt) (cq_request (form_call path body)) = (path, [])"
    using plain_path_facts [OF assms(2)] by (simp add: request_target_def scrape_client_sel form_call_sel)
  then show ?thesis
    using v w plain_path_facts(3) [OF assms(2)]
    by (simp add: request_head_def form_fields_written [OF assms(3)] form_call_sel request_text_def request_line_def Let_def)
qed

lemma form_call_answered:
  assumes "is_field_value (make_host_and_port_string host pt False)" "plain_path path" "body \<noteq> []"
    "length body < EXPECT_100_THRESHOLD" "length page \<le> PAYLOAD_MAX_LENGTH"
  shows "\<exists>res nw. client_send ap avail early (scrape_client host pt) (form_call path body) (fresh_network (page_text fin page))
      = Inr (E_Success, Some res, nw) \<and> rs_status (cp_response res) = 200 \<and> rs_body (cp_response res) = page
    \<and> nw_written nw = [(host, pt, request_text ''POST'' path
        (form_call_fields (make_host_and_port_string host pt False) body) @ body)]"
proof -
  let ?cl = "scrape_client host pt" and ?cq = "form_call path body"
  let ?text = "request_text ''POST'' path (form_call_fields (make_host_and_port_string host pt False) body)"
  let ?n0 = "\<lparr>nw_open = Some [(page_text fin page, [])], nw_alive = [], nw_connects = [], nw_written = []\<rparr>"
  obtain cq1 where h: "request_head ap ?cl False ?cq = Inr (?text, cq1)" "cq_response_handler cq1 = None"
      "cq_content_receiver cq1 = None" "rq_method (cq_request cq1) = ''POST''" "rq_body (cq_request cq1) = body"
    using form_head [OF assms(1-3)] by blast
  have w: "write_request ap ?cl False False ?cq c = Inr (E_Success, cq1, c\<lparr>conn_out := conn_out c @ ?text @ body\<rparr>)"
    if "conn_writes c = []" for c
    using that h assms(3) by (simp add: write_request_def write_data_all write_request_body_def)
  have "equal_range [(''Content-Type'', urlencoded)] ''Expect'' = []" by (simp add: equal_range_def case_equal_def)
  then have e: "with_expect ?cq = ?cq" "rq_header (cq_request ?cq) ''Expect'' = []"
    using assms(3,4) by (simp_all add: with_expect_def form_call_sel rq_header_def known_header known_names_def Let_def)
  have m: "''POST'' \<notin> {''HEAD'', ''CONNECT''}" by simp
  obtain res s res1 where r: "read_response_head ''POST'' True new_client_response (page_text fin page) = Some (res, s)"
      "read_response_body avail ?cl cq1 res s = (E_Success, res1)" "rs_status (cp_response res1) = 200"
      "rs_body (cp_response res1) = page"
    using client_reads_page [OF assms(5) h(3,2,4) m scrape_client_sel(11,10)] by blast
  have x: "client_exchange ap avail early ?cl ?cq ?n0 = Inr (E_Success, res1,
      \<lparr>nw_open = Some [], nw_alive = [], nw_connects = [], nw_written = [(host, pt, ?text @ body)]\<rparr>)"
    by (simp add: client_exchange_def client_process_request_def Let_def scrape_client_sel e w r form_call_sel)
  have c: "ensure_connection (fresh_network (page_text fin page)) = (True, ?n0)"
    by (simp add: ensure_connection_def check_alive_def fresh_network_def)
  have d: "default_fields ?cl ?cq = ?cq" by (simp add: default_fields_def scrape_client_sel on_headers_def)
  have p: "path \<noteq> []" using assms(2) by (simp add: plain_path_def)
  show ?thesis
    unfolding client_send.simps [of ap avail early ?cl ?cq] c
    using r(3,4) p by (simp add: d form_call_sel x is_redirect_def scrape_client_sel leave_send_def disconnect_def)
qed

subsection \<open>What the server does with it\<close>

lemma form_lookups:
  "equal_range (form_call_fields hf body) ''Content-Type'' = [urlencoded]"
  "equal_range (form_call_fields hf body) ''Content-Length'' = [show_nat (length body)]"
  "equal_range (form_call_fields hf body) ''Accept'' = [''*/*'']"
  "equal_range (form_call_fields hf body) ''Transfer-Encoding'' = []" "equal_range (form_call_fields hf body) ''Range'' = []"
  "equal_range (form_call_fields hf body) ''Expect'' = []" "equal_range (form_call_fields hf body) ''Connection'' = []"
  "equal_range (form_call_fields hf body) ''Content-Encoding'' = []"
  by (simp_all add: form_call_fields_def equal_range_def case_equal_def to_lower_def lower_byte_def byte_def)

lemma form_fields_plain:
  assumes "is_field_value hf" "length hf < 8000" "length body \<le> MAX_STRING"
  shows "plain_headers (form_call_fields hf body)"
  using form_fields_valid [OF assms(1), of body] assms(2) show_size_length [OF assms(3)]
  by (simp add: plain_headers_def one_content_length_def form_lookups)
    (simp add: form_call_fields_def short_field_def HEADER_MAX_COUNT_def urlencoded_def)

lemma form_length_read:
  assumes "length body \<le> MAX_STRING"
  shows "get_header_value_u64 (form_call_fields hf body) ''Content-Length'' d 0 = (length body, False)"
proof -
  have "is_numeric (show_nat (length body))"
    using show_nat_digits [of "length body"] show_nat_nonempty [of "length body"]
    by (simp add: is_numeric_def list_all_iff ascii_digit_isdigit)
  moreover have "read_digits 0 (show_nat (length body)) = length body" using read_show_nat by simp
  moreover have "length body \<le> npos" using assms by (simp add: MAX_STRING_def npos_def)
  ultimately show ?thesis
    using header_number [of 0 "form_call_fields hf body" "''Content-Length''" d] by (simp add: form_lookups Let_def)
qed

lemma urlencoded_type: "fst (extract_media_type urlencoded) = ''application/x-www-form-urlencoded''" "c_str urlencoded = urlencoded"
proof -
  have "trim_copy ''application/x-www-form-urlencoded'' = ''application/x-www-form-urlencoded''" by code_simp
  then show "fst (extract_media_type urlencoded) = ''application/x-www-form-urlencoded''"
    by (simp add: extract_media_type_def divide_def urlencoded_def)
  show "c_str urlencoded = urlencoded" unfolding urlencoded_def by code_simp
qed

lemma form_headers_text:
  "header_text (form_call_fields hf body) ''Content-Type'' = urlencoded" "header_text (form_call_fields hf body) ''Content-Encoding'' = []"
  "has_header (form_call_fields hf body) ''Content-Length''" "\<not> is_chunked_transfer_encoding (form_call_fields hf body)"
  "\<not> has_header (form_call_fields hf body) ''Transfer-Encoding''" "\<not> has_header (form_call_fields hf body) ''Range''"
  "header_text (form_call_fields hf body) ''Expect'' = []" "header_text (form_call_fields hf body) ''Connection'' = []"
  "has_header (form_call_fields hf body) ''Accept''" "header_text (form_call_fields hf body) ''Accept'' = ''*/*''"
  by (simp_all add: known_header known_names_def form_lookups urlencoded_type is_chunked_transfer_encoding_def)
    (simp add: c_str_def)

lemma form_body_read:
  assumes "rq_headers req = form_call_fields hf body" "rq_body req = []" "rq_params req = []"
    "length body \<le> FORM_URL_ENCODED_MAX"
  shows "server_read_content avail has_data PAYLOAD_MAX_LENGTH req (body @ rest)
    = (True, None, req\<lparr>rq_body_consumed := True, rq_body := body, rq_params := parse_query_text body []\<rparr>, rest)"
proof -
  have l: "length body \<le> PAYLOAD_MAX_LENGTH" "length body \<le> MAX_STRING" "PAYLOAD_MAX_LENGTH < MAX_STRING"
    using assms(4) by (simp_all add: FORM_URL_ENCODED_MAX_def PAYLOAD_MAX_LENGTH_def MAX_STRING_def)
  let ?st = "\<lambda>b. \<lparr>bd_body = b, bd_form = rq_form req, bd_count = 0, bd_current = [], bd_is_text = False\<rparr>"
  let ?out = "\<lambda>d (offset :: nat) (chunk_len :: nat) (a, p :: form_parser).
     case body_piece PAYLOAD_MAX_LENGTH d a of (r, a1) \<Rightarrow> (r, (a1, p))"
  have t: "\<not> is_multipart_form_data req"
    by (simp add: is_multipart_form_data_def rq_header_def assms(1) form_headers_text urlencoded_type)
  have g: "?out d r len (?st b, new_form_parser []) = (True, ?st (b @ d), new_form_parser [])"
    if "d \<noteq> []" "length b + length d \<le> PAYLOAD_MAX_LENGTH" for d r len b
    using append_body_fits [OF that l(3)] by (simp add: body_piece_def)
  have "read_content avail req PAYLOAD_MAX_LENGTH ?out True (?st [], new_form_parser []) (body @ rest)
      = (True, None, (?st (take (length body) (body @ rest)), new_form_parser []), req, drop (length body) (body @ rest))"
    by (rule read_content_collects [where g = "\<lambda>b. (?st b, new_form_parser [])" and out = ?out and payload_max = PAYLOAD_MAX_LENGTH
        and len = "length body"], rule g) (simp_all add: assms(1) rq_header_def rq_has_header_def form_headers_text form_length_read l)
  then have "read_content_core avail has_data PAYLOAD_MAX_LENGTH req (body_piece PAYLOAD_MAX_LENGTH) form_entry form_piece (?st []) (body @ rest)
      = (True, None, ?st body, req\<lparr>rq_body_consumed := True\<rparr>, rest)"
    using t by (simp add: read_content_core_def assms(1) rq_has_header_def form_headers_text)
  then show ?thesis
    using assms by (simp add: server_read_content_def rq_header_def form_headers_text urlencoded_type)
qed

lemma form_request_answered:
  assumes "plain_path path" "is_field_value hf" "length hf < 8000" "body \<noteq> []" "length body \<le> FORM_URL_ENCODED_MAX"
  shows "process_request ev (form_server path f) pa fin
      \<lparr>conn_in = request_text ''POST'' path (form_call_fields hf body) @ body @ rest, conn_out = [], conn_writes = []\<rparr>
    = Inr \<lparr>pr_ret = True, pr_closed = False, pr_upgraded = False,
        pr_conn = \<lparr>conn_in = rest, conn_out = page_text fin (f (parse_query_text body [])), conn_writes = []\<rparr>\<rparr>"
proof -
  let ?sv = "form_server path f" and ?h = "form_call_fields hf body" and ?page = "f (parse_query_text body [])"
  have l: "length body \<le> MAX_STRING" using assms(5) by (simp add: FORM_URL_ENCODED_MAX_def MAX_STRING_def)
  have k: "''POST'' \<in> set known_methods" by (simp add: known_methods_def)
  obtain types where a: "parse_accept_header ''*/*'' = Some types" using accept_any by blast
  define req where "req = (parsed_request pa ''POST'' path ?h)\<lparr>rq_remote_addr :=
      client_address ?sv (pa_remote_addr pa) (parsed_request pa ''POST'' path ?h), rq_accept_content_types := types\<rparr>"
  define req1 where "req1 = req\<lparr>rq_path_params := [], rq_matched_route := path\<rparr>"
  define req2 where "req2 = req1\<lparr>rq_body_consumed := True, rq_body := body, rq_params := parse_query_text body []\<rparr>"
  have rq: "rq_method req = ''POST''" "rq_headers req = ?h" "rq_ranges req = []" "rq_path req = path" "rq_body req = []"
    "rq_params req = parse_query_text [] []" "rq_version req = ''HTTP/1.1''"
    using plain_path_facts(4,5) [OF assms(1)]
    by (simp_all add: req_def parsed_request_def with_addresses_def new_request_def)
  have pe: "parse_query_text [] [] = []" by (simp add: parse_query_text_def split_def split_max_def npos_def trim_copy_def)
  have rr: "req\<lparr>rq_ranges := []\<rparr> = req" by (simp add: req_def parsed_request_def with_addresses_def new_request_def)
  have cl: "\<not> closes_connection (parsed_request pa ''POST'' path ?h)"
    by (simp add: closes_connection_def rq_header_def form_headers_text)
  have start: "process_request ev ?sv pa fin
      \<lparr>conn_in = request_text ''POST'' path ?h @ body @ rest, conn_out = [], conn_writes = []\<rparr>
    = route_and_answer ev ?sv fin False req (new_response\<lparr>rs_version := ''HTTP/1.1'', rs_headers := []\<rparr>)
        \<lparr>conn_in = body @ rest, conn_out = [], conn_writes = []\<rparr>"
    unfolding process_text [OF k plain_path_facts(2) [OF assms(1)] form_fields_plain [OF assms(2,3) l]] Let_def
    using a cl
    by (simp add: rq(1-3) rq_has_header_def rq_header_def form_headers_text form_server_sel check_fields_def expect_continue_def
        upgrade_or_route_def is_websocket_upgrade_def req_def [symmetric]) (simp only: rr)
  have body: "server_read_content (ev_avail ev) (ev_has_data ev) PAYLOAD_MAX_LENGTH req1 (body @ rest) = (True, None, req2, rest)"
    unfolding req2_def by (rule form_body_read) (simp_all add: req1_def rq pe assms(5))
  have route: "routing ev ?sv req (new_response\<lparr>rs_version := ''HTTP/1.1'', rs_headers := []\<rparr>) (body @ rest)
      = (Routed, req2, page_response ''text/plain'' ?page, rest)"
    using body plain_path_facts(1) [OF assms(1)]
    by (simp add: routing_def run_hook_def form_server_sel rq expect_content_def handlers_for_def literal_match run_matched_def
        set_status_def form_handler_def page_response_def req2_def req1_def)
  have r2: "rq_ranges req2 = []" "rq_header req2 ''Connection'' \<noteq> ''close''" "rq_method req2 \<noteq> ''HEAD''" "rq_body_consumed req2"
    by (simp_all add: req2_def req1_def rq rq_header_def form_headers_text)
  show ?thesis
    unfolding start route_and_answer_def
    by (simp add: route form_server_sends send_page [OF text_plain(1) r2(1-3)] drain_body_def r2(4) page_text_def)
qed

subsection \<open>A call\<close>



end
