(* ===== verification/Http_Ws_Client.thy ===== *)
theory Http_Ws_Client
  imports Http_Answers Http_Url Http_Ws_Session
begin

text \<open>
  The WebSocket client of \<open>include/httplib.h\<close> (\<open>WebSocketClient\<close>): its address, the handshake, and
  what it does on the socket it gets.  The bytes of the key are those the random engine gives; a
  connection is what it delivers and what its writes return.  The host names mapped to fixed
  addresses only matter to the name lookup, which is not modelled.
\<close>

subsection \<open>The handshake\<close>

text \<open>The negotiated subprotocol and the rest of the stream; \<open>None\<close> is \<open>return false\<close>.\<close>

definition read_websocket_upgrade_response :: "string \<Rightarrow> string \<Rightarrow> (string \<times> string) option" where
  "read_websocket_upgrade_response expected_accept s =
     (case getline s of
        None \<Rightarrow> None
      | Some (line, s1) \<Rightarrow>
          if \<not> has_infix ''HTTP/1.1 101'' line then None
          else (case read_headers s1 of
              None \<Rightarrow> None
            | Some (h, s2) \<Rightarrow>
                (case equal_range h ''Upgrade'' of
                   [] \<Rightarrow> None
                 | upgrade # _ \<Rightarrow>
                     if to_lower_str upgrade \<noteq> ''websocket'' then None
                     else (case equal_range h ''Connection'' of
                         [] \<Rightarrow> None
                       | conn # _ \<Rightarrow>
                           if \<not> has_infix ''upgrade'' (to_lower_str conn) then None
                           else if equal_range h ''Sec-WebSocket-Accept'' = []
                             \<or> hd (equal_range h ''Sec-WebSocket-Accept'') \<noteq> expected_accept then None
                           else Some (case equal_range h ''Sec-WebSocket-Protocol'' of
                               [] \<Rightarrow> [] | protocol # _ \<Rightarrow> protocol, s2)))))"

definition handshake_request :: "string \<Rightarrow> int \<Rightarrow> string \<Rightarrow> headers \<Rightarrow> string \<Rightarrow> string" where
  "handshake_request host port path h client_key =
     ''GET '' @ path @ '' HTTP/1.1'' @ CRLF
     @ ''Host: '' @ make_host_and_port_string host port False @ CRLF
     @ ''Upgrade: websocket'' @ CRLF @ ''Connection: Upgrade'' @ CRLF
     @ ''Sec-WebSocket-Key: '' @ client_key @ CRLF @ ''Sec-WebSocket-Version: 13'' @ CRLF
     @ concat (map header_line h) @ CRLF"

text \<open>Only an error of the write is noticed; a write that takes part of the request counts as done.\<close>

definition perform_websocket_handshake :: "string \<Rightarrow> int \<Rightarrow> string \<Rightarrow> headers \<Rightarrow> string \<Rightarrow> conn \<Rightarrow> string option \<times> conn" where
  "perform_websocket_handshake host port path h key_bytes c =
     (if \<not> is_field_value path \<or> \<not> is_field_value host then (None, c)
      else if \<not> list_all (\<lambda>x. is_field_valid (fst x) (snd x)) h then (None, c)
      else
        (let client_key = base64_encode key_bytes in
         case conn_write (handshake_request host port path h client_key) c of
           (None, c1) \<Rightarrow> (None, c1)
         | (Some n, c1) \<Rightarrow>
             (case read_websocket_upgrade_response (websocket_accept_key client_key) (conn_in c1) of
                None \<Rightarrow> (None, c1)
              | Some (protocol, s) \<Rightarrow> (Some protocol, c1\<lparr>conn_in := s\<rparr>))))"

subsection \<open>The client\<close>

text \<open>The connections that are over are kept to see what was written on them.\<close>

record ws_client =
  wc_host :: string
  wc_port :: int
  wc_path :: string
  wc_headers :: headers
  wc_subprotocol :: string
  wc_is_valid :: bool
  wc_ws :: "websocket option"
  wc_ended :: "conn list"

text \<open>An address the client cannot use leaves a client that is not valid, another scheme is an
  exception.\<close>

definition new_websocket_client :: "string \<Rightarrow> headers \<Rightarrow> ws_client res" where
  "new_websocket_client url h =
     (let none = \<lparr>wc_host = [], wc_port = 0, wc_path = [], wc_headers = h, wc_subprotocol = [],
            wc_is_valid = False, wc_ws = None, wc_ended = []\<rparr>
      in case parse_url url of
           None \<Rightarrow> Inr none
         | Some uc \<Rightarrow>
             if uc_scheme uc = [] \<or> uc_host uc = [] \<or> uc_path uc = [] then Inr none
             else if uc_scheme uc \<noteq> ''ws'' then Inl Invalid_Argument
             else
               (let cl = none\<lparr>wc_host := uc_host uc, wc_port := 80\<rparr> in
                case (if uc_port uc = [] then Some 80 else parse_port (uc_port uc)) of
                  None \<Rightarrow> Inr cl
                | Some port \<Rightarrow> Inr (cl\<lparr>wc_port := port, wc_path := uc_path uc @ uc_query uc, wc_is_valid := True\<rparr>)))"

definition new_websocket :: "bool \<Rightarrow> (nat \<Rightarrow> string) \<Rightarrow> conn \<Rightarrow> websocket" where
  "new_websocket is_server random c = \<lparr>ws_conn = c, ws_is_server = is_server, ws_closed = False,
     ws_unacked_pings = 0, ws_random = random, ws_drawn = 0\<rparr>"

definition Close_Normal :: nat where "Close_Normal = 1000"

definition shutdown_and_close :: "(nat \<Rightarrow> nat) \<Rightarrow> ws_client \<Rightarrow> ws_client" where
  "shutdown_and_close avail cl =
     (case wc_ws cl of
        None \<Rightarrow> cl
      | Some w \<Rightarrow>
          cl\<lparr>wc_ws := None, wc_ended := wc_ended cl
            @ [ws_conn (if ws_closed w then w else ws_close avail Close_Normal [] w)]\<rparr>)"

text \<open>\<open>connect\<close>: the new connection, \<open>None\<close> when there is none.\<close>

definition ws_connect :: "(nat \<Rightarrow> nat) \<Rightarrow> string \<Rightarrow> (nat \<Rightarrow> string) \<Rightarrow> conn option \<Rightarrow> ws_client \<Rightarrow> bool \<times> ws_client" where
  "ws_connect avail key_bytes random socket cl =
     (if \<not> wc_is_valid cl then (False, cl)
      else
        (let cl1 = shutdown_and_close avail cl in
         case socket of
           None \<Rightarrow> (False, cl1)
         | Some c \<Rightarrow>
             (case perform_websocket_handshake (wc_host cl1) (wc_port cl1) (wc_path cl1) (wc_headers cl1) key_bytes c of
                (None, c1) \<Rightarrow> (False, cl1\<lparr>wc_ended := wc_ended cl1 @ [c1]\<rparr>)
              | (Some protocol, c1) \<Rightarrow>
                  (True, cl1\<lparr>wc_subprotocol := protocol, wc_ws := Some (new_websocket False random c1)\<rparr>))))"

definition on_socket :: "'a \<Rightarrow> (websocket \<Rightarrow> 'a \<times> websocket) \<Rightarrow> ws_client \<Rightarrow> 'a \<times> ws_client" where
  "on_socket failed f cl =
     (case wc_ws cl of
        None \<Rightarrow> (failed, cl)
      | Some w \<Rightarrow> (case f w of (r, w1) \<Rightarrow> (r, cl\<lparr>wc_ws := Some w1\<rparr>)))"

definition wc_read :: "(nat \<Rightarrow> nat) \<Rightarrow> string \<Rightarrow> ws_client \<Rightarrow> (read_result \<times> string) \<times> ws_client" where
  "wc_read avail msg = on_socket (Read_Fail, msg) (\<lambda>w. case ws_read avail msg w of (r, m, w1) \<Rightarrow> ((r, m), w1))"

definition wc_send_text :: "string \<Rightarrow> ws_client \<Rightarrow> bool \<times> ws_client" where
  "wc_send_text d = on_socket False (ws_send_text d)"

definition wc_send_binary :: "string \<Rightarrow> ws_client \<Rightarrow> bool \<times> ws_client" where
  "wc_send_binary d = on_socket False (ws_send_binary d)"

definition wc_close :: "(nat \<Rightarrow> nat) \<Rightarrow> nat \<Rightarrow> string \<Rightarrow> ws_client \<Rightarrow> ws_client" where
  "wc_close avail status reason cl = snd (on_socket () (\<lambda>w. ((), ws_close avail status reason w)) cl)"

definition wc_is_open :: "ws_client \<Rightarrow> bool" where
  "wc_is_open cl \<longleftrightarrow> (case wc_ws cl of None \<Rightarrow> False | Some w \<Rightarrow> \<not> ws_closed w)"

subsection \<open>Keys\<close>

lemma b64_digit_in: "b64_digit v \<in> set b64chars"
proof -
  have "unat (v AND 0x3F) < length b64chars"
  proof -
    have "v AND 0x3F \<le> 0x3F" by (rule word_and_le1)
    then have "unat (v AND 0x3F) \<le> unat (0x3F :: 32 word)" by (simp only: word_le_nat_alt)
    then show ?thesis by (simp add: b64chars_def)
  qed
  then show ?thesis by (simp add: b64_digit_def)
qed

lemma b64_emit_shape:
  "b64_emit val n out = (k, o1) \<Longrightarrow> k = n mod 6 \<and> length o1 = length out + n div 6 \<and> set o1 \<subseteq> set out \<union> set b64chars"
proof (induction val n out arbitrary: k o1 rule: b64_emit.induct)
  case (1 val n out)
  show ?case
  proof (cases "6 \<le> n")
    case True
    then have "b64_emit val (n - 6) (out @ [b64_digit (drop_bit (n - 6) val)]) = (k, o1)"
      using "1.prems" by (subst (asm) b64_emit.simps) simp
    from "1.IH" [OF True this] show ?thesis
      using True b64_digit_in by (auto simp: le_mod_geq le_div_geq)
  next
    case False
    then show ?thesis using "1.prems" by (subst (asm) b64_emit.simps) auto
  qed
qed

lemma b64_loop_shape:
  "b64_loop s val n out = (v, k, o1) \<Longrightarrow> n < 6 \<Longrightarrow>
     k = (8 * length s + n) mod 6 \<and> length o1 = length out + (8 * length s + n) div 6 \<and> set o1 \<subseteq> set out \<union> set b64chars"
proof (induction s arbitrary: val n out)
  case (Cons c s)
  obtain n1 out1 where e: "b64_emit (push_bit 8 val + byte32 c) (n + 8) out = (n1, out1)" by fastforce
  note sh = b64_emit_shape [OF e]
  have "b64_loop s (push_bit 8 val + byte32 c) n1 out1 = (v, k, o1)" using Cons.prems(1) e by (simp add: Let_def)
  then have i: "k = (8 * length s + n1) mod 6" "length o1 = length out1 + (8 * length s + n1) div 6"
    "set o1 \<subseteq> set out1 \<union> set b64chars" using Cons.IH sh by auto
  have "8 * length (c # s) + n = (n + 8) div 6 * 6 + (8 * length s + n1)" using sh by simp
  then have "(8 * length (c # s) + n) mod 6 = (8 * length s + n1) mod 6"
    "(8 * length (c # s) + n) div 6 = (n + 8) div 6 + (8 * length s + n1) div 6" by (simp_all only: mod_mult_self3 div_mult_self3)
  then show ?case using i sh by auto
qed simp

text \<open>The encoding: as many digits as are needed, and the padding.\<close>

lemma base64_shape:
  "\<exists>ds. base64_encode s = pad4 ds \<and> length ds = (8 * length s + 5) div 6 \<and> set ds \<subseteq> set b64chars"
proof -
  obtain v k o1 where b: "b64_loop s 0 0 [] = (v, k, o1)" by (metis prod_cases3)
  have sh: "k = 8 * length s mod 6" "length o1 = 8 * length s div 6" "set o1 \<subseteq> set b64chars"
    using b64_loop_shape [OF b] by simp_all
  let ?d = "if 0 < k then o1 @ [b64_digit (drop_bit (k + 2) (push_bit 8 v))] else o1"
  have "(8 * length s + 5) div 6 = 8 * length s div 6 + (if 0 < k then 1 else 0)"
    unfolding sh(1) by presburger
  then show ?thesis using sh b64_digit_in
    by (intro exI [of _ ?d]) (auto simp: base64_encode_def b)
qed

lemma b64_chars_plain:
  "list_all (\<lambda>c. is_field_vchar c \<and> c \<noteq> CHR 0x00 \<and> c \<noteq> CR \<and> c \<noteq> LF) (CHR ''='' # b64chars)"
  by code_simp

lemma base64_plain:
  assumes "c \<in> set (base64_encode s)"
  shows "is_field_vchar c" "c \<noteq> CHR 0x00"
proof -
  obtain ds where "base64_encode s = pad4 ds" "set ds \<subseteq> set b64chars" using base64_shape by blast
  then have "c \<in> set (CHR ''='' # b64chars)" using assms by (auto simp: pad4_def)
  then show "is_field_vchar c" "c \<noteq> CHR 0x00" using b64_chars_plain unfolding list_all_iff by blast+
qed

lemma base64_value: "is_field_value (base64_encode s)" "c_str (base64_encode s) = base64_encode s"
  using base64_plain [of _ s] by (auto simp: is_field_value_def field_content_iff list_all_iff c_str_def takeWhile_eq_all_conv)

lemma base64_length: "length (base64_encode s) \<le> 2 * length s + 8"
proof -
  obtain ds where "base64_encode s = pad4 ds" "length ds = (8 * length s + 5) div 6" using base64_shape by blast
  then show ?thesis by (simp add: pad4_def)
qed

text \<open>Sixteen bytes become the 24 characters that the server asks for.\<close>

lemma client_key_shape:
  assumes "length key_bytes = 16"
  shows "length (base64_encode key_bytes) = 24" "base64_encode key_bytes ! 22 = CHR ''=''"
    "base64_encode key_bytes ! 23 = CHR ''=''" "list_all (\<lambda>c. c \<in> set b64chars) (take 22 (base64_encode key_bytes))"
proof -
  obtain ds where d: "base64_encode key_bytes = pad4 ds" "length ds = (8 * length key_bytes + 5) div 6" "set ds \<subseteq> set b64chars"
    using base64_shape by blast
  have "length ds = 22" using d(2) assms by simp
  then have "base64_encode key_bytes = ds @ ''=='' \<and> length ds = 22" by (simp add: d(1) pad4_def numeral_2_eq_2)
  then show "length (base64_encode key_bytes) = 24" "base64_encode key_bytes ! 22 = CHR ''=''"
    "base64_encode key_bytes ! 23 = CHR ''=''" "list_all (\<lambda>c. c \<in> set b64chars) (take 22 (base64_encode key_bytes))"
    using d(3) by (auto simp: nth_append list_all_iff)
qed

lemma accept_key_length: "length (websocket_accept_key k) \<le> 48"
proof -
  have "length (sha1 s) = 20" for s by (simp add: sha1_def word_bytes_def split: prod.split)
  then show ?thesis using base64_length [of "sha1 (k @ ''258EAFA5-E914-47DA-95CA-C5AB0DC85B11'')"]
    by (simp add: websocket_accept_key_def)
qed

subsection \<open>The two ends agree\<close>

definition upgrade_fields :: "string \<Rightarrow> string \<Rightarrow> headers \<Rightarrow> headers" where
  "upgrade_fields host_field client_key h =
     [(''Host'', host_field), (''Upgrade'', ''websocket''), (''Connection'', ''Upgrade''),
      (''Sec-WebSocket-Key'', client_key), (''Sec-WebSocket-Version'', ''13'')] @ h"

definition accept_fields :: "string \<Rightarrow> string \<Rightarrow> headers" where
  "accept_fields accept_key protocol =
     [(''Upgrade'', ''websocket''), (''Connection'', ''Upgrade''), (''Sec-WebSocket-Accept'', accept_key)]
     @ (if protocol = [] then [] else [(''Sec-WebSocket-Protocol'', protocol)])"

text \<open>Fields of the user that leave the handshake alone.\<close>

definition extra_fields :: "headers \<Rightarrow> bool" where
  "extra_fields h \<longleftrightarrow> list_all (\<lambda>x. is_field_valid (fst x) (snd x)) h \<and> list_all short_field h \<and> length h \<le> 95
     \<and> list_all (\<lambda>n. equal_range h n = []) [''Upgrade'', ''Connection'', ''Sec-WebSocket-Key'', ''Sec-WebSocket-Version'',
          ''Accept'', ''Range'', ''Expect'', ''Content-Length'', ''Transfer-Encoding'']"

lemma handshake_request_text:
  "handshake_request host pt path h key = request_text ''GET'' path (upgrade_fields (make_host_and_port_string host pt False) key h)"
  by (simp add: handshake_request_def request_text_def request_line_def upgrade_fields_def header_line_def)

lemma handshake_response_text:
  "handshake_response a p = ''HTTP/1.1 101 Switching Protocols'' @ CRLF @ concat (map header_line (accept_fields a p)) @ CRLF"
  by (simp add: handshake_response_def accept_fields_def header_line_def)

lemma field_constants:
  "is_field_name ''Host''" "is_field_valid ''Upgrade'' ''websocket''" "is_field_valid ''Connection'' ''Upgrade''"
  "is_field_name ''Sec-WebSocket-Key''" "is_field_valid ''Sec-WebSocket-Version'' ''13''"
  "is_field_name ''Sec-WebSocket-Accept''" "is_field_name ''Sec-WebSocket-Protocol''"
  by code_simp+

lemma equal_range_append: "equal_range (a @ b) k = equal_range a k @ equal_range b k"
  by (simp add: equal_range_def)

lemma upgrade_fields_plain:
  assumes "is_field_value f" "length f < 8000" "is_field_value key" "length key < 8000" "extra_fields h"
  shows "plain_headers (upgrade_fields f key h)"
  using assms field_constants
  by (simp add: plain_headers_def upgrade_fields_def extra_fields_def is_field_valid_def short_field_def HEADER_MAX_COUNT_def
      one_content_length_def equal_range_def case_equal_def to_lower_def lower_byte_def byte_def)

lemma upgrade_lookups:
  assumes "extra_fields h"
  shows "equal_range (upgrade_fields f key h) ''Upgrade'' = [''websocket'']"
    "equal_range (upgrade_fields f key h) ''Connection'' = [''Upgrade'']"
    "equal_range (upgrade_fields f key h) ''Sec-WebSocket-Key'' = [key]"
    "equal_range (upgrade_fields f key h) ''Sec-WebSocket-Version'' = [''13'']"
    "equal_range (upgrade_fields f key h) ''Sec-WebSocket-Protocol'' = equal_range h ''Sec-WebSocket-Protocol''"
    "equal_range (upgrade_fields f key h) ''Accept'' = []" "equal_range (upgrade_fields f key h) ''Range'' = []"
    "equal_range (upgrade_fields f key h) ''Expect'' = []" "equal_range (upgrade_fields f key h) ''Content-Length'' = []"
    "equal_range (upgrade_fields f key h) ''Transfer-Encoding'' = []"
  using assms unfolding upgrade_fields_def equal_range_append
  by (simp_all add: extra_fields_def equal_range_def case_equal_def to_lower_def lower_byte_def byte_def)

lemma upgrade_words: "to_lower_str ''websocket'' = ''websocket''" "has_infix ''upgrade'' (to_lower_str ''Upgrade'')"
  "c_str ''13'' = ''13''"
  by code_simp+

lemma request_upgrades:
  assumes "extra_fields h" "length key_bytes = 16" "rq_method req = ''GET''"
    "rq_headers req = upgrade_fields f (base64_encode key_bytes) h"
  shows "is_websocket_upgrade req"
  using client_key_shape [OF assms(2)] assms(3,4) upgrade_words base64_value(2) [of key_bytes]
  by (simp add: is_websocket_upgrade_def rq_header_def known_header known_names_def upgrade_lookups [OF assms(1)] Let_def)

text \<open>The server answers the request of the client with the key the client expects.\<close>

lemma handshake_answered:
  assumes "plain_target path" "is_field_value f" "length f < 8000" "extra_fields h" "length key_bytes = 16"
    and "sv_pre_routing_handler sv = None" "sv_websocket_handlers sv = (Regex_Matcher p, selector) # es"
    and "list_all (\<lambda>c. c \<notin> set regex_specials) p" "decode_path_component (fst (divide CHR ''?'' path)) = p"
    and "protocol = negotiate_protocol (new_request\<lparr>rq_headers := h\<rparr>) selector" "is_field_value protocol"
  shows "process_request ev sv pa fin
      \<lparr>conn_in = request_text ''GET'' path (upgrade_fields f (base64_encode key_bytes) h) @ rest, conn_out = out, conn_writes = []\<rparr>
    = Inr \<lparr>pr_ret = True, pr_closed = True, pr_upgraded = True, pr_conn = \<lparr>conn_in = rest,
        conn_out = out @ handshake_response (websocket_accept_key (base64_encode key_bytes)) protocol, conn_writes = []\<rparr>\<rparr>"
proof -
  let ?k = "base64_encode key_bytes"
  let ?h = "upgrade_fields f ?k h"
  let ?req = "(parsed_request pa ''GET'' path ?h)\<lparr>rq_remote_addr := client_address sv (pa_remote_addr pa) (parsed_request pa ''GET'' path ?h)\<rparr>"
  note l = upgrade_lookups [OF assms(4)]
  have q: "header_text ?h ''Expect'' = []" "\<not> has_header ?h ''Accept''" "\<not> has_header ?h ''Range''"
    "\<not> has_header ?h ''Transfer-Encoding''" "header_text ?h ''Sec-WebSocket-Key'' = ?k"
    by (simp_all add: known_header known_names_def l base64_value)
  have pl: "plain_headers ?h"
    using upgrade_fields_plain [OF assms(2,3) base64_value(1) _ assms(4)] client_key_shape(1) [OF assms(5)] by simp
  have u: "is_websocket_upgrade ?req" using request_upgrades [OF assms(4,5)] by simp
  have n: "negotiate_protocol (?req\<lparr>rq_path_params := []\<rparr>) selector = protocol"
    unfolding assms(10) by (cases selector) (simp_all add: negotiate_protocol_def rq_header_def known_header known_names_def l)
  have e: "?req\<lparr>rq_accept_content_types := [], rq_ranges := []\<rparr> = ?req"
    by (simp add: parsed_request_def with_addresses_def new_request_def)
  have w: "websocket_loop ev ((Regex_Matcher p, selector) # es) closing ?req \<lparr>conn_in = rest, conn_out = out, conn_writes = []\<rparr>
      = Inl \<lparr>pr_ret = True, pr_closed = True, pr_upgraded = True, pr_conn = \<lparr>conn_in = rest,
        conn_out = out @ handshake_response (websocket_accept_key ?k) protocol, conn_writes = []\<rparr>\<rparr>" for closing
    using assms(8,9,11) n q(5)
    by (simp add: regex_match_def conn_write_def rq_header_def Let_def)
  have cf: "check_fields ev sv fin closing ?req res c = upgrade_or_route ev sv fin closing ?req res c" for closing res c
    unfolding check_fields_def expect_continue_def
    by (simp add: rq_has_header_def rq_header_def q(1-3)) (simp only: e)
  show ?thesis
    unfolding process_text [OF _ assms(1) pl, of "''GET''", simplified known_methods_def, simplified] Let_def cf
    using q(4) u w by (simp add: rq_has_header_def upgrade_or_route_def assms(6,7) run_hook_def)
qed

lemma handshake_accepted:
  assumes "is_field_value protocol" "length protocol < 8000"
  shows "read_websocket_upgrade_response (websocket_accept_key k) (handshake_response (websocket_accept_key k) protocol @ rest)
    = Some (protocol, rest)"
proof -
  let ?a = "websocket_accept_key k"
  let ?h = "accept_fields ?a protocol"
  have "is_field_value ?a" by (simp add: websocket_accept_key_def base64_value)
  then have "plain_headers ?h"
    using assms field_constants accept_key_length [of k]
    by (simp add: plain_headers_def accept_fields_def is_field_valid_def short_field_def HEADER_MAX_COUNT_def
        one_content_length_def equal_range_def case_equal_def to_lower_def lower_byte_def byte_def)
  then have r: "read_headers (concat (map header_line ?h) @ CRLF @ rest) = Some (?h, rest)" by (rule read_plain_headers)
  have e: "equal_range ?h ''Upgrade'' = [''websocket'']" "equal_range ?h ''Connection'' = [''Upgrade'']"
    "equal_range ?h ''Sec-WebSocket-Accept'' = [?a]"
    "equal_range ?h ''Sec-WebSocket-Protocol'' = (if protocol = [] then [] else [protocol])"
    by (simp_all add: accept_fields_def equal_range_def case_equal_def to_lower_def lower_byte_def byte_def)
  have g: "getline (handshake_response ?a protocol @ rest)
      = Some (''HTTP/1.1 101 Switching Protocols'' @ CRLF, concat (map header_line ?h) @ CRLF @ rest)"
    using getline_crlf [of "''HTTP/1.1 101 Switching Protocols''"] by (simp add: handshake_response_text MAX_LINE_LENGTH_def LF_def)
  have i: "has_infix ''HTTP/1.1 101'' (''HTTP/1.1 101 Switching Protocols'' @ CRLF)" by code_simp
  show ?thesis
    unfolding read_websocket_upgrade_response_def g option.case prod.case r
    using i by (simp add: e upgrade_words)
qed

subsection \<open>Messages\<close>

lemma sent_text_read:
  assumes "ws_is_server w" "\<not> ws_closed w" "\<forall>n. 8 \<le> avail n" "length key = 4" "is_valid_utf8 m"
    and "length m \<le> WEBSOCKET_MAX_PAYLOAD_LENGTH" "conn_in (ws_conn w) = frame_text Op_Text m True (Some key) @ rest"
  shows "ws_read avail msg w = (Read_Text, m, w\<lparr>ws_conn := (ws_conn w)\<lparr>conn_in := rest\<rparr>\<rparr>)"
proof -
  have "next_frame avail WEBSOCKET_MAX_PAYLOAD_LENGTH w
      = Some (Op_Text, m, True, w\<lparr>ws_conn := (ws_conn w)\<lparr>conn_in := rest\<rparr>\<rparr>)"
    using assms by (intro next_frame_read [where mkey = "Some key"]) (simp_all add: opcodes)
  then show ?thesis using assms(2,5) by (subst ws_read.simps) (simp add: opcodes deliver_def)
qed

text \<open>What the client writes until it has sent its first message.\<close>

definition session_start :: "ws_client \<Rightarrow> string \<Rightarrow> (nat \<Rightarrow> string) \<Rightarrow> string \<Rightarrow> string" where
  "session_start cl key_bytes random m =
     handshake_request (wc_host cl) (wc_port cl) (wc_path cl) (wc_headers cl) (base64_encode key_bytes)
     @ frame_text Op_Text m True (Some (random 0))"

lemma client_connects:
  assumes "wc_is_valid cl" "wc_ws cl = None" "is_field_value (wc_path cl)" "is_field_value (wc_host cl)"
    and "extra_fields (wc_headers cl)" "is_field_value protocol" "length protocol < 8000"
  shows "\<exists>cl1 cl2 w. ws_connect avail key_bytes random (Some \<lparr>conn_in = handshake_response (websocket_accept_key (base64_encode key_bytes)) protocol @ rest,
      conn_out = [], conn_writes = []\<rparr>) cl = (True, cl1) \<and> wc_is_open cl1 \<and> wc_subprotocol cl1 = protocol
    \<and> wc_send_text m cl1 = (True, cl2) \<and> wc_ws cl2 = Some w \<and> conn_in (ws_conn w) = rest
    \<and> conn_out (ws_conn w) = session_start cl key_bytes random m"
proof -
  let ?sent = "handshake_request (wc_host cl) (wc_port cl) (wc_path cl) (wc_headers cl) (base64_encode key_bytes)"
  let ?w = "new_websocket False random \<lparr>conn_in = rest, conn_out = ?sent, conn_writes = []\<rparr>"
  have "list_all (\<lambda>x. is_field_valid (fst x) (snd x)) (wc_headers cl)" using assms(5) by (simp add: extra_fields_def)
  then have c: "ws_connect avail key_bytes random (Some \<lparr>conn_in = handshake_response (websocket_accept_key (base64_encode key_bytes)) protocol @ rest,
      conn_out = [], conn_writes = []\<rparr>) cl = (True, cl\<lparr>wc_subprotocol := protocol, wc_ws := Some ?w\<rparr>)"
    using assms by (simp add: ws_connect_def shutdown_and_close_def perform_websocket_handshake_def conn_write_def
        handshake_accepted Let_def)
  have s: "fst (ws_send_text m ?w)" "conn_in (ws_conn (snd (ws_send_text m ?w))) = rest"
    "conn_out (ws_conn (snd (ws_send_text m ?w))) = session_start cl key_bytes random m"
    using ws_write_sent [of ?w Op_Text m True]
    by (simp_all add: ws_send_text_def send_frame_def new_websocket_def ws_mask_def session_start_def)
  obtain b w where w: "ws_send_text m ?w = (b, w)" by fastforce
  have "wc_send_text m (cl\<lparr>wc_subprotocol := protocol, wc_ws := Some ?w\<rparr>)
      = (True, cl\<lparr>wc_subprotocol := protocol, wc_ws := Some w\<rparr>)"
    using s(1) by (simp add: wc_send_text_def on_socket_def w)
  moreover have "wc_is_open (cl\<lparr>wc_subprotocol := protocol, wc_ws := Some ?w\<rparr>)"
    by (simp add: wc_is_open_def new_websocket_def)
  ultimately show ?thesis using c s(2,3) by (fastforce simp: w)
qed


definition chat_client :: ws_client where
  "chat_client = \<lparr>wc_host = ''localhost'', wc_port = 80, wc_path = ''/chat'', wc_headers = [(''Sec-WebSocket-Protocol'', ''chat'')],
     wc_subprotocol = [], wc_is_valid = True, wc_ws = None, wc_ended = []\<rparr>"

definition chat_server :: http_server where
  "chat_server = new_http_server\<lparr>sv_websocket_handlers := [(Regex_Matcher ''/chat'', Some hd)]\<rparr>"

lemma chat_address: "new_websocket_client ''ws://localhost/chat'' [(''Sec-WebSocket-Protocol'', ''chat'')] = Inr chat_client"
proof -
  have "parse_url ''ws://localhost/chat'' = Some \<lparr>uc_scheme = ''ws'', uc_host = ''localhost'', uc_port = [], uc_path = ''/chat'', uc_query = []\<rparr>"
    by code_simp
  then show ?thesis by (simp add: new_websocket_client_def chat_client_def)
qed

lemma chat_protocol:
  "negotiate_protocol (new_request\<lparr>rq_headers := [(''Sec-WebSocket-Protocol'', ''chat'')]\<rparr>) (Some hd) = ''chat''"
proof -
  have "offered_protocols ''chat'' = [''chat'']" "c_str ''chat'' = ''chat''" by code_simp+
  then show ?thesis
    by (simp add: negotiate_protocol_def rq_header_def known_header known_names_def equal_range_def case_equal_def)
qed


end
