(* ===== verification/Spec2Isabelle.thy ===== *)
theory Spec2Isabelle
  imports Db_Spec Handler_Expiry Server_Runs Handler_Replies Metrics_Page Http_Guards Http_Targets Http_Listen Http_Ws_Session Http_Config
    Http_Sse Http_Redirects Http_Form_Call Http_Ws_Client
begin

text \<open>
  FluxenDB: a verification development.

  \<^bold>\<open>The program.\<close>  FluxenDB is an in-memory key-value server that speaks the Redis protocol.  One
  thread waits with epoll, receives the bytes of a client, parses them into tokens, runs the
  command on the database and sends the reply; every few seconds and at the end it writes the
  database to a file, from which the next start restores it.  A second thread serves the counters
  of the server as a page under \<open>/metrics\<close>, with the HTTP library \<open>include/httplib.h\<close> that the
  repository carries.  A small command line client encodes what is typed, sends it and shows the
  reply.

  \<^bold>\<open>What models what.\<close>  Every theory opens with the file it models; definitions keep the names of the
  sources, and the handler, the loop and the library are taken function by function.

  \<^item> \<open>Prelude\<close>, \<open>Cpp_String\<close>, \<open>Cpp_Double\<close>, \<open>Unordered_Map\<close>: the language.  Exceptions and undefined
    steps are the left side of a sum (\<open>rbind\<close> sequences them); \<open>int\<close> and \<open>size_t\<close> are integers
    with their wrap-around written out, counters are words; \<open>std::string\<close> is a list of bytes;
    \<open>double\<close> is a rational rounded to 53 bits; an \<open>unordered_map\<close> is the list of its nodes, with
    the locale \<open>keyed_store\<close> for its laws.
  \<^item> \<open>Database\<close>, \<open>Db_Lists\<close>, \<open>Db_Hashes\<close>, \<open>Db_Lrem\<close>, \<open>Db_Persistence\<close> (\<open>server/Database.cpp\<close>): the
    singleton with its four maps as a record, one definition per method; \<open>Db_Spec\<close> is the abstract
    store (four finite maps) that the methods refine.
  \<^item> \<open>Resp_Parser\<close>, \<open>Command_Handler\<close> (\<open>server/CommandHandler.cpp\<close>): the parser, and one definition
    per command under \<open>dispatch\<close> and \<open>processCommand\<close>.  \<open>Handler_Accounting\<close>, \<open>Handler_Expiry\<close>,
    \<open>Handler_Invariant\<close> and \<open>Handler_Replies\<close> are about all commands at once.
  \<^item> \<open>Metrics\<close>, \<open>Metrics_Page\<close> (\<open>utils/Metrics.cpp\<close>, \<open>utils/MetricsServer.cpp\<close>): counters, the
    latency histogram, the exported page, and the HTTP server that serves it.
  \<^item> \<open>Server_Loop\<close>, \<open>Server_Steps\<close>, \<open>Server_Runs\<close> (\<open>server/Server.cpp\<close>, \<open>server/main.cpp\<close>): the
    event loop as functions, as a step relation in which scrapes and the signal interleave, and the
    proof that the first is a run of the second.
  \<^item> \<open>Client\<close>, \<open>Session\<close> (\<open>client/Client.cpp\<close>, \<open>client/main.cpp\<close>): the client, and client and server
    together.
  \<^item> The library, from the bottom up.  \<open>Http_Text\<close>, \<open>Http_Uri\<close>, \<open>Http_Fields\<close>, \<open>Http_Headers\<close>,
    \<open>Http_Status\<close>, \<open>Http_Query\<close>, \<open>Http_Codec\<close>, \<open>Http_Url\<close>: its texts, codings, tables and header
    blocks.  \<open>Http_Message\<close>, \<open>Http_Routes\<close>, \<open>Http_Ranges\<close>, \<open>Http_Stream\<close>, \<open>Http_Body\<close>,
    \<open>Http_Form\<close>, \<open>Http_Files\<close>: messages, and how they are framed, read and matched.
    \<open>Http_Request\<close>, \<open>Http_Response\<close>, \<open>Http_Server\<close>, \<open>Http_Config\<close>: the server, from the request line
    to the keep-alive loop.  \<open>Http_Pool\<close>, \<open>Http_Listen\<close>: the thread pool, accepting and stopping, as
    step relations.  \<open>Http_Utf8\<close>, \<open>Http_Ws\<close>, \<open>Http_WebSocket\<close>, \<open>Http_Ws_Client\<close>: WebSocket, both
    ends.  \<open>Http_Client\<close>, \<open>Http_Calls\<close>, \<open>Http_Sse\<close>: the HTTP client with its redirects and its
    calls, and the reader of server-sent events.
    \<open>Http_Answers\<close>, \<open>Http_Guards\<close>, \<open>Http_Targets\<close>, \<open>Http_Ws_Session\<close>, \<open>Http_Redirects\<close> hold theorems
    about these; \<open>Metrics_Client\<close> and \<open>Http_Form_Call\<close> let client and server talk to each other.

  \<^bold>\<open>What is proved.\<close>  The database refines finite maps, list by list and hash by hash (C1, C11), and
  survives dump, load and restart (C2, C3).  In every reachable configuration the gauge counts the
  registered descriptors and keys are unique (C4, C5); the signal ends the loop and saves (C30).  A
  command is counted once, answers with the type it promises and fails only where \<open>crash_cause\<close>
  says (C6, C7, C31); its deadlines change nothing (C10).  Requests are parsed as they were written
  (C8, C22), typed commands come back as replies (C9, C18), and a second request in one read is lost
  (C23).  The histogram counts what it is shown (C16).  The metrics page is served to the HTTP client
  end to end (C15), other requests are refused and the connection ends as it should (C33, C34), all
  through a pool that is a queue, completes its jobs and closes every connection once (C13, C14, C17,
  C24).  Of the library: framing (C27, C28, C35), ranges (C25), addresses and files (C37, C38),
  validators (C39), targets (C40), calls by form from client to handler and back (C32), UTF-8 and
  WebSocket (C12, C20, C26, C36) up to a session between its client and its server (C29), and that a
  redirect gives no credentials away (C21).

  \<^bold>\<open>Interfaces.\<close>  \<open>keyed_store\<close>, \<open>deque\<close>, \<open>line_codec\<close>, \<open>db_invariant\<close>, \<open>hashed_keys\<close>, \<open>percent_coding\<close>
  and \<open>byte_source\<close> are locales; each is interpreted on the definitions of the code, several of them
  more than once.

  \<^bold>\<open>What is given.\<close>  The kernel and the clock are input: what \<open>epoll_wait\<close>, \<open>accept\<close>, \<open>recv\<close>, \<open>send\<close>
  and \<open>getrusage\<close> report, which thread runs next, how many bytes a read finds (\<open>avail\<close>), what a
  write accepts (\<open>conn_writes\<close>), what a connection delivers.  \<open>stat\<close>, \<open>realpath\<close>, \<open>inet_pton\<close> and
  \<open>std::regex\<close> for patterns with operators are parameters.  Handlers are functions, those that read
  the body trees of their calls.

  \<^bold>\<open>Bounds.\<close>  No model runs on fuel: every loop is structural or has a measure, most often what is
  left to read; the event loops of the server and of the reader of events run over the list of what
  their rounds find, and the redirects of a request over its redirect count, which the code bounds
  by 20.  Premises such as \<open>length s \<le> nat INT_MAX\<close> are where the code converts a size to \<open>int\<close>.

  \<^bold>\<open>Not modelled.\<close>  Output to the terminal, loggers, progress callbacks, timeouts and socket options.
  TLS and compression are compiled out, and digest authentication with them.  Of the HTTP client the
  calls with multipart forms and \<open>stop\<close>; of the library the address resolution and the Windows and
  macOS branches.
\<close>

lemma run_start_frame:
  assumes "run_start b s = (s1, started)"
  shows "world s1 = world s" "watched s1 = watched s" "files s1 = files s" "running s1 = running s"
  using assms by (auto simp: run_start_def Let_def split: if_splits)

text \<open>C3: A session survives a restart.  A server whose database can be stored, fed with any
  inline requests without a colon, shut down, and started again on the file it left, has
  the same strings, lists and hashes; the deadlines are gone.\<close>

theorem restart_keeps_data:
  assumes "run_loop rs s = Inr (s', again)" "list_all plain_round rs" "storable (wdb (world s))"
  shows "\<exists>s2. main_start [] now (files (run_end True s')) = Inr s2
    \<and> kv_store (wdb (world s2)) = kv_store (wdb (world s'))
    \<and> list_store (wdb (world s2)) = list_store (wdb (world s'))
    \<and> hash_store (wdb (world s2)) = hash_store (wdb (world s'))
    \<and> expirey_map (wdb (world s2)) = []"
  using assms by (rule run_then_restart)

theorem restart_keeps_data_witness:
  "\<exists>s' s2. run_loop [\<lparr>signalled = False,
        waited = Wait_ready [Client 7 clock0 (Received ''SET k v'')], clock = 1, can_open = True\<rparr>]
        (new_server 6379 0 fresh_world Map.empty\<lparr>watched := [7]\<rparr>) = Inr (s', True)
    \<and> main_start [] 0 (files (run_end True s')) = Inr s2
    \<and> kv_store (wdb (world s2)) = [(''k'', ''v'')]"
proof -
  let ?s = "new_server 6379 0 fresh_world Map.empty\<lparr>watched := [7]\<rparr>"
  let ?rs = "[\<lparr>signalled = False,
        waited = Wait_ready [Client 7 clock0 (Received ''SET k v'')], clock = 1, can_open = True\<rparr>]"
  have "tokens_of ''SET k v'' = [''SET'', ''k'', ''v'']"
    using tokens_of_word [of "''SET''" "'' k v''"] tokens_of_word [of "''k''" "'' v''"]
      tokens_of_word [of "''v''" "[]"]
    by (simp_all add: is_token_def no_space_def isspace_def)
  then have p: "parseRespCommand ''SET k v'' = Inr [''SET'', ''k'', ''v'']" by (simp add: parse_inline)
  have up: "map toupper ''SET'' = ''SET''" by (simp add: toupper_def)
  obtain w' where w': "processCommand clock0 ''SET k v'' fresh_world = Inr (''+OK'' @ CRLF, w')"
    "wdb w' = db_set ''k'' ''v'' empty_db"
    using processCommand_eq [OF p, of clock0 fresh_world] up by (simp add: dispatch_def cmd_SET_def)
  then obtain s' where s': "run_loop ?rs ?s = Inr (s', True)" "wdb (world s') = db_set ''k'' ''v'' empty_db"
    by (simp add: new_server_def end_round_def dumpInterval_def)
  moreover have "list_all plain_round ?rs" by (simp add: plain_request_def)
  moreover have "storable (wdb (world ?s))" by (simp add: new_server_def storable_empty)
  ultimately show ?thesis
    using restart_keeps_data [of ?rs ?s s' True 0] by (auto simp: db_set_def empty_db_def um_set_def)
qed

text \<open>C4: From the start of the program on, whatever the kernel reports, whenever the metrics
  are scraped and whenever the signal arrives, the client gauge is the number of
  descriptors registered with epoll, modulo its width, and no descriptor is registered
  twice.\<close>

theorem gauge_counts_clients:
  assumes "main_start argv now fs = Inr s0" "run_start b s0 = (s1, True)" "reachable s1 (pc, s)"
  shows "clients (stats (world s)) = of_nat (length (watched s)) \<and> distinct (watched s)"
proof -
  have "gauge_ok (Waiting, s1)"
    using main_start_gauge [OF assms(1)] run_start_frame [OF assms(2)] by (simp add: gauge_ok_def)
  from gauge_reachable [OF assms(3) this] show ?thesis by (simp add: gauge_ok_def)
qed

lemma empty_start:
  "main_start [] 0 Map.empty = Inr (new_server 6379 0 fresh_world Map.empty)"
  by (simp add: main_start_def load_def)

theorem gauge_counts_clients_witness:
  "clients (stats (world (new_server 6379 0 fresh_world Map.empty))) = 0
    \<and> distinct (watched (new_server 6379 0 fresh_world Map.empty))"
proof -
  let ?b = "\<lparr>socket_res = 3, bind_res = 0, listen_res = 0, epoll_res = 4, ctl_res = 0\<rparr>"
  let ?s = "new_server 6379 0 fresh_world Map.empty"
  have "run_start ?b ?s = (?s\<lparr>server_socket := 3\<rparr>, True)" by (simp add: run_start_def)
  from gauge_counts_clients [OF empty_start this reachable.start] show ?thesis
    by (simp add: new_server_def)
qed



end
